(* ===== verification/Prelude.thy ===== *)
theory Prelude
  imports Main "HOL-Library.AList" "HOL-Library.Word"
begin

text \<open>
  What every theory of the development shares: Go maps as association lists, the
  combinators for fallible loops, and the generic facts about them.

  A Go \<open>map[K]V\<close> is an association list with distinct keys. Lookup is \<open>map_of\<close>, the
  assignment \<open>m[k] = v\<close> is \<open>AList.update\<close>, \<open>delete(m, k)\<close> is \<open>AList.delete\<close>. The order
  of the list is the order in which a \<open>range\<close> loop visits the map; Go leaves that order
  open, so a theorem that quantifies over every such list holds for every order, and where
  the code must not depend on the order the development proves that it does not.
\<close>

named_theorems gomap_simps "rewriting of lookups in Go maps"

type_synonym ('k, 'v) gomap = "('k \<times> 'v) list"

text \<open>The representation invariant of a Go map: a key occurs once.\<close>

definition wf_map :: "('k, 'v) gomap \<Rightarrow> bool" where
  "wf_map m \<longleftrightarrow> distinct (map fst m)"

abbreviation keys :: "('k, 'v) gomap \<Rightarrow> 'k set" where
  "keys m \<equiv> fst ` set m"

lemma wf_map_Nil [simp]: "wf_map []"
  by (simp add: wf_map_def)

lemma wf_map_Cons [simp]: "wf_map ((k, v) # m) \<longleftrightarrow> k \<notin> keys m \<and> wf_map m"
  by (auto simp: wf_map_def)

lemma wf_map_update [simp]: "wf_map m \<Longrightarrow> wf_map (AList.update k v m)"
  by (simp add: wf_map_def distinct_update)

lemma wf_map_delete [simp]: "wf_map m \<Longrightarrow> wf_map (AList.delete k m)"
  by (simp add: wf_map_def distinct_delete)

lemma map_of_alist_update [simp, gomap_simps]:
  "map_of (AList.update k v m) = (map_of m)(k \<mapsto> v)"
  by (simp add: update_conv')

lemma map_of_alist_delete [simp, gomap_simps]:
  "map_of (AList.delete k m) = (map_of m)(k := None)"
  by (simp add: delete_conv')

lemma keys_update [simp, gomap_simps]: "keys (AList.update k v m) = insert k (keys m)"
  using dom_update [of k v m] by (auto simp: image_def)

lemma keys_delete [simp, gomap_simps]: "keys (AList.delete k m) = keys m - {k}"
  using delete_keys [of k m] by (auto simp: AList.delete_eq)

lemma map_of_eq_None_keys: "map_of m k = None \<longleftrightarrow> k \<notin> keys m"
  by (rule map_of_eq_None_iff)

lemma map_of_SomeD_keys: "map_of m k = Some v \<Longrightarrow> k \<in> keys m"
  by (metis map_of_eq_None_keys option.distinct(1))

lemma keys_obtain:
  assumes "k \<in> keys m"
  obtains v where "map_of m k = Some v"
  using assms map_of_eq_None_keys [of m k] by (cases "map_of m k") auto

lemma wf_map_map_of [simp]: "wf_map m \<Longrightarrow> (k, v) \<in> set m \<Longrightarrow> map_of m k = Some v"
  by (simp add: wf_map_def)

lemma ball_map_of:
  "wf_map m \<Longrightarrow> (\<forall>(k, v) \<in> set m. Q k v) \<longleftrightarrow> (\<forall>k v. map_of m k = Some v \<longrightarrow> Q k v)"
  by (auto dest: map_of_SomeD)

text \<open>Maps with the same bindings in another order are the same Go map.\<close>

lemma map_of_perm:
  assumes "wf_map m" "wf_map m'" "set m = set m'"
  shows "map_of m = map_of m'"
  using assms by (simp add: map_of_inject_set wf_map_def)

subsection \<open>Lists compared pointwise\<close>

lemma list_all2_ball_iff:
  "list_all2 (\<lambda>x y. P x = P y) xs ys \<Longrightarrow> (\<forall>x \<in> set xs. P x) \<longleftrightarrow> (\<forall>y \<in> set ys. P y)"
  by (induction xs ys rule: list_all2_induct) auto

lemma list_all2_concat_map:
  "list_all2 (\<lambda>x y. map h (g x) = map h (g y)) xs ys \<Longrightarrow>
     map h (concat (map g xs)) = map h (concat (map g ys))"
  by (induction xs ys rule: list_all2_induct) auto

subsection \<open>Fallible loops\<close>

text \<open>
  A loop over a map that builds a map with the same keys and stops at the first error:
  \<open>for k, v := range m { x, err := f(k, v); if err != nil { return err }; ret[k] = x }\<close>.
\<close>

fun mapM_kv :: "('k \<Rightarrow> 'a \<Rightarrow> 'e + 'b) \<Rightarrow> ('k, 'a) gomap \<Rightarrow> 'e + ('k, 'b) gomap" where
  "mapM_kv f [] = Inr []"
| "mapM_kv f ((k, v) # m) =
     (case f k v of
        Inl e \<Rightarrow> Inl e
      | Inr x \<Rightarrow> (case mapM_kv f m of Inl e \<Rightarrow> Inl e | Inr r \<Rightarrow> Inr ((k, x) # r)))"

lemma mapM_kv_keys: "mapM_kv f m = Inr r \<Longrightarrow> map fst r = map fst m"
  by (induction f m arbitrary: r rule: mapM_kv.induct) (auto split: sum.splits)

lemma mapM_kv_wf: "mapM_kv f m = Inr r \<Longrightarrow> wf_map r = wf_map m"
  by (simp add: wf_map_def mapM_kv_keys)

lemma mapM_kv_Inr_iff:
  "mapM_kv f m = Inr r \<longleftrightarrow> list_all2 (\<lambda>(k, v) (k', x). k = k' \<and> f k v = Inr x) m r"
proof (induction f m arbitrary: r rule: mapM_kv.induct)
  case (1 f)
  then show ?case by auto
next
  case (2 f k v m)
  then show ?case
    by (cases r) (auto split: sum.splits)
qed

lemma mapM_kv_lookup:
  "mapM_kv f m = Inr r \<Longrightarrow>
     map_of r k = (case map_of m k of
        None \<Rightarrow> None
      | Some v \<Rightarrow> (case f k v of Inl e \<Rightarrow> None | Inr x \<Rightarrow> Some x))"
  by (induction f m arbitrary: r rule: mapM_kv.induct) (auto split: sum.splits)

lemma mapM_kv_ok_iff:
  "(\<exists>r. mapM_kv f m = Inr r) \<longleftrightarrow> (\<forall>(k, v) \<in> set m. \<exists>x. f k v = Inr x)"
proof (induction f m rule: mapM_kv.induct)
  case (2 f k v m)
  then show ?case by (cases "f k v"; cases "mapM_kv f m") auto
qed simp

lemma case_sum_ok_iff [simp]:
  "(\<exists>x. (case r of Inl e \<Rightarrow> Inl (f e) | Inr y \<Rightarrow> Inr y) = Inr x) \<longleftrightarrow> (\<exists>x. r = Inr x)"
  by (cases r) auto

lemma mapM_kv_cong [fundef_cong]:
  "m = m' \<Longrightarrow> (\<And>k v. (k, v) \<in> set m' \<Longrightarrow> f k v = g k v) \<Longrightarrow> mapM_kv f m = mapM_kv g m'"
  by (induction f m arbitrary: m' rule: mapM_kv.induct) (auto split: sum.splits)

end
