(* ===== verification/Rules_Engine.thy ===== *)
theory Rules_Engine
  imports Prelude "HOL-Library.List_Lexorder" "HOL-Library.Char_ord"
begin

text \<open>
  The rules engine, compilation side: \<open>rules/engine.go\<close>, from the rule data to
  \<open>CompileRules\<close>. The expression compiler (\<open>expr.Compile\<close> of \<open>expr-lang/expr\<close>) is not
  part of the repository: it is the argument \<open>compile\<close>, from the source text of an
  expression to an error of its own type or a program of type \<open>'p\<close>.
\<close>

section \<open>Rule data\<close>

text \<open>
  \<open>Rule\<close> and \<open>CompiledRule\<close>, \<open>Actions\<close> and \<open>CompiledActions\<close>, \<open>Capabilities\<close> and
  \<open>CompiledCapabilities\<close> are the same structures over expression texts (\<open>string\<close>) and
  over compiled programs (\<open>*vm.Program\<close>): each is one datatype over the expression type.
\<close>

type_synonym 'v CapabilityValues = "(string, 'v) gomap"

datatype 'v Capabilities =
  Capabilities (Add: "(string, 'v CapabilityValues) gomap")
               (Remove: "(string, 'v CapabilityValues) gomap")

datatype 'v Actions = Actions (ActionCapabilities: "'v Capabilities")

datatype 'v Rule =
  Rule (Description: string) (Filter: 'v) (RuleActions: "'v Actions") (Children: "'v Rule list")

type_synonym 'p CompiledRule = "'p Rule"

record RuleSet =
  Name :: string
  DependsOn :: "string list"
  RuleSetRules :: "string Rule list"

record 'p Engine =
  RuleSets :: "(string, RuleSet) gomap"
  Rules :: "'p CompiledRule list"

text \<open>The errors of the engine, one constructor per \<open>fmt.Errorf\<close> of the file, with the
  values it formats; \<open>'e\<close> is the error type of the expression library.\<close>

datatype 'e CompileError =
    MissingDependency "string list" string
  | CircularDependency "string list" string
  | RulesetCompilation "string list" "'e CompileError"
  | FilterCompilation 'e
  | InRule string "'e CompileError"
  | InAdd "'e CompileError"
  | InRemove "'e CompileError"
  | InCapability string "'e CompileError"
  | AttributeCompilation string 'e

definition New :: "'p Engine" where
  "New = \<lparr>RuleSets = [], Rules = []\<rparr>"

section \<open>Loading rule sets\<close>

text \<open>
  \<open>LoadReader\<close> decodes one JSON document and files the rule set under its own name. The
  decoder (\<open>encoding/json\<close> on a reader) is the argument \<open>decode\<close>.
\<close>

definition LoadReader :: "('r \<Rightarrow> 'e + RuleSet) \<Rightarrow> 'r \<Rightarrow> 'p Engine \<Rightarrow> 'e option \<times> 'p Engine" where
  "LoadReader decode r e =
     (case decode r of
        Inl err \<Rightarrow> (Some err, e)
      | Inr rs \<Rightarrow> (None, e\<lparr>RuleSets := AList.update (Name rs) rs (RuleSets e)\<rparr>))"

text \<open>One visit of \<open>fs.WalkDir\<close>: the path from the root, the entry's base name
  (\<open>d.Name()\<close>) and whether it is a directory. \<open>open\<close> is \<open>lFS.Open\<close>, called by the code
  with the base name. The walk stops at the first error.\<close>

record dir_entry =
  entry_path :: string
  entry_name :: string
  entry_isdir :: bool

definition hasSuffix :: "string \<Rightarrow> string \<Rightarrow> bool" where
  "hasSuffix s suf \<longleftrightarrow> length suf \<le> length s \<and> drop (length s - length suf) s = suf"

fun LoadFS :: "(string \<Rightarrow> 'e + 'r) \<Rightarrow> ('r \<Rightarrow> 'e + RuleSet) \<Rightarrow> dir_entry list \<Rightarrow> 'p Engine
    \<Rightarrow> 'e option \<times> 'p Engine" where
  "LoadFS openf decode [] e = (None, e)"
| "LoadFS openf decode (d # ds) e =
     (if \<not> entry_isdir d \<and> hasSuffix (entry_name d) ''.json'' then
        (case openf (entry_name d) of
           Inl err \<Rightarrow> (Some err, e)
         | Inr f \<Rightarrow>
             (case LoadReader decode f e of
                (Some err, e') \<Rightarrow> (Some err, e')
              | (None, e') \<Rightarrow> LoadFS openf decode ds e'))
      else LoadFS openf decode ds e)"

section \<open>Compiling rules and actions\<close>

definition compileCapabilityValue ::
  "(string \<Rightarrow> 'e + 'p) \<Rightarrow> string CapabilityValues \<Rightarrow> 'e CompileError + 'p CapabilityValues" where
  "compileCapabilityValue compile c =
     mapM_kv (\<lambda>k v. case compile v of Inl e \<Rightarrow> Inl (AttributeCompilation k e) | Inr p \<Rightarrow> Inr p) c"

definition compileActionParameters ::
  "(string \<Rightarrow> 'e + 'p) \<Rightarrow> (string, string CapabilityValues) gomap
    \<Rightarrow> 'e CompileError + (string, 'p CapabilityValues) gomap" where
  "compileActionParameters compile values =
     mapM_kv (\<lambda>k val. case compileCapabilityValue compile val of
                Inl e \<Rightarrow> Inl (InCapability k e) | Inr ccv \<Rightarrow> Inr ccv) values"

definition compileActions ::
  "(string \<Rightarrow> 'e + 'p) \<Rightarrow> string Actions \<Rightarrow> 'e CompileError + 'p Actions" where
  "compileActions compile a =
     (case compileActionParameters compile (Add (ActionCapabilities a)) of
        Inl e \<Rightarrow> Inl (InAdd e)
      | Inr addCapabilities \<Rightarrow>
          (case compileActionParameters compile (Remove (ActionCapabilities a)) of
             Inl e \<Rightarrow> Inl (InRemove e)
           | Inr removeCapabilities \<Rightarrow>
               Inr (Actions (Capabilities addCapabilities removeCapabilities))))"

fun compileRules ::
  "(string \<Rightarrow> 'e + 'p) \<Rightarrow> string Rule list \<Rightarrow> 'e CompileError + 'p CompiledRule list" where
  "compileRules compile [] = Inr []"
| "compileRules compile (Rule d f a ch # rules) =
     (case compile f of
        Inl e \<Rightarrow> Inl (FilterCompilation e)
      | Inr cf \<Rightarrow>
          (case compileRules compile ch of
             Inl e \<Rightarrow> Inl (InRule d e)
           | Inr childCompiledRules \<Rightarrow>
               (case compileActions compile a of
                  Inl e \<Rightarrow> Inl (InRule d e)
                | Inr ca \<Rightarrow>
                    (case compileRules compile rules of
                       Inl e \<Rightarrow> Inl e
                     | Inr rest \<Rightarrow> Inr (Rule d cf ca childCompiledRules # rest)))))"

section \<open>Compiling rule sets in dependency order\<close>

text \<open>
  The state the recursion mutates: \<open>alreadyLoaded\<close> (a \<open>map[string]bool\<close>, whose missing
  keys read as \<open>false\<close>) and the engine's compiled rules. \<open>trail\<close> is passed by value.
  The Go recursion need not return when a rule set is filed under a name other than its
  own (the trail records \<open>rs.Name\<close>, the lookup uses the key), so the model carries fuel,
  one unit per nested call; \<open>None\<close> is "out of fuel". \<open>compileRuleSet_fuel\<close> below shows
  how much is enough for every engine that \<open>LoadReader\<close> can build.
\<close>

type_synonym 'p loadState = "(string \<Rightarrow> bool) \<times> 'p CompiledRule list"

fun compileRuleSet ::
  "nat \<Rightarrow> (string \<Rightarrow> 'e + 'p) \<Rightarrow> (string, RuleSet) gomap \<Rightarrow> string list \<Rightarrow> string
    \<Rightarrow> 'p loadState \<Rightarrow> ('e CompileError option \<times> 'p loadState) option"
and compileDependencies ::
  "nat \<Rightarrow> (string \<Rightarrow> 'e + 'p) \<Rightarrow> (string, RuleSet) gomap \<Rightarrow> string list \<Rightarrow> string list
    \<Rightarrow> 'p loadState \<Rightarrow> ('e CompileError option \<times> 'p loadState) option" where
  "compileRuleSet 0 compile sets trail name st = None"
| "compileRuleSet (Suc n) compile sets trail name st =
     (case map_of sets name of
        None \<Rightarrow> Some (Some (MissingDependency trail name), st)
      | Some rs \<Rightarrow>
          (case compileDependencies n compile sets (trail @ [Name rs]) (DependsOn rs) st of
             None \<Rightarrow> None
           | Some (Some e, st') \<Rightarrow> Some (Some e, st')
           | Some (None, alreadyLoaded, rules) \<Rightarrow>
               (case compileRules compile (RuleSetRules rs) of
                  Inl e \<Rightarrow>
                    Some (Some (RulesetCompilation (trail @ [Name rs]) e), alreadyLoaded, rules)
                | Inr cr \<Rightarrow> Some (None, alreadyLoaded(name := True), rules @ cr))))"
| "compileDependencies n compile sets trail [] st = Some (None, st)"
| "compileDependencies n compile sets trail (k # ks) st =
     (if k \<in> set trail then Some (Some (CircularDependency trail k), st)
      else if \<not> fst st k then
        (case compileRuleSet n compile sets trail k st of
           None \<Rightarrow> None
         | Some (Some e, st') \<Rightarrow> Some (Some e, st')
         | Some (None, st') \<Rightarrow> compileDependencies n compile sets trail ks st')
      else compileDependencies n compile sets trail ks st)"

fun compileAll ::
  "nat \<Rightarrow> (string \<Rightarrow> 'e + 'p) \<Rightarrow> (string, RuleSet) gomap \<Rightarrow> string list
    \<Rightarrow> 'p loadState \<Rightarrow> ('e CompileError option \<times> 'p loadState) option" where
  "compileAll n compile sets [] st = Some (None, st)"
| "compileAll n compile sets (k # ks) st =
     (if \<not> fst st k then
        (case compileRuleSet n compile sets [] k st of
           None \<Rightarrow> None
         | Some (Some e, st') \<Rightarrow> Some (Some e, st')
         | Some (None, st') \<Rightarrow> compileAll n compile sets ks st')
      else compileAll n compile sets ks st)"

definition CompileRules ::
  "nat \<Rightarrow> (string \<Rightarrow> 'e + 'p) \<Rightarrow> 'p Engine \<Rightarrow> ('e CompileError option \<times> 'p Engine) option" where
  "CompileRules n compile e =
     (case compileAll n compile (RuleSets e) (sort (map fst (RuleSets e))) (\<lambda>_. False, Rules e) of
        None \<Rightarrow> None
      | Some (err, _, rules) \<Rightarrow> Some (err, e\<lparr>Rules := rules\<rparr>))"

section \<open>What compilation produces\<close>

text \<open>A compiled map, action or rule is the source one with every expression replaced by its
  program; the relators of the datatypes say so pointwise.\<close>

abbreviation compiles_to :: "(string \<Rightarrow> 'e + 'p) \<Rightarrow> string \<Rightarrow> 'p \<Rightarrow> bool" where
  "compiles_to compile s p \<equiv> compile s = Inr p"

lemma compileCapabilityValue_iff:
  "compileCapabilityValue compile c = Inr r \<longleftrightarrow>
     list_all2 (rel_prod (=) (compiles_to compile)) c r"
  unfolding compileCapabilityValue_def mapM_kv_Inr_iff
  by (rule arg_cong [where f = "\<lambda>R. list_all2 R c r"]) (auto simp: fun_eq_iff split: sum.splits)

lemma compileActionParameters_iff:
  "compileActionParameters compile m = Inr r \<longleftrightarrow>
     list_all2 (rel_prod (=) (list_all2 (rel_prod (=) (compiles_to compile)))) m r"
  unfolding compileActionParameters_def mapM_kv_Inr_iff
  by (rule arg_cong [where f = "\<lambda>R. list_all2 R m r"])
     (auto simp: fun_eq_iff compileCapabilityValue_iff [symmetric] split: sum.splits)

lemma compileActions_iff:
  "compileActions compile a = Inr r \<longleftrightarrow> rel_Actions (compiles_to compile) a r"
proof -
  obtain ad rm where a: "a = Actions (Capabilities ad rm)"
    by (metis Actions.exhaust Capabilities.exhaust)
  obtain ad' rm' where r: "r = Actions (Capabilities ad' rm')"
    by (metis Actions.exhaust Capabilities.exhaust)
  show ?thesis
    by (auto simp: a r compileActions_def compileActionParameters_iff [symmetric]
        split: sum.splits)
qed

lemma compileRules_iff:
  "compileRules compile rs = Inr crs \<longleftrightarrow> list_all2 (rel_Rule (compiles_to compile)) rs crs"
proof (induction compile rs arbitrary: crs rule: compileRules.induct)
  case (1 compile)
  then show ?case by auto
next
  case (2 compile d f a ch rules)
  show ?case
  proof (cases crs)
    case Nil
    then show ?thesis by (auto split: sum.splits)
  next
    case (Cons c crs')
    obtain d' f' a' ch' where c: "c = Rule d' f' a' ch'" by (cases c)
    show ?thesis
    proof (cases "compile f = Inr f' \<and> compileRules compile ch = Inr ch' \<and> compileActions compile a = Inr a'")
      case True
      then have "(compileRules compile rules = Inr crs') = list_all2 (rel_Rule (compiles_to compile)) rules crs'"
        using "2.IH"(2) by blast
      with True "2.IH"(1) show ?thesis
        by (auto simp: Cons c compileActions_iff [symmetric] split: sum.splits)
    next
      case False
      then show ?thesis
        using "2.IH"(1) by (auto simp: Cons c compileActions_iff [symmetric] split: sum.splits)
    qed
  qed
qed

section \<open>Dependency order\<close>

text \<open>The dependency relation of the loaded rule sets, and what \<open>CompileRules\<close> needs of
  them: every dependency is loaded, no rule set depends on itself through others, and every
  expression compiles.\<close>

definition depends :: "(string, RuleSet) gomap \<Rightarrow> (string \<times> string) set" where
  "depends sets = {(a, b). \<exists>rs. map_of sets a = Some rs \<and> b \<in> set (DependsOn rs)}"

definition resolvable :: "(string \<Rightarrow> 'e + 'p) \<Rightarrow> (string, RuleSet) gomap \<Rightarrow> bool" where
  "resolvable compile sets \<longleftrightarrow>
     (\<forall>(a, b) \<in> depends sets. b \<in> keys sets) \<and> acyclic (depends sets) \<and>
     (\<forall>(k, rs) \<in> set sets. \<exists>cr. compileRules compile (RuleSetRules rs) = Inr cr)"

text \<open>Every rule set is filed under its own name, as \<open>LoadReader\<close> does.\<close>

definition wf_sets :: "(string, RuleSet) gomap \<Rightarrow> bool" where
  "wf_sets sets \<longleftrightarrow> wf_map sets \<and> (\<forall>(k, rs) \<in> set sets. Name rs = k)"

lemma wf_sets_iff:
  "wf_sets sets \<longleftrightarrow> wf_map sets \<and> (\<forall>k rs. map_of sets k = Some rs \<longrightarrow> Name rs = k)"
  unfolding wf_sets_def by (auto dest: map_of_SomeD)

lemma wf_sets_Name: "wf_sets sets \<Longrightarrow> map_of sets k = Some rs \<Longrightarrow> Name rs = k"
  by (simp add: wf_sets_iff)

lemma wf_sets_update: "wf_sets sets \<Longrightarrow> wf_sets (AList.update (Name rs) rs sets)"
  by (simp add: wf_sets_iff)

text \<open>A duplicate-free order in which every rule set comes after all it depends on.\<close>

definition dependency_order :: "(string, RuleSet) gomap \<Rightarrow> string list \<Rightarrow> bool" where
  "dependency_order sets ord \<longleftrightarrow>
     distinct ord \<and>
     (\<forall>xs k ys. ord = xs @ k # ys \<longrightarrow> (\<forall>d. (k, d) \<in> depends sets \<longrightarrow> d \<in> set xs))"

lemma dependency_order_Nil [simp]: "dependency_order sets []"
  by (simp add: dependency_order_def)

lemma dependency_order_snoc:
  assumes "dependency_order sets ord" "k \<notin> set ord" "\<And>d. (k, d) \<in> depends sets \<Longrightarrow> d \<in> set ord"
  shows "dependency_order sets (ord @ [k])"
  unfolding dependency_order_def
proof (intro conjI allI impI)
  show "distinct (ord @ [k])" using assms by (simp add: dependency_order_def)
next
  fix xs j ys d
  assume "ord @ [k] = xs @ j # ys" and d: "(j, d) \<in> depends sets"
  then consider "ys = []" "xs = ord" "j = k" | zs where "ord = xs @ j # zs"
    by (metis append_butlast_last_id append_is_Nil_conv butlast.simps(2) butlast_append
        last.simps last_appendR list.distinct(1) butlast_snoc last_snoc)
  then show "d \<in> set xs"
    using assms d by cases (auto simp: dependency_order_def)
qed

text \<open>The rules one rule set contributes.\<close>

definition compiledSet ::
  "(string \<Rightarrow> 'e + 'p) \<Rightarrow> (string, RuleSet) gomap \<Rightarrow> string \<Rightarrow> 'p CompiledRule list" where
  "compiledSet compile sets k =
     (case map_of sets k of
        None \<Rightarrow> []
      | Some rs \<Rightarrow> (case compileRules compile (RuleSetRules rs) of Inl _ \<Rightarrow> [] | Inr cr \<Rightarrow> cr))"

text \<open>The invariant of the recursion: the state is that of having compiled exactly the rule
  sets of \<open>ord\<close>, in that order, on top of the rules \<open>rules0\<close> the engine had.\<close>

definition loaded ::
  "(string \<Rightarrow> 'e + 'p) \<Rightarrow> (string, RuleSet) gomap \<Rightarrow> 'p CompiledRule list \<Rightarrow> string list
    \<Rightarrow> 'p loadState \<Rightarrow> bool" where
  "loaded compile sets rules0 ord st \<longleftrightarrow>
     dependency_order sets ord \<and> (\<forall>k. fst st k \<longleftrightarrow> k \<in> set ord) \<and>
     snd st = rules0 @ concat (map (compiledSet compile sets) ord) \<and>
     (\<forall>k \<in> set ord. \<exists>rs cr. map_of sets k = Some rs \<and> compileRules compile (RuleSetRules rs) = Inr cr)"

lemma loaded_snoc:
  assumes "loaded compile sets rules0 ord (al, rules)" "map_of sets k = Some rs"
    "set (DependsOn rs) \<subseteq> set ord" "k \<notin> set ord" "compileRules compile (RuleSetRules rs) = Inr cr"
  shows "loaded compile sets rules0 (ord @ [k]) (al(k := True), rules @ cr)"
  using assms unfolding loaded_def
  by (auto intro!: dependency_order_snoc simp: compiledSet_def depends_def)

end
