(* ===== verification/Rules_Order.thy ===== *)
theory Rules_Order
  imports Rules_Engine
begin

text \<open>
  \<open>CompileRules\<close> resolves dependencies: with enough fuel it returns, it succeeds exactly
  when the dependencies are complete and acyclic and every expression compiles, and then
  the engine's rules are those of every rule set, once each, dependencies first.
\<close>

lemmas compile_induct = compileRuleSet_compileDependencies.induct

section \<open>Enough fuel\<close>

lemma trail_bound: "distinct trail \<Longrightarrow> set trail \<subseteq> keys sets \<Longrightarrow> length trail \<le> length sets"
  by (metis card_length card_mono distinct_card finite_imageI finite_set image_set le_trans length_map)

lemma compile_fuel:
  "wf_sets sets \<Longrightarrow> distinct trail \<Longrightarrow> set trail \<subseteq> keys sets \<Longrightarrow> name \<notin> set trail \<Longrightarrow>
     length sets < n + length trail \<Longrightarrow>
     \<exists>r. compileRuleSet n compile sets trail name st = Some r"
  "wf_sets sets \<Longrightarrow> distinct trail \<Longrightarrow> set trail \<subseteq> keys sets \<Longrightarrow>
     length sets < n + length trail \<Longrightarrow>
     \<exists>r. compileDependencies n compile sets trail ks st = Some r"
proof (induction n compile sets trail name st and n compile sets trail ks st rule: compile_induct)
  case (1 compile sets trail name st)
  then show ?case using trail_bound [of trail sets] by simp
next
  case (2 n compile sets trail name st)
  show ?case
  proof (cases "map_of sets name")
    case (Some rs)
    have "Name rs = name" using "2.prems"(1) Some by (rule wf_sets_Name)
    with 2 Some have "\<exists>r. compileDependencies n compile sets (trail @ [Name rs]) (DependsOn rs) st = Some r"
      by (intro "2.IH") (auto dest: map_of_SomeD_keys)
    with Some show ?thesis by (auto split: option.splits sum.splits)
  qed simp
next
  case (4 n compile sets trail k ks st)
  show ?case
  proof (cases "k \<in> set trail \<or> fst st k")
    case False
    with 4 obtain err st' where r: "compileRuleSet n compile sets trail k st = Some (err, st')"
      by auto
    show ?thesis
    proof (cases err)
      case None
      with 4 r False show ?thesis by auto
    qed (use r False in auto)
  qed (use 4 in auto)
qed simp

section \<open>What has been compiled\<close>

lemma compile_loaded:
  "compileRuleSet n compile sets trail name st = Some (err, st') \<Longrightarrow> wf_sets sets \<Longrightarrow>
     loaded compile sets rules0 ord st \<Longrightarrow> set trail \<inter> set ord = {} \<Longrightarrow>
     name \<notin> set trail \<Longrightarrow> name \<notin> set ord \<Longrightarrow>
     \<exists>ext. loaded compile sets rules0 (ord @ ext) st' \<and> set ext \<inter> set trail = {} \<and>
           (err = None \<longrightarrow> name \<in> set ext)"
  "compileDependencies n compile sets trail ks st = Some (err, st') \<Longrightarrow> wf_sets sets \<Longrightarrow>
     loaded compile sets rules0 ord st \<Longrightarrow> set trail \<inter> set ord = {} \<Longrightarrow>
     \<exists>ext. loaded compile sets rules0 (ord @ ext) st' \<and> set ext \<inter> set trail = {} \<and>
           (err = None \<longrightarrow> set ks \<subseteq> set (ord @ ext))"
proof (induction n compile sets trail name st and n compile sets trail ks st
    arbitrary: err st' ord and err st' ord rule: compile_induct)
  case (1 compile sets trail name st)
  then show ?case by simp
next
  case (2 n compile sets trail name st)
  show ?case
  proof (cases "map_of sets name")
    case None
    with 2 show ?thesis by (intro exI [of _ "[]"]) auto
  next
    case (Some rs)
    have name: "Name rs = name" using "2.prems"(2) Some by (rule wf_sets_Name)
    from "2.prems"(1) Some obtain derr al rules where
      d: "compileDependencies n compile sets (trail @ [Name rs]) (DependsOn rs) st
          = Some (derr, al, rules)"
      by (auto split: option.splits)
    from "2.IH" [OF Some d "2.prems"(2,3)] "2.prems"(4-6) name obtain ext where
      ext: "loaded compile sets rules0 (ord @ ext) (al, rules)" "set ext \<inter> set trail = {}"
        "name \<notin> set ext" "derr = None \<longrightarrow> set (DependsOn rs) \<subseteq> set (ord @ ext)"
      by auto
    show ?thesis
    proof (cases "derr = None \<and> (\<exists>cr. compileRules compile (RuleSetRules rs) = Inr cr)")
      case True
      then obtain cr where cr: "compileRules compile (RuleSetRules rs) = Inr cr" by auto
      have "loaded compile sets rules0 ((ord @ ext) @ [name]) (al(name := True), rules @ cr)"
        using ext True "2.prems"(6) cr Some by (intro loaded_snoc [of compile sets rules0 _ al rules name rs cr]) auto
      with "2.prems" Some d True cr ext show ?thesis
        by (intro exI [of _ "ext @ [name]"]) auto
    next
      case False
      with "2.prems"(1) Some d have "err \<noteq> None" "st' = (al, rules)"
        by (auto split: option.splits sum.splits)
      with ext show ?thesis by (intro exI [of _ ext]) auto
    qed
  qed
next
  case (3 n compile sets trail st)
  then show ?case by (intro exI [of _ "[]"]) auto
next
  case (4 n compile sets trail k ks st)
  consider "k \<in> set trail" | "k \<notin> set trail" "fst st k" | "k \<notin> set trail" "\<not> fst st k" by blast
  then show ?case
  proof cases
    case 1
    with "4.prems" show ?thesis by (intro exI [of _ "[]"]) auto
  next
    case 2
    from 2 "4.prems"(3) have "k \<in> set ord" by (simp add: loaded_def)
    from 2 "4.prems"(1) have d: "compileDependencies n compile sets trail ks st = Some (err, st')" by simp
    have "\<not> (\<not> fst st k)" using 2 by simp
    from "4.IH"(3) [OF 2(1) this d "4.prems"(2-4)] \<open>k \<in> set ord\<close> show ?thesis by auto
  next
    case 3
    from 3 "4.prems"(3) have k: "k \<notin> set ord" by (simp add: loaded_def)
    from 3 "4.prems"(1) obtain kerr kst where
      r: "compileRuleSet n compile sets trail k st = Some (kerr, kst)"
      by (auto split: option.splits)
    from "4.IH"(1) [OF 3 r "4.prems"(2-4) 3(1) k] obtain ext where
      ext: "loaded compile sets rules0 (ord @ ext) kst" "set ext \<inter> set trail = {}"
        "kerr = None \<longrightarrow> k \<in> set ext" by blast
    show ?thesis
    proof (cases kerr)
      case (Some e)
      with "4.prems"(1) 3 r ext show ?thesis by (intro exI [of _ ext]) auto
    next
      case None
      with 3 "4.prems"(1) r have d: "compileDependencies n compile sets trail ks kst = Some (err, st')"
        by simp
      from ext(2) "4.prems"(4) have "set trail \<inter> set (ord @ ext) = {}" by auto
      from "4.IH"(2) [OF 3 r _ None d "4.prems"(2) ext(1) this] obtain ext' where
        "loaded compile sets rules0 ((ord @ ext) @ ext') st'" "set ext' \<inter> set trail = {}"
        "err = None \<longrightarrow> set ks \<subseteq> set ((ord @ ext) @ ext')" by blast
      with ext None show ?thesis by (intro exI [of _ "ext @ ext'"]) auto
    qed
  qed
qed

section \<open>When no error is returned\<close>

lemma resolvable_compiles:
  "resolvable compile sets \<Longrightarrow> map_of sets k = Some rs \<Longrightarrow>
     \<exists>cr. compileRules compile (RuleSetRules rs) = Inr cr"
  unfolding resolvable_def by (auto dest: map_of_SomeD)

lemma compile_no_error:
  "compileRuleSet n compile sets trail name st = Some (err, st') \<Longrightarrow> wf_sets sets \<Longrightarrow>
     resolvable compile sets \<Longrightarrow> name \<in> keys sets \<Longrightarrow>
     \<forall>t \<in> set trail. (t, name) \<in> (depends sets)\<^sup>+ \<Longrightarrow> err = None"
  "compileDependencies n compile sets trail ks st = Some (err, st') \<Longrightarrow> wf_sets sets \<Longrightarrow>
     resolvable compile sets \<Longrightarrow>
     \<forall>k \<in> set ks. k \<in> keys sets \<and> (\<forall>t \<in> set trail. (t, k) \<in> (depends sets)\<^sup>+) \<Longrightarrow> err = None"
proof (induction n compile sets trail name st and n compile sets trail ks st
    arbitrary: err st' and err st' rule: compile_induct)
  case (1 compile sets trail name st)
  then show ?case by simp
next
  case (2 n compile sets trail name st)
  from "2.prems"(4) obtain rs where rs: "map_of sets name = Some rs" by (rule keys_obtain)
  have name: "Name rs = name" using "2.prems"(2) rs by (rule wf_sets_Name)
  obtain cr where cr: "compileRules compile (RuleSetRules rs) = Inr cr"
    using resolvable_compiles [OF "2.prems"(3) rs] by auto
  have dep: "(name, k) \<in> depends sets" if "k \<in> set (DependsOn rs)" for k
    using that rs by (auto simp: depends_def)
  have ks: "\<forall>k \<in> set (DependsOn rs). k \<in> keys sets \<and>
      (\<forall>t \<in> set (trail @ [Name rs]). (t, k) \<in> (depends sets)\<^sup>+)"
  proof
    fix k assume k: "k \<in> set (DependsOn rs)"
    have "k \<in> keys sets" using dep [OF k] "2.prems"(3) unfolding resolvable_def by auto
    moreover have "(t, k) \<in> (depends sets)\<^sup>+" if "t \<in> set trail" for t
      using that "2.prems"(5) dep [OF k] by (meson trancl.trancl_into_trancl)
    ultimately show "k \<in> keys sets \<and> (\<forall>t \<in> set (trail @ [Name rs]). (t, k) \<in> (depends sets)\<^sup>+)"
      using dep [OF k] name by auto
  qed
  from "2.prems"(1) rs obtain derr dst where
    d: "compileDependencies n compile sets (trail @ [Name rs]) (DependsOn rs) st = Some (derr, dst)"
    by (auto split: option.splits)
  have "derr = None" by (rule "2.IH" [OF rs d "2.prems"(2,3) ks])
  with "2.prems"(1) rs d cr show ?case by (auto split: prod.splits)
next
  case (3 n compile sets trail st)
  then show ?case by simp
next
  case (4 n compile sets trail k ks st)
  have k: "k \<notin> set trail"
    using "4.prems"(3,4) unfolding resolvable_def acyclic_def by auto
  show ?case
  proof (cases "fst st k")
    case True
    then have "\<not> \<not> fst st k" by simp
    with "4.IH"(3) [OF k this _ "4.prems"(2,3)] "4.prems"(1,4) k True show ?thesis by auto
  next
    case False
    with k "4.prems"(1) obtain kerr kst where
      r: "compileRuleSet n compile sets trail k st = Some (kerr, kst)"
      by (auto split: option.splits)
    have "kerr = None"
      using "4.IH"(1) [OF k False r "4.prems"(2,3)] "4.prems"(4) by auto
    with "4.IH"(2) [OF k False r _ _ _ "4.prems"(2,3)] "4.prems"(1,4) k False r show ?thesis
      by auto
  qed
qed

section \<open>The loop over all rule sets\<close>

lemma compileAll_fuel:
  "wf_sets sets \<Longrightarrow> length sets < n \<Longrightarrow> \<exists>r. compileAll n compile sets ks st = Some r"
proof (induction n compile sets ks st rule: compileAll.induct)
  case (2 n compile sets k ks st)
  obtain err st' where r: "compileRuleSet n compile sets [] k st = Some (err, st')"
    using compile_fuel(1) [of sets "[]" k n compile st] "2.prems" by auto
  with 2 show ?case by (cases "fst st k"; cases err) auto
qed simp

lemma compileAll_loaded:
  "compileAll n compile sets ks st = Some (err, st') \<Longrightarrow> wf_sets sets \<Longrightarrow>
     loaded compile sets rules0 ord st \<Longrightarrow>
     \<exists>ext. loaded compile sets rules0 (ord @ ext) st' \<and> (err = None \<longrightarrow> set ks \<subseteq> set (ord @ ext))"
proof (induction n compile sets ks st arbitrary: ord rule: compileAll.induct)
  case (1 n compile sets st)
  then show ?case by (intro exI [of _ "[]"]) auto
next
  case (2 n compile sets k ks st)
  show ?case
  proof (cases "fst st k")
    case True
    then have "k \<in> set ord" using "2.prems"(3) by (simp add: loaded_def)
    moreover from True have "\<not> \<not> fst st k" by simp
    ultimately show ?thesis using "2.IH"(2) [OF _ _ "2.prems"(2,3)] "2.prems"(1) True by auto
  next
    case False
    then have k: "k \<notin> set ord" using "2.prems"(3) by (simp add: loaded_def)
    from False "2.prems"(1) obtain kerr kst where
      r: "compileRuleSet n compile sets [] k st = Some (kerr, kst)" by (auto split: option.splits)
    from compile_loaded(1) [OF r "2.prems"(2,3) _ _ k] obtain ext where
      ext: "loaded compile sets rules0 (ord @ ext) kst" "kerr = None \<longrightarrow> k \<in> set ext" by auto
    show ?thesis
    proof (cases kerr)
      case (Some e)
      with "2.prems"(1) False r ext show ?thesis by auto
    next
      case None
      with "2.prems"(1) False r have "compileAll n compile sets ks kst = Some (err, st')" by simp
      from "2.IH"(1) [OF False r _ None this "2.prems"(2) ext(1)] obtain ext' where
        "loaded compile sets rules0 ((ord @ ext) @ ext') st'"
        "err = None \<longrightarrow> set ks \<subseteq> set ((ord @ ext) @ ext')" by blast
      with ext None show ?thesis by (intro exI [of _ "ext @ ext'"]) auto
    qed
  qed
qed

lemma compileAll_no_error:
  "compileAll n compile sets ks st = Some (err, st') \<Longrightarrow> wf_sets sets \<Longrightarrow>
     resolvable compile sets \<Longrightarrow> set ks \<subseteq> keys sets \<Longrightarrow> err = None"
proof (induction n compile sets ks st rule: compileAll.induct)
  case (2 n compile sets k ks st)
  show ?case
  proof (cases "fst st k")
    case False
    with "2.prems"(1) obtain kerr kst where
      r: "compileRuleSet n compile sets [] k st = Some (kerr, kst)" by (auto split: option.splits)
    have "kerr = None" using compile_no_error(1) [OF r] "2.prems" by simp
    with 2 False r show ?thesis by auto
  qed (use 2 in auto)
qed simp

lemma loaded_start: "loaded compile sets rules0 [] (\<lambda>_. False, rules0)"
  by (simp add: loaded_def)

lemma dependency_order_index:
  assumes "dependency_order sets ord" "(a, b) \<in> depends sets" "a \<in> set ord"
  shows "\<exists>j i. j < i \<and> i < length ord \<and> ord ! i = a \<and> ord ! j = b"
proof -
  from assms(3) obtain xs ys where ord: "ord = xs @ a # ys" by (auto simp: in_set_conv_decomp)
  with assms have "b \<in> set xs" by (auto simp: dependency_order_def)
  then obtain j where "j < length xs" "xs ! j = b" by (auto simp: in_set_conv_nth)
  with ord show ?thesis by (intro exI [of _ j] exI [of _ "length xs"]) (auto simp: nth_append)
qed

lemma dependency_order_closed:
  "dependency_order sets ord \<Longrightarrow> (a, b) \<in> depends sets \<Longrightarrow> a \<in> set ord \<Longrightarrow> b \<in> set ord"
  by (auto dest!: dependency_order_index [of sets ord a b])

lemma dependency_order_acyclic:
  assumes "dependency_order sets ord" "\<And>a b. (a, b) \<in> depends sets \<Longrightarrow> a \<in> set ord"
  shows "acyclic (depends sets)"
proof -
  have dist: "distinct ord" using assms(1) by (simp add: dependency_order_def)
  have step: "\<exists>j i. j < i \<and> i < length ord \<and> ord ! i = a \<and> ord ! j = b"
    if "(a, b) \<in> (depends sets)\<^sup>+" for a b
    using that
  proof (induction rule: trancl_induct)
    case (base b)
    then show ?case using assms by (intro dependency_order_index) auto
  next
    case (step b c)
    obtain k l where "k < l" "l < length ord" "ord ! l = b" "ord ! k = c"
      using dependency_order_index [OF assms(1) step.hyps(2) assms(2) [OF step.hyps(2)]] by blast
    moreover from step.IH obtain j i where "j < i" "i < length ord" "ord ! i = a" "ord ! j = b"
      by blast
    ultimately have "j = l" using dist by (metis nth_eq_iff_index_eq order.strict_trans)
    with \<open>k < l\<close> \<open>j < i\<close> \<open>i < length ord\<close> \<open>ord ! i = a\<close> \<open>ord ! k = c\<close> show ?case
      by (intro exI [of _ k] exI [of _ i]) auto
  qed
  show ?thesis
    unfolding acyclic_def using step dist
    by (metis nat_neq_iff nth_eq_iff_index_eq order.strict_trans)
qed

section \<open>Independence of map order\<close>

text \<open>The recursion reads the rule sets by lookup only, and the outer loop visits the names
  in sorted order, so the iteration order of Go's map does not show.\<close>

lemma compile_cong:
  "map_of sets = map_of sets' \<Longrightarrow>
     compileRuleSet n compile sets trail name st = compileRuleSet n compile sets' trail name st"
  "map_of sets = map_of sets' \<Longrightarrow>
     compileDependencies n compile sets trail ks st = compileDependencies n compile sets' trail ks st"
proof (induction n compile sets trail name st and n compile sets trail ks st rule: compile_induct)
  case (2 n compile sets trail name st)
  then show ?case by (simp split: option.split)
next
  case (4 n compile sets trail k ks st)
  have r: "compileRuleSet n compile sets' trail k st = compileRuleSet n compile sets trail k st"
    if "k \<notin> set trail" "\<not> fst st k" using "4.IH"(1) that "4.prems" by simp
  have d: "compileDependencies n compile sets' trail ks st' = compileDependencies n compile sets trail ks st'"
    if "k \<notin> set trail" "\<not> fst st k" "compileRuleSet n compile sets trail k st = Some (None, st')" for st'
    using "4.IH"(2) [OF that refl refl] "4.prems" by simp
  show ?case
  proof (cases "k \<in> set trail \<or> fst st k")
    case False
    then show ?thesis using r d by (auto split: option.split prod.split)
  qed (use 4 in auto)
qed auto

lemma compileAll_cong:
  assumes "map_of sets = map_of sets'"
  shows "compileAll n compile sets ks st = compileAll n compile sets' ks st"
  by (induction ks arbitrary: st)
     (auto simp: compile_cong(1) [OF assms] split: option.split)

lemma sort_keys_eq:
  assumes "wf_map m" "wf_map m'" "set m = set m'"
  shows "sort (map fst m) = sort (map fst (m' :: (string, 'v) gomap))"
proof (rule sorted_distinct_set_unique)
  show "set (sort (map fst m)) = set (sort (map fst m'))" using assms(3) by simp
qed (use assms(1,2) in \<open>simp_all add: wf_map_def\<close>)

section \<open>The properties\<close>

text \<open>C6: \<open>CompileRules\<close> returns (its recursion is bounded by the number of rule sets), and it
  returns without an error exactly when every dependency is loaded, no rule set depends on
  itself through others, and every expression of every rule set compiles. The loaded rule
  sets themselves are never changed.\<close>

theorem CompileRules_error_iff:
  assumes "wf_sets (RuleSets e)" "length (RuleSets e) < n"
  shows "\<exists>err e'. CompileRules n compile e = Some (err, e') \<and> RuleSets e' = RuleSets e \<and>
           (err = None \<longleftrightarrow> resolvable compile (RuleSets e))"
proof -
  let ?ks = "sort (map fst (RuleSets e))"
  obtain err al rules where
    r: "compileAll n compile (RuleSets e) ?ks (\<lambda>_. False, Rules e) = Some (err, al, rules)"
    using compileAll_fuel [OF assms, of compile ?ks "(\<lambda>_. False, Rules e)"] by auto
  have "resolvable compile (RuleSets e)" if none: "err = None"
  proof -
    from compileAll_loaded [OF r assms(1) loaded_start] none obtain ord where
      ord: "loaded compile (RuleSets e) (Rules e) ord (al, rules)" "keys (RuleSets e) \<subseteq> set ord"
      by auto
    have src: "a \<in> set ord" if "(a, b) \<in> depends (RuleSets e)" for a b
      using that ord(2) by (auto simp: depends_def dest: map_of_SomeD_keys)
    have dord: "dependency_order (RuleSets e) ord" using ord(1) by (simp add: loaded_def)
    have dom: "set ord \<subseteq> keys (RuleSets e)"
      using ord(1) unfolding loaded_def by (auto dest: map_of_SomeD_keys)
    have "\<exists>cr. compileRules compile (RuleSetRules rs) = Inr cr" if "(k, rs) \<in> set (RuleSets e)" for k rs
    proof -
      have "map_of (RuleSets e) k = Some rs" using that assms(1) by (simp add: wf_sets_def)
      moreover have "k \<in> set ord" using that ord(2) by force
      ultimately show ?thesis using ord(1) unfolding loaded_def by auto
    qed
    moreover have "acyclic (depends (RuleSets e))"
      by (rule dependency_order_acyclic [OF dord]) (rule src)
    moreover have "b \<in> keys (RuleSets e)" if "(a, b) \<in> depends (RuleSets e)" for a b
      using dependency_order_closed [OF dord that src [OF that]] dom by auto
    ultimately show ?thesis unfolding resolvable_def by auto
  qed
  moreover have "err = None" if "resolvable compile (RuleSets e)"
    by (rule compileAll_no_error [OF r assms(1) that]) simp
  ultimately show ?thesis using r by (auto simp: CompileRules_def)
qed

text \<open>C7: whatever \<open>CompileRules\<close> returns, the engine then holds the rules it had before,
  followed by those of whole rule sets, each at most once and each after everything it
  depends on; when it returns no error these are all the rule sets.\<close>

theorem CompileRules_dependency_order:
  assumes "wf_sets (RuleSets e)" "CompileRules n compile e = Some (err, e')"
  shows "\<exists>ord. dependency_order (RuleSets e) ord \<and>
           Rules e' = Rules e @ concat (map (compiledSet compile (RuleSets e)) ord) \<and>
           set ord \<subseteq> keys (RuleSets e) \<and> (err = None \<longrightarrow> set ord = keys (RuleSets e))"
proof -
  let ?ks = "sort (map fst (RuleSets e))"
  from assms(2) obtain al where
    r: "compileAll n compile (RuleSets e) ?ks (\<lambda>_. False, Rules e) = Some (err, al, Rules e')"
    by (auto simp: CompileRules_def split: option.splits)
  from compileAll_loaded [OF r assms(1) loaded_start] obtain ord where
    ord: "loaded compile (RuleSets e) (Rules e) ord (al, Rules e')"
      "err = None \<longrightarrow> keys (RuleSets e) \<subseteq> set ord" by auto
  have "set ord \<subseteq> keys (RuleSets e)"
    using ord(1) unfolding loaded_def by (auto dest: map_of_SomeD_keys)
  with ord show ?thesis unfolding loaded_def by auto
qed

text \<open>The outcome of \<open>CompileRules\<close>, error and compiled rules alike, does not depend on
  the iteration order of the map of rule sets.\<close>

theorem CompileRules_order_independent:
  assumes "wf_map (RuleSets e)" "wf_map sets'" "set (RuleSets e) = set sets'"
  shows "CompileRules n compile (e\<lparr>RuleSets := sets'\<rparr>) =
           map_option (\<lambda>(err, e'). (err, e'\<lparr>RuleSets := sets'\<rparr>)) (CompileRules n compile e)"
proof -
  have "map_of (RuleSets e) = map_of sets'" using assms by (rule map_of_perm)
  moreover have "sort (map fst (RuleSets e)) = sort (map fst sets')" using assms by (rule sort_keys_eq)
  ultimately show ?thesis
    by (auto simp: CompileRules_def compileAll_cong [of "RuleSets e" sets'] split: option.split)
qed

section \<open>Witnesses\<close>

text \<open>Two rule sets named as the shipped ones, the second depending on the first; every text
  but the empty one compiles, to itself.\<close>

definition exampleCompile :: "string \<Rightarrow> unit + string" where
  "exampleCompile s = (if s = [] then Inl () else Inr s)"

definition exampleEngine :: "string Engine" where
  "exampleEngine = \<lparr>RuleSets =
     [(''zcl'', \<lparr>Name = ''zcl'', DependsOn = [''generic''],
        RuleSetRules = [Rule ''z'' ''f'' (Actions (Capabilities [(''ZCLIdentify'', [])] [])) []]\<rparr>),
      (''generic'', \<lparr>Name = ''generic'', DependsOn = [],
        RuleSetRules = [Rule ''g'' ''h'' (Actions (Capabilities [] [])) []]\<rparr>)],
     Rules = []\<rparr>"

lemma exampleEngine_wf: "wf_sets (RuleSets exampleEngine)"
  by (simp add: exampleEngine_def wf_sets_def)

lemma exampleEngine_compiles:
  "CompileRules 3 exampleCompile exampleEngine =
     Some (None, exampleEngine\<lparr>Rules :=
       [Rule ''g'' ''h'' (Actions (Capabilities [] [])) [],
        Rule ''z'' ''f'' (Actions (Capabilities [(''ZCLIdentify'', [])] [])) []]\<rparr>)"
  by code_simp

theorem CompileRules_error_iff_witness:
  "resolvable exampleCompile (RuleSets exampleEngine)"
proof -
  have "length (RuleSets exampleEngine) < 3" by (simp add: exampleEngine_def)
  from CompileRules_error_iff [OF exampleEngine_wf this, of exampleCompile] show ?thesis
    by (auto simp: exampleEngine_compiles)
qed

theorem CompileRules_dependency_order_witness:
  "\<exists>ord. dependency_order (RuleSets exampleEngine) ord \<and> set ord = {''zcl'', ''generic''}"
proof -
  from CompileRules_dependency_order [OF exampleEngine_wf exampleEngine_compiles]
  show ?thesis by (auto simp: exampleEngine_def)
qed

theorem CompileRules_order_independent_witness:
  "CompileRules 3 exampleCompile (exampleEngine\<lparr>RuleSets := rev (RuleSets exampleEngine)\<rparr>) \<noteq> None"
proof -
  have "wf_map (RuleSets exampleEngine)" "wf_map (rev (RuleSets exampleEngine))"
    by (simp_all add: exampleEngine_def)
  from CompileRules_order_independent [OF this, of 3 exampleCompile] show ?thesis
    by (simp add: exampleEngine_compiles)
qed

end
