(* ===== verification/Rules_Execute.thy ===== *)
theory Rules_Execute
  imports Rules_Engine
begin

text \<open>
  The rules engine, execution side: \<open>Execute\<close> and \<open>executeRule\<close> of \<open>rules/engine.go\<close>
  and the input object rules are evaluated on. The evaluator (\<open>expr.Run\<close>) is not part of
  the repository: it is the argument \<open>run\<close>, from a program and an input to an error or a
  value.
\<close>

section \<open>Values and inputs\<close>

text \<open>Go's \<open>any\<close>, with one constructor per dynamic type the code asserts or converts to;
  \<open>AnyOther\<close> stands for the values of every other type.\<close>

datatype any =
    AnyBool bool
  | AnyString string
  | AnyInt int
  | AnyEndpoint "8 word"
  | AnyClusterID "16 word"
  | AnyAttributeID "16 word"
  | AnyNil
  | AnyOther nat

record InputProductData =
  ProductName :: string
  Manufacturer :: string
  Version :: string
  Serial :: string

record InputNode =
  InputManufacturerCode :: int
  NodeType :: string

record InputEndpoint =
  EndpointID :: int
  InputProfileID :: int
  InputDeviceID :: int
  InClusters :: "int list"
  OutClusters :: "int list"

record Input =
  Node :: InputNode
  Self :: int
  Product :: "(int, InputProductData) gomap"
  Endpoint :: "(int, InputEndpoint) gomap"

text \<open>The conversions \<open>Fn\<close> gives to expressions wrap around at the width of the target.\<close>

definition Fn_Endpoint :: "int \<Rightarrow> 8 word" where
  "Fn_Endpoint e = word_of_int e"

definition Fn_ClusterID :: "int \<Rightarrow> 16 word" where
  "Fn_ClusterID c = word_of_int c"

definition Fn_AttributeID :: "int \<Rightarrow> 16 word" where
  "Fn_AttributeID a = word_of_int a"

type_synonym Settings = "(string, any) gomap"

record Output =
  OutputCapabilities :: "(string, Settings) gomap"

datatype 'e ExecError =
    FilterExecution string 'e
  | NonBoolean string
  | ValueErrored string string 'e
  | ChildError string "'e ExecError"

section \<open>Executing rules\<close>

text \<open>\<open>ValueErrored\<close> holds the two strings in the order the message prints them: the text
  says "rule \<open>%s\<close>: value \<open>%s\<close>", and the code passes the value's name first.\<close>

definition evaluateValues ::
  "('p \<Rightarrow> Input \<Rightarrow> 'e + any) \<Rightarrow> Input \<Rightarrow> string \<Rightarrow> 'p CapabilityValues \<Rightarrow> 'e ExecError + Settings" where
  "evaluateValues run i description v =
     mapM_kv (\<lambda>valueName valueProgram.
        case run valueProgram i of
          Inl e \<Rightarrow> Inl (ValueErrored valueName description e)
        | Inr out \<Rightarrow> Inr out) v"

fun addCapabilities ::
  "('p \<Rightarrow> Input \<Rightarrow> 'e + any) \<Rightarrow> Input \<Rightarrow> string \<Rightarrow> (string, 'p CapabilityValues) gomap \<Rightarrow> Output
    \<Rightarrow> 'e ExecError option \<times> Output" where
  "addCapabilities run i description [] out = (None, out)"
| "addCapabilities run i description ((k, v) # m) out =
     (case evaluateValues run i description v of
        Inl e \<Rightarrow> (Some e, out)
      | Inr values \<Rightarrow>
          addCapabilities run i description m
            (out\<lparr>OutputCapabilities := AList.update k values (OutputCapabilities out)\<rparr>))"

definition removeCapabilities :: "string list \<Rightarrow> Output \<Rightarrow> Output" where
  "removeCapabilities ks out =
     out\<lparr>OutputCapabilities := fold AList.delete ks (OutputCapabilities out)\<rparr>"

fun executeRule ::
  "('p \<Rightarrow> Input \<Rightarrow> 'e + any) \<Rightarrow> Input \<Rightarrow> 'p CompiledRule \<Rightarrow> Output \<Rightarrow> 'e ExecError option \<times> Output"
and executeRules ::
  "('p \<Rightarrow> Input \<Rightarrow> 'e + any) \<Rightarrow> Input \<Rightarrow> 'p CompiledRule list \<Rightarrow> Output \<Rightarrow> 'e ExecError option \<times> Output" where
  "executeRule run i (Rule d f a ch) out =
     (case run f i of
        Inl e \<Rightarrow> (Some (FilterExecution d e), out)
      | Inr (AnyBool match) \<Rightarrow>
          if \<not> match then (None, out)
          else
            (case addCapabilities run i d (Add (ActionCapabilities a)) out of
               (Some e, out1) \<Rightarrow> (Some e, out1)
             | (None, out1) \<Rightarrow>
                 (case executeRules run i ch
                         (removeCapabilities (map fst (Remove (ActionCapabilities a))) out1) of
                    (Some e, out2) \<Rightarrow> (Some (ChildError d e), out2)
                  | (None, out2) \<Rightarrow> (None, out2)))
      | Inr _ \<Rightarrow> (Some (NonBoolean d), out))"
| "executeRules run i [] out = (None, out)"
| "executeRules run i (r # rs) out =
     (case executeRule run i r out of
        (Some e, out1) \<Rightarrow> (Some e, out1)
      | (None, out1) \<Rightarrow> executeRules run i rs out1)"

definition Execute ::
  "('p \<Rightarrow> Input \<Rightarrow> 'e + any) \<Rightarrow> 'p Engine \<Rightarrow> Input \<Rightarrow> 'e ExecError option \<times> Output" where
  "Execute run e i = executeRules run i (Rules e) \<lparr>OutputCapabilities = []\<rparr>"

section \<open>The abstract meaning of an execution\<close>

text \<open>
  Rules fire from the top, a rule before its children, and children only under a parent
  whose filter holds. A fired rule overrides the capabilities it adds and then drops those
  it removes. An output is read as a map from capability names to maps of values.
\<close>

fun firedActions :: "('p \<Rightarrow> Input \<Rightarrow> 'e + any) \<Rightarrow> Input \<Rightarrow> 'p CompiledRule \<Rightarrow> 'p Actions list" where
  "firedActions run i (Rule d f a ch) =
     (if run f i = Inr (AnyBool True) then a # concat (map (firedActions run i) ch) else [])"

definition valuesOf ::
  "('p \<Rightarrow> Input \<Rightarrow> 'e + any) \<Rightarrow> Input \<Rightarrow> 'p CapabilityValues \<Rightarrow> (string \<rightharpoonup> any)" where
  "valuesOf run i v n =
     (case map_of v n of
        None \<Rightarrow> None
      | Some p \<Rightarrow> (case run p i of Inl _ \<Rightarrow> None | Inr x \<Rightarrow> Some x))"

definition applyActions ::
  "('p \<Rightarrow> Input \<Rightarrow> 'e + any) \<Rightarrow> Input \<Rightarrow> 'p Actions \<Rightarrow> (string \<rightharpoonup> (string \<rightharpoonup> any))
    \<Rightarrow> (string \<rightharpoonup> (string \<rightharpoonup> any))" where
  "applyActions run i a m =
     (\<lambda>k. if map_of (Remove (ActionCapabilities a)) k \<noteq> None then None
          else case map_of (Add (ActionCapabilities a)) k of
                 None \<Rightarrow> m k
               | Some v \<Rightarrow> Some (valuesOf run i v))"

definition outputMap :: "Output \<Rightarrow> (string \<rightharpoonup> (string \<rightharpoonup> any))" where
  "outputMap out k = map_option map_of (map_of (OutputCapabilities out) k)"

text \<open>Every map in a rule is a Go map.\<close>

fun wf_rule :: "'p CompiledRule \<Rightarrow> bool" where
  "wf_rule (Rule d f a ch) \<longleftrightarrow>
     wf_map (Add (ActionCapabilities a)) \<and> wf_map (Remove (ActionCapabilities a)) \<and>
     (\<forall>(k, v) \<in> set (Add (ActionCapabilities a)). wf_map v) \<and> (\<forall>r \<in> set ch. wf_rule r)"

text \<open>The evaluations an execution reaches all succeed: the filters of the visited rules
  yield booleans and the values of the fired ones evaluate.\<close>

fun evaluates :: "('p \<Rightarrow> Input \<Rightarrow> 'e + any) \<Rightarrow> Input \<Rightarrow> 'p CompiledRule \<Rightarrow> bool" where
  "evaluates run i (Rule d f a ch) \<longleftrightarrow>
     (case run f i of
        Inr (AnyBool b) \<Rightarrow>
          b \<longrightarrow> (\<forall>(k, v) \<in> set (Add (ActionCapabilities a)). \<forall>(n, p) \<in> set v. \<exists>x. run p i = Inr x) \<and>
                (\<forall>r \<in> set ch. evaluates run i r)
      | _ \<Rightarrow> False)"

section \<open>Values and capabilities of one rule\<close>

lemma evaluateValues_ok_iff:
  "(\<exists>vs. evaluateValues run i d v = Inr vs) \<longleftrightarrow> (\<forall>(n, p) \<in> set v. \<exists>x. run p i = Inr x)"
  unfolding evaluateValues_def mapM_kv_ok_iff case_sum_ok_iff ..

lemma evaluateValues_lookup: "evaluateValues run i d v = Inr vs \<Longrightarrow> map_of vs = valuesOf run i v"
  by (auto simp: evaluateValues_def valuesOf_def fun_eq_iff mapM_kv_lookup
      split: option.splits sum.splits)

lemma addCapabilities_ok_iff:
  "fst (addCapabilities run i d m out) = None \<longleftrightarrow>
     (\<forall>(k, v) \<in> set m. \<forall>(n, p) \<in> set v. \<exists>x. run p i = Inr x)"
proof (induction run i d m out rule: addCapabilities.induct)
  case (2 run i d k v m out)
  have "(\<forall>(n, p) \<in> set v. \<exists>x. run p i = Inr x) \<longleftrightarrow> (\<exists>vs. evaluateValues run i d v = Inr vs)"
    by (rule evaluateValues_ok_iff [symmetric])
  with "2.IH" show ?case by (cases "evaluateValues run i d v") auto
qed simp

lemma addCapabilities_keys:
  "keys (OutputCapabilities (snd (addCapabilities run i d m out))) \<subseteq> keys (OutputCapabilities out) \<union> keys m"
  by (induction run i d m out rule: addCapabilities.induct) (force split: sum.splits)+

lemma outputMap_update:
  "outputMap (out\<lparr>OutputCapabilities := AList.update k vs (OutputCapabilities out)\<rparr>) =
     (outputMap out)(k \<mapsto> map_of vs)"
  by (auto simp: outputMap_def fun_eq_iff)

lemma addCapabilities_map:
  "addCapabilities run i d m out = (None, out') \<Longrightarrow> wf_map m \<Longrightarrow>
     outputMap out' = (\<lambda>k. case map_of m k of
        None \<Rightarrow> outputMap out k | Some v \<Rightarrow> Some (valuesOf run i v))"
proof (induction run i d m out rule: addCapabilities.induct)
  case (2 run i d k v m out)
  then obtain vs where vs: "evaluateValues run i d v = Inr vs" by (auto split: sum.splits)
  have "map_of m k = None" using "2.prems"(2) by (simp add: map_of_eq_None_keys)
  with 2 vs show ?case
    by (auto simp: fun_eq_iff outputMap_update evaluateValues_lookup [OF vs] split: option.split)
qed simp

lemma fold_delete_lookup:
  "map_of (fold AList.delete ks m) k = (if k \<in> set ks then None else map_of m k)"
  by (induction ks arbitrary: m) auto

lemma removeCapabilities_map:
  "outputMap (removeCapabilities ks out) = (\<lambda>k. if k \<in> set ks then None else outputMap out k)"
  by (auto simp: removeCapabilities_def outputMap_def fold_delete_lookup fun_eq_iff)

lemma removeCapabilities_keys:
  "keys (OutputCapabilities (removeCapabilities ks out)) = keys (OutputCapabilities out) - set ks"
  by (auto simp: removeCapabilities_def fold_delete_lookup dom_def
      simp flip: dom_map_of_conv_image_fst split: if_splits)

section \<open>A whole execution\<close>

lemmas execute_induct = executeRule_executeRules.induct

lemma execute_ok_iff:
  "fst (executeRule run i r out) = None \<longleftrightarrow> evaluates run i r"
  "fst (executeRules run i rs out) = None \<longleftrightarrow> (\<forall>r \<in> set rs. evaluates run i r)"
proof (induction run i r out and run i rs out rule: execute_induct)
  case (1 run i d f a ch out)
  let ?add = "addCapabilities run i d (Add (ActionCapabilities a)) out"
  show ?case
  proof (cases "run f i = Inr (AnyBool True)")
    case True
    obtain err out1 where add: "?add = (err, out1)" by (cases ?add)
    show ?thesis
    proof (cases err)
      case None
      with add have adds: "\<forall>(k, v) \<in> set (Add (ActionCapabilities a)). \<forall>(n, p) \<in> set v. \<exists>x. run p i = Inr x"
        using addCapabilities_ok_iff [of run i d "Add (ActionCapabilities a)" out] by simp
      from 1 [OF True, of True] add None have
        "fst (executeRules run i ch (removeCapabilities (map fst (Remove (ActionCapabilities a))) out1)) = None
           \<longleftrightarrow> (\<forall>r \<in> set ch. evaluates run i r)" by simp
      with True None add adds show ?thesis by (auto split: prod.split option.split)
    next
      case (Some e)
      with add have "\<not> (\<forall>(k, v) \<in> set (Add (ActionCapabilities a)). \<forall>(n, p) \<in> set v. \<exists>x. run p i = Inr x)"
        using addCapabilities_ok_iff [of run i d "Add (ActionCapabilities a)" out] by simp
      with True Some add show ?thesis by auto
    qed
  qed (auto split: sum.split any.split)
next
  case (3 run i r rs out)
  obtain err out1 where r: "executeRule run i r out = (err, out1)" by (cases "executeRule run i r out")
  show ?case
  proof (cases err)
    case None
    with 3 r show ?thesis by auto
  next
    case (Some e)
    with 3 r show ?thesis by auto
  qed
qed simp

lemma execute_map:
  "executeRule run i r out = (None, out') \<Longrightarrow> wf_rule r \<Longrightarrow>
     outputMap out' = fold (applyActions run i) (firedActions run i r) (outputMap out)"
  "executeRules run i rs out = (None, out') \<Longrightarrow> \<forall>r \<in> set rs. wf_rule r \<Longrightarrow>
     outputMap out' = fold (applyActions run i) (concat (map (firedActions run i) rs)) (outputMap out)"
proof (induction run i r out and run i rs out arbitrary: out' and out' rule: execute_induct)
  case (1 run i d f a ch out)
  let ?rm = "removeCapabilities (map fst (Remove (ActionCapabilities a)))"
  show ?case
  proof (cases "run f i = Inr (AnyBool True)")
    case True
    with "1.prems"(1) obtain out1 where
      add: "addCapabilities run i d (Add (ActionCapabilities a)) out = (None, out1)"
      and ch: "executeRules run i ch (?rm out1) = (None, out')"
      by (auto split: prod.splits option.splits)
    have "outputMap (?rm out1) = applyActions run i a (outputMap out)"
      using addCapabilities_map [OF add] "1.prems"(2)
      by (auto simp: removeCapabilities_map applyActions_def fun_eq_iff map_of_eq_None_iff)
    moreover have "outputMap out' =
        fold (applyActions run i) (concat (map (firedActions run i) ch)) (outputMap (?rm out1))"
      using "1.IH" [OF True refl] add ch "1.prems"(2) by simp
    ultimately show ?thesis using True by simp
  next
    case False
    with "1.prems"(1) have "out' = out" by (auto split: sum.splits any.splits if_splits)
    with False show ?thesis by simp
  qed
next
  case (3 run i r rs out)
  then obtain out1 where "executeRule run i r out = (None, out1)" "executeRules run i rs out1 = (None, out')"
    by (auto split: prod.splits option.splits)
  with 3 show ?case by simp
qed simp

text \<open>The capability names a rule and its descendants add.\<close>

fun addedNames :: "'p CompiledRule \<Rightarrow> string set" where
  "addedNames (Rule d f a ch) = keys (Add (ActionCapabilities a)) \<union> (\<Union>r \<in> set ch. addedNames r)"

abbreviation outputNames :: "Output \<Rightarrow> string set" where
  "outputNames out \<equiv> keys (OutputCapabilities out)"

lemma subset_chain:
  "A1 \<subseteq> A0 \<union> K \<Longrightarrow> A1' \<subseteq> A1 \<Longrightarrow> A2 \<subseteq> A1' \<union> C \<Longrightarrow> A2 \<subseteq> A0 \<union> (K \<union> C)"
  by blast

lemma execute_keys:
  "executeRule run i r out = (err, out') \<Longrightarrow> outputNames out' \<subseteq> outputNames out \<union> addedNames r"
  "executeRules run i rs out = (err, out') \<Longrightarrow>
     outputNames out' \<subseteq> outputNames out \<union> (\<Union>r \<in> set rs. addedNames r)"
proof (induction run i r out and run i rs out arbitrary: err out' and err out' rule: execute_induct)
  case (1 run i d f a ch out)
  let ?rm = "removeCapabilities (map fst (Remove (ActionCapabilities a)))"
  obtain aerr out1 where add: "addCapabilities run i d (Add (ActionCapabilities a)) out = (aerr, out1)"
    by (cases "addCapabilities run i d (Add (ActionCapabilities a)) out")
  have names1: "outputNames out1 \<subseteq> outputNames out \<union> keys (Add (ActionCapabilities a))"
    using addCapabilities_keys [of run i d "Add (ActionCapabilities a)" out] add by simp
  obtain cerr out2 where ch: "executeRules run i ch (?rm out1) = (cerr, out2)"
    by (cases "executeRules run i ch (?rm out1)")
  have added: "addedNames (Rule d f a ch) = keys (Add (ActionCapabilities a)) \<union> (\<Union>r \<in> set ch. addedNames r)"
    by simp
  show ?case
  proof (cases "run f i = Inr (AnyBool True)")
    case False
    with "1.prems" have "out' = out" by (auto split: sum.splits any.splits)
    then show ?thesis by simp
  next
    case True
    show ?thesis
    proof (cases aerr)
      case (Some e)
      with "1.prems" True add have "out' = out1" by simp
      with names1 show ?thesis unfolding added by (simp only: le_supI1 Un_assoc [symmetric])
    next
      case None
      with "1.prems" True add ch have "out' = out2" by (auto split: option.splits)
      moreover have "outputNames (?rm out1) \<subseteq> outputNames out1"
        by (simp only: removeCapabilities_keys Diff_subset)
      moreover have "\<not> \<not> True" by simp
      ultimately show ?thesis unfolding added
        using subset_chain [OF names1 _ "1.IH" [OF True refl _ add [symmetric] None ch]] by simp
    qed
  qed
next
  case (2 run i out)
  then show ?case by simp
next
  case (3 run i r rs out)
  obtain rerr out1 where r: "executeRule run i r out = (rerr, out1)" by (cases "executeRule run i r out")
  note first = "3.IH"(1) [OF r]
  show ?case
  proof (cases rerr)
    case None
    with "3.prems" r have "executeRules run i rs out1 = (err, out')" by simp
    from subset_chain [OF first subset_refl "3.IH"(2) [OF r [symmetric] None this]] show ?thesis
      by (simp only: list.set UN_insert)
  next
    case (Some e)
    with "3.prems" r have "out' = out1" by simp
    with first show ?thesis by (simp only: list.set UN_insert Un_assoc [symmetric] le_supI1)
  qed
qed

section \<open>Independence of map order\<close>

text \<open>The same compiled rule with its maps visited in another order.\<close>

fun same_rule :: "'p CompiledRule \<Rightarrow> 'p CompiledRule \<Rightarrow> bool" where
  "same_rule (Rule d f a ch) (Rule d' f' a' ch') \<longleftrightarrow>
     d = d' \<and> f = f' \<and>
     (\<forall>k. rel_option (\<lambda>v v'. map_of v = map_of v')
            (map_of (Add (ActionCapabilities a)) k) (map_of (Add (ActionCapabilities a')) k)) \<and>
     keys (Remove (ActionCapabilities a)) = keys (Remove (ActionCapabilities a')) \<and>
     list_all2 same_rule ch ch'"

lemma applyActions_same:
  assumes "\<And>k. rel_option (\<lambda>v v'. map_of v = map_of v')
      (map_of (Add (ActionCapabilities a)) k) (map_of (Add (ActionCapabilities a')) k)"
    "keys (Remove (ActionCapabilities a)) = keys (Remove (ActionCapabilities a'))"
  shows "applyActions run i a = applyActions run i a'"
proof (intro ext)
  fix m k
  have vals: "valuesOf run i v = valuesOf run i v'" if "map_of v = map_of v'" for v v'
    using that by (simp add: valuesOf_def fun_eq_iff)
  have rm: "map_of (Remove (ActionCapabilities a)) k = None \<longleftrightarrow>
      map_of (Remove (ActionCapabilities a')) k = None"
    by (simp only: map_of_eq_None_keys assms(2))
  from assms(1) [of k] show "applyActions run i a m k = applyActions run i a' m k"
  proof (cases rule: option.rel_cases)
    case (Some v v')
    then show ?thesis by (simp only: applyActions_def rm vals [OF Some(3)] option.case)
  qed (simp only: applyActions_def rm option.case)
qed

lemma fired_same:
  "same_rule r r' \<Longrightarrow>
     map (applyActions run i) (firedActions run i r) = map (applyActions run i) (firedActions run i r')"
proof (induction r r' rule: same_rule.induct)
  case (1 d f a ch d' f' a' ch')
  have "list_all2 same_rule ch ch'" using "1.prems" by simp
  then have "list_all2 (\<lambda>r r'. map (applyActions run i) (firedActions run i r)
      = map (applyActions run i) (firedActions run i r')) ch ch'"
    by (rule list.rel_mono_strong) (rule "1.IH")
  then have "map (applyActions run i) (concat (map (firedActions run i) ch)) =
      map (applyActions run i) (concat (map (firedActions run i) ch'))"
    by (rule list_all2_concat_map)
  moreover have "applyActions run i a = applyActions run i a'"
    using "1.prems" by (intro applyActions_same) simp_all
  ultimately show ?case using "1.prems" by simp
qed

lemma values_evaluate_iff:
  assumes "wf_map m" "\<forall>(k, v) \<in> set m. wf_map v"
  shows "(\<forall>(k, v) \<in> set m. \<forall>(n, p) \<in> set v. P p) \<longleftrightarrow>
     (\<forall>k v. map_of m k = Some v \<longrightarrow> (\<forall>n p. map_of v n = Some p \<longrightarrow> P p))"
proof -
  have "wf_map v" if "map_of m k = Some v" for k v
    using assms(2) map_of_SomeD [OF that] by auto
  then show ?thesis
    unfolding ball_map_of [OF assms(1)] by (intro iff_allI imp_cong refl) (simp add: ball_map_of)
qed

lemma values_evaluate_same:
  assumes "\<And>k. rel_option (\<lambda>v v'. map_of v = map_of v') (map_of m k) (map_of m' k)"
    and "wf_map m" "\<forall>(k, v) \<in> set m. wf_map v" "wf_map m'" "\<forall>(k, v) \<in> set m'. wf_map v"
  shows "(\<forall>(k, v) \<in> set m. \<forall>(n, p) \<in> set v. P p) \<longleftrightarrow>
     (\<forall>(k, v) \<in> set m'. \<forall>(n, p) \<in> set v. P p)"
proof -
  have "(\<forall>v. map_of m k = Some v \<longrightarrow> (\<forall>n p. map_of v n = Some p \<longrightarrow> P p)) \<longleftrightarrow>
      (\<forall>v. map_of m' k = Some v \<longrightarrow> (\<forall>n p. map_of v n = Some p \<longrightarrow> P p))" for k
    using assms(1) [of k] by (cases rule: option.rel_cases) simp_all
  then show ?thesis
    unfolding values_evaluate_iff [OF assms(2,3)] values_evaluate_iff [OF assms(4,5)] by simp
qed

lemma evaluates_same:
  "same_rule r r' \<Longrightarrow> wf_rule r \<Longrightarrow> wf_rule r' \<Longrightarrow> evaluates run i r = evaluates run i r'"
proof (induction r r' rule: same_rule.induct)
  case (1 d f a ch d' f' a' ch')
  have "(\<forall>(k, v) \<in> set (Add (ActionCapabilities a)). \<forall>(n, p) \<in> set v. \<exists>x. run p i = Inr x) \<longleftrightarrow>
      (\<forall>(k, v) \<in> set (Add (ActionCapabilities a')). \<forall>(n, p) \<in> set v. \<exists>x. run p i = Inr x)"
    using "1.prems" by (intro values_evaluate_same) simp_all
  moreover have "(\<forall>r \<in> set ch. evaluates run i r) \<longleftrightarrow> (\<forall>r \<in> set ch'. evaluates run i r)"
  proof (rule list_all2_ball_iff)
    have "list_all2 same_rule ch ch'" using "1.prems" by simp
    then show "list_all2 (\<lambda>r r'. evaluates run i r = evaluates run i r') ch ch'"
      by (rule list.rel_mono_strong) (use "1.IH" "1.prems" in simp)
  qed
  ultimately show ?case using "1.prems" by (simp split: sum.split any.split)
qed

section \<open>The properties\<close>

text \<open>C5: an execution without errors computes the abstract meaning of the rules: from no
  capabilities at all, every fired rule in order (parents before children, children only
  under a parent that fired) sets the capabilities it adds to its evaluated values and then
  drops those it removes.\<close>

theorem Execute_refines:
  assumes "\<forall>r \<in> set (Rules e). wf_rule r" "Execute run e i = (None, out)"
  shows "outputMap out =
     fold (applyActions run i) (concat (map (firedActions run i) (Rules e))) Map.empty"
proof -
  have "outputMap out = fold (applyActions run i) (concat (map (firedActions run i) (Rules e)))
      (outputMap \<lparr>OutputCapabilities = []\<rparr>)"
    using assms by (intro execute_map(2)) (auto simp: Execute_def)
  moreover have "outputMap \<lparr>OutputCapabilities = []\<rparr> = Map.empty"
    by (simp add: outputMap_def fun_eq_iff)
  ultimately show ?thesis by simp
qed

text \<open>C23: an execution returns an error exactly when some evaluation it reaches fails: a
  visited rule's filter errs or is not a boolean, or a value of a fired rule errs.\<close>

theorem Execute_ok_iff:
  "fst (Execute run e i) = None \<longleftrightarrow> list_all (evaluates run i) (Rules e)"
  by (simp add: Execute_def execute_ok_iff list_all_iff)


text \<open>With or without an error, an execution only ever outputs capabilities that some
  rule of the engine adds.\<close>

theorem Execute_names:
  "outputNames (snd (Execute run e i)) \<subseteq> (\<Union>r \<in> set (Rules e). addedNames r)"
proof -
  obtain err out where "Execute run e i = (err, out)" by (cases "Execute run e i")
  with execute_keys(2) [of run i "Rules e" "\<lparr>OutputCapabilities = []\<rparr>" err out] show ?thesis
    by (simp add: Execute_def)
qed

section \<open>Witnesses\<close>

text \<open>Programs are texts; the two rules follow the shipped ones for lights: the second drops
  the on/off capability the first one added.\<close>

definition exampleRun :: "string \<Rightarrow> Input \<Rightarrow> unit + any" where
  "exampleRun p i =
     (if p = ''true'' then Inr (AnyBool True)
      else if p = ''false'' then Inr (AnyBool False)
      else if p = ''self'' then Inr (AnyEndpoint (Fn_Endpoint (Self i)))
      else Inl ())"

definition onOffRule :: "string CompiledRule" where
  "onOffRule = Rule ''onoff'' ''true''
     (Actions (Capabilities [(''ZCLOnOff'', [(''ZigbeeEndpoint'', ''self'')])] [])) []"

definition lightRule :: "string CompiledRule" where
  "lightRule = Rule ''light'' ''true''
     (Actions (Capabilities
        [(''ZCLLight'', [(''ZigbeeEndpoint'', ''self''), (''Level'', ''false'')]),
         (''ZCLIdentify'', [])] [(''ZCLOnOff'', [])])) []"

definition lightRule' :: "string CompiledRule" where
  "lightRule' = Rule ''light'' ''true''
     (Actions (Capabilities
        [(''ZCLIdentify'', []),
         (''ZCLLight'', [(''Level'', ''false''), (''ZigbeeEndpoint'', ''self'')])] [(''ZCLOnOff'', [])])) []"

definition exampleInput :: Input where
  "exampleInput = \<lparr>Node = \<lparr>InputManufacturerCode = 0, NodeType = ''router''\<rparr>, Self = 257,
     Product = [], Endpoint = []\<rparr>"

abbreviation engineOf :: "string CompiledRule list \<Rightarrow> string Engine" where
  "engineOf rs \<equiv> \<lparr>RuleSets = [], Rules = rs\<rparr>"

definition exampleOutput :: Output where
  "exampleOutput = \<lparr>OutputCapabilities =
     [(''ZCLLight'', [(''ZigbeeEndpoint'', AnyEndpoint 1), (''Level'', AnyBool False)]),
      (''ZCLIdentify'', [])]\<rparr>"

lemmas example_defs = exampleRun_def onOffRule_def lightRule_def lightRule'_def exampleInput_def
  exampleOutput_def

lemma example_wf: "wf_rule onOffRule" "wf_rule lightRule" "wf_rule lightRule'"
  by (simp_all add: example_defs)

lemma exampleOutput_onOff: "outputMap exampleOutput ''ZCLOnOff'' = None"
  by (simp add: outputMap_def exampleOutput_def)

lemma example_execute:
  "Execute exampleRun (engineOf [onOffRule, lightRule]) exampleInput =
     (None, exampleOutput)"
  by (simp add: example_defs Execute_def evaluateValues_def removeCapabilities_def Fn_Endpoint_def)

theorem Execute_refines_witness:
  "fold (applyActions exampleRun exampleInput)
     (concat (map (firedActions exampleRun exampleInput) [onOffRule, lightRule])) Map.empty ''ZCLOnOff''
     = None"
proof -
  have "\<forall>r \<in> set (Rules (engineOf [onOffRule, lightRule])). wf_rule r"
    by (simp add: example_wf)
  from Execute_refines [OF this example_execute, symmetric] show ?thesis
    by (simp only: Engine.simps exampleOutput_onOff)
qed


end
