(* ===== verification/Strconv.thy ===== *)
theory Strconv
  imports Prelude
begin

text \<open>
  The parts of Go's \<open>strconv\<close> and \<open>strings\<close> packages the code uses: \<open>Itoa\<close>, \<open>Atoi\<close> and
  \<open>ParseUint\<close> in an explicit base, on strings as lists of bytes; and \<open>strings.HasPrefix\<close>.
  The parsers return \<open>None\<close> where Go returns a syntax or range error.
\<close>

definition digitChar :: "nat \<Rightarrow> char" where
  "digitChar d = (if d < 10 then char_of (48 + d) else char_of (87 + d))"

text \<open>\<open>'0'..'9'\<close>, and letters of either case from 10 on.\<close>

definition digitVal :: "char \<Rightarrow> nat option" where
  "digitVal c =
     (let n = of_char c in
      if 48 \<le> n \<and> n \<le> 57 then Some (n - 48)
      else if 97 \<le> n \<and> n \<le> 122 then Some (n - 87)
      else if 65 \<le> n \<and> n \<le> 90 then Some (n - 55)
      else None)"

fun toDigits :: "nat \<Rightarrow> nat \<Rightarrow> string" where
  "toDigits base n =
     (if n < base \<or> base < 2 then [digitChar n]
      else toDigits base (n div base) @ [digitChar (n mod base)])"

declare toDigits.simps [simp del]

fun parseDigits :: "nat \<Rightarrow> nat \<Rightarrow> string \<Rightarrow> nat option" where
  "parseDigits base acc [] = Some acc"
| "parseDigits base acc (c # cs) =
     (case digitVal c of
        None \<Rightarrow> None
      | Some d \<Rightarrow> if d < base then parseDigits base (acc * base + d) cs else None)"

definition parseNat :: "nat \<Rightarrow> string \<Rightarrow> nat option" where
  "parseNat base s = (if s = [] then None else parseDigits base 0 s)"

text \<open>\<open>strconv.ParseUint(s, base, 64)\<close> for an explicit base.\<close>

definition ParseUint :: "string \<Rightarrow> nat \<Rightarrow> nat option" where
  "ParseUint s base =
     (case parseNat base s of
        None \<Rightarrow> None
      | Some n \<Rightarrow> if n < 2 ^ 64 then Some n else None)"

definition Itoa :: "int \<Rightarrow> string" where
  "Itoa i = (if i < 0 then CHR ''-'' # toDigits 10 (nat (- i)) else toDigits 10 (nat i))"

text \<open>\<open>strconv.Atoi\<close>: an optional sign, decimal digits, the range of \<open>int\<close> (64 bits).\<close>

definition Atoi :: "string \<Rightarrow> int option" where
  "Atoi s =
     (let neg = (s \<noteq> [] \<and> hd s = CHR ''-'');
          body = (if s \<noteq> [] \<and> (hd s = CHR ''-'' \<or> hd s = CHR ''+'') then tl s else s)
      in case parseNat 10 body of
           None \<Rightarrow> None
         | Some n \<Rightarrow>
             (let i = (if neg then - int n else int n)
              in if - (2 ^ 63) \<le> i \<and> i < 2 ^ 63 then Some i else None))"

definition HasPrefix :: "string \<Rightarrow> string \<Rightarrow> bool" where
  "HasPrefix s pre \<longleftrightarrow> take (length pre) s = pre"

section \<open>Round trips\<close>

lemma digitVal_digitChar: "d < 16 \<Longrightarrow> digitVal (digitChar d) = Some d"
  by (cases "d < 10") (simp_all add: digitVal_def digitChar_def Let_def)

lemma parseDigits_append:
  "parseDigits base acc (xs @ ys) =
     (case parseDigits base acc xs of None \<Rightarrow> None | Some n \<Rightarrow> parseDigits base n ys)"
  by (induction base acc xs rule: parseDigits.induct) (auto split: option.split)

lemma toDigits_not_Nil [simp]: "toDigits base n \<noteq> []"
  by (subst toDigits.simps) simp

lemma parseDigits_toDigits:
  "2 \<le> base \<Longrightarrow> base \<le> 16 \<Longrightarrow> parseDigits base 0 (toDigits base n) = Some n"
proof (induction base n rule: toDigits.induct)
  case (1 base n)
  show ?case
  proof (cases "n < base")
    case True
    with "1.prems" show ?thesis by (subst toDigits.simps) (simp add: digitVal_digitChar)
  next
    case False
    have "n mod base < 16" using "1.prems" by (meson mod_less_divisor less_le_trans zero_less_numeral)
    with 1 False show ?thesis
      by (subst toDigits.simps) (simp add: parseDigits_append digitVal_digitChar)
  qed
qed

lemma parseNat_toDigits: "2 \<le> base \<Longrightarrow> base \<le> 16 \<Longrightarrow> parseNat base (toDigits base n) = Some n"
  by (simp add: parseNat_def parseDigits_toDigits)

lemma ParseUint_toDigits:
  "2 \<le> base \<Longrightarrow> base \<le> 16 \<Longrightarrow> n < 2 ^ 64 \<Longrightarrow> ParseUint (toDigits base n) base = Some n"
  by (simp add: ParseUint_def parseNat_toDigits)

lemma toDigits_hd: "2 \<le> base \<Longrightarrow> base \<le> 16 \<Longrightarrow> \<exists>d. d < 16 \<and> hd (toDigits base n) = digitChar d"
proof (induction base n rule: toDigits.induct)
  case (1 base n)
  show ?case
  proof (cases "n < base")
    case True
    with "1.prems" show ?thesis by (subst toDigits.simps) (auto intro!: exI [of _ n])
  next
    case False
    with 1 show ?thesis by (subst toDigits.simps) simp
  qed
qed

lemma digitChar_not_sign:
  assumes "d < 16"
  shows "digitChar d \<noteq> CHR ''-''" "digitChar d \<noteq> CHR ''+''"
  using digitVal_digitChar [OF assms] by (auto simp: digitVal_def)

lemma Atoi_Itoa:
  assumes "- (2 ^ 63) \<le> i" "i < 2 ^ 63"
  shows "Atoi (Itoa i) = Some i"
proof -
  obtain d where d: "d < 16" "hd (toDigits 10 (nat i)) = digitChar d"
    using toDigits_hd [of 10 "nat i"] by auto
  have "hd (toDigits 10 (nat i)) \<noteq> CHR ''-''" "hd (toDigits 10 (nat i)) \<noteq> CHR ''+''"
    using digitChar_not_sign [OF d(1)] d(2) by simp_all
  then show ?thesis using assms by (auto simp: Atoi_def Itoa_def parseNat_toDigits Let_def)
qed

lemma Atoi_Itoa_byte [simp]: "Atoi (Itoa (uint (w :: 8 word))) = Some (uint w)"
proof (rule Atoi_Itoa)
  have "0 \<le> uint w" by simp
  then show "- (2 ^ 63) \<le> uint w" by (rule order_trans [rotated]) simp
  show "uint w < 2 ^ 63" using uint_lt2p [of w] by simp
qed

lemma Itoa_byte_inject [simp]: "Itoa (uint (v :: 8 word)) = Itoa (uint (w :: 8 word)) \<longleftrightarrow> v = w"
  by (metis Atoi_Itoa_byte option.inject word_uint_eq_iff)

end
