(* ===== verification/Persistence_Interface.thy ===== *)
theory Persistence_Interface
  imports Prelude Complex_Main "HOL-Library.Sublist"
begin

text \<open>
  The interface of the persistence library (\<open>github.com/shimmeringbee/persistence\<close>, not
  part of the repository) as the code uses it. A section is named by its path from the root;
  the operations are a record over an unknown store type \<open>'s\<close>, and \<open>section_store\<close> states
  their documented behaviour:
  \<^item> \<open>Section(k1, .., kn)\<close> opens the section at a path, creating what is missing on the way;
  \<^item> \<open>SectionKeys\<close> lists the children of a section, \<open>SectionDelete\<close> drops a child and
    everything below it and says whether it was there;
  \<^item> \<open>Set\<close>, \<open>Delete\<close> and the typed readers work on the values of one section.
  \<open>memory_store\<close> at the end is a store with exactly this behaviour, which shows that the
  laws can hold together and on which the witnesses of later theories run.
\<close>

type_synonym path = "string list"

text \<open>A stored value, by the type it was stored with.\<close>

datatype pval = PInt int | PString string | PBool bool | PFloat rat

record 's persist =
  p_section :: "path \<Rightarrow> 's \<Rightarrow> 's"
  p_keys :: "path \<Rightarrow> 's \<Rightarrow> string list"
  p_remove :: "path \<Rightarrow> string \<Rightarrow> 's \<Rightarrow> bool \<times> 's"
  p_get :: "path \<Rightarrow> string \<Rightarrow> 's \<Rightarrow> pval option"
  p_set :: "path \<Rightarrow> string \<Rightarrow> pval \<Rightarrow> 's \<Rightarrow> 's"
  p_delete :: "path \<Rightarrow> string \<Rightarrow> 's \<Rightarrow> 's"

text \<open>The typed readers: the value and \<open>true\<close> when the key holds one of that type.\<close>

definition sectionInt :: "'s persist \<Rightarrow> path \<Rightarrow> string \<Rightarrow> 's \<Rightarrow> int option" where
  "sectionInt P p k s = (case p_get P p k s of Some (PInt i) \<Rightarrow> Some i | _ \<Rightarrow> None)"

definition sectionString :: "'s persist \<Rightarrow> path \<Rightarrow> string \<Rightarrow> 's \<Rightarrow> string option" where
  "sectionString P p k s = (case p_get P p k s of Some (PString t) \<Rightarrow> Some t | _ \<Rightarrow> None)"

definition sectionBool :: "'s persist \<Rightarrow> path \<Rightarrow> string \<Rightarrow> 's \<Rightarrow> bool option" where
  "sectionBool P p k s = (case p_get P p k s of Some (PBool b) \<Rightarrow> Some b | _ \<Rightarrow> None)"

definition sectionFloat :: "'s persist \<Rightarrow> path \<Rightarrow> string \<Rightarrow> 's \<Rightarrow> rat option" where
  "sectionFloat P p k s = (case p_get P p k s of Some (PFloat x) \<Rightarrow> Some x | _ \<Rightarrow> None)"

section \<open>The contract\<close>

locale section_store =
  fixes P :: "'s persist"
  assumes distinct_keys: "distinct (p_keys P p s)"
    and keys_section: "set (p_keys P p (p_section P q s)) = set (p_keys P p s) \<union> {k. prefix (p @ [k]) q}"
    and keys_set: "set (p_keys P p (p_set P q k v s)) = set (p_keys P p s)"
    and keys_delete: "set (p_keys P p (p_delete P q k s)) = set (p_keys P p s)"
    and remove_found: "fst (p_remove P q k s) \<longleftrightarrow> k \<in> set (p_keys P q s)"
    and keys_remove: "set (p_keys P p (snd (p_remove P q k s))) =
           (if p = q then set (p_keys P p s) - {k}
            else if prefix (q @ [k]) p then {} else set (p_keys P p s))"
    and get_section: "p_get P p j (p_section P q s) = p_get P p j s"
    and get_set: "p_get P p j (p_set P q k v s) = (if p = q \<and> j = k then Some v else p_get P p j s)"
    and get_delete: "p_get P p j (p_delete P q k s) = (if p = q \<and> j = k then None else p_get P p j s)"
    and get_remove: "p_get P p j (snd (p_remove P q k s)) =
           (if prefix (q @ [k]) p then None else p_get P p j s)"
begin

lemmas keys_laws = keys_section keys_set keys_delete keys_remove
lemmas get_laws = get_section get_set get_delete get_remove

text \<open>Opening a section twice, or a prefix of it again, adds nothing.\<close>

lemma section_keys_idem:
  "prefix r q \<Longrightarrow> set (p_keys P p (p_section P r (p_section P q s))) = set (p_keys P p (p_section P q s))"
  by (auto simp: keys_section intro: prefix_order.trans)

lemma section_key_present: "k \<in> set (p_keys P p (p_section P (p @ k # q) s))"
  by (simp add: keys_section prefix_def)

lemma remove_key_absent: "k \<notin> set (p_keys P p (snd (p_remove P p k s)))"
  by (simp add: keys_remove)

text \<open>Opening a section whose first key below \<open>p\<close> is \<open>k\<close> adds \<open>k\<close> to \<open>p\<close>'s children.\<close>

lemma keys_section_child:
  "set (p_keys P p (p_section P (p @ k # q) s)) = insert k (set (p_keys P p s))"
  by (auto simp: keys_section prefix_def)

lemma keys_section_other:
  "\<not> strict_prefix p q \<Longrightarrow> set (p_keys P p (p_section P q s)) = set (p_keys P p s)"
  by (auto simp: keys_section strict_prefix_def prefix_def)

lemma keys_remove_other:
  "p \<noteq> q \<Longrightarrow> \<not> prefix (q @ [k]) p \<Longrightarrow>
     set (p_keys P p (snd (p_remove P q k s))) = set (p_keys P p s)"
  by (simp add: keys_remove)

lemma sectionInt_laws:
  "sectionInt P p j (p_section P q s) = sectionInt P p j s"
  "sectionInt P p j (p_set P q k v s) =
     (if p = q \<and> j = k then (case v of PInt i \<Rightarrow> Some i | _ \<Rightarrow> None) else sectionInt P p j s)"
  "sectionInt P p j (snd (p_remove P q k s)) =
     (if prefix (q @ [k]) p then None else sectionInt P p j s)"
  by (simp_all add: sectionInt_def get_laws)

end

section \<open>Frames\<close>

lemma prefix_same_length: "prefix p q \<Longrightarrow> prefix p' q \<Longrightarrow> length p = length p' \<Longrightarrow> p = p'"
  by (auto simp: prefix_def append_eq_append_conv)

text \<open>\<open>present\<close>: every section on the way to a path exists. \<open>only_below\<close>: from one store to
  the next nothing changes but at or below a path.\<close>

definition present :: "'s persist \<Rightarrow> path \<Rightarrow> 's \<Rightarrow> bool" where
  "present P p s \<longleftrightarrow> (\<forall>q k. prefix (q @ [k]) p \<longrightarrow> k \<in> set (p_keys P q s))"

definition only_below :: "'s persist \<Rightarrow> path \<Rightarrow> 's \<Rightarrow> 's \<Rightarrow> bool" where
  "only_below P p s s' \<longleftrightarrow>
     (\<forall>q. \<not> prefix p q \<longrightarrow>
        set (p_keys P q s') = set (p_keys P q s) \<and> (\<forall>j. p_get P q j s' = p_get P q j s))"

lemma only_belowD:
  assumes "only_below P p s s'" "\<not> prefix p q"
  shows "set (p_keys P q s') = set (p_keys P q s)" "p_get P q j s' = p_get P q j s"
  using assms by (auto simp: only_below_def)

lemma only_below_refl [simp, intro]: "only_below P p s s"
  by (simp add: only_below_def)

lemma only_below_trans: "only_below P p s s' \<Longrightarrow> only_below P p s' s'' \<Longrightarrow> only_below P p s s''"
  by (simp add: only_below_def)

lemma only_below_mono: "only_below P q s s' \<Longrightarrow> prefix p q \<Longrightarrow> only_below P p s s'"
  unfolding only_below_def by (metis prefix_order.trans)

lemma snoc_prefix_not_below: "prefix (q @ [k]) p \<Longrightarrow> \<not> prefix p q"
  by (auto simp: prefix_def)

lemma present_prefix: "present P p s \<Longrightarrow> prefix q p \<Longrightarrow> present P q s"
  unfolding present_def by (metis prefix_order.trans)

lemma only_below_present:
  "only_below P p s s' \<Longrightarrow> present P p s \<Longrightarrow> present P p s'"
  unfolding present_def by (metis only_belowD(1) snoc_prefix_not_below)

context section_store begin

lemma section_present: "present P p (p_section P p s)"
  by (auto simp: present_def keys_section)

lemma section_present_mono: "present P p s \<Longrightarrow> present P p (p_section P q s)"
  by (auto simp: present_def keys_section)

lemma set_present [simp]: "present P p (p_set P q k v s) = present P p s"
  by (simp add: present_def keys_set)

lemma section_only_below:
  "present P p s \<Longrightarrow> prefix p q \<Longrightarrow> only_below P p s (p_section P q s)"
  unfolding only_below_def present_def
  by (auto simp: keys_section get_section dest: prefix_same_cases)

lemma set_only_below: "prefix p q \<Longrightarrow> only_below P p s (p_set P q k v s)"
  by (auto simp: only_below_def keys_set get_set)

lemma delete_only_below: "prefix p q \<Longrightarrow> only_below P p s (p_delete P q k s)"
  by (auto simp: only_below_def keys_delete get_delete)

lemma remove_only_below: "prefix p q \<Longrightarrow> only_below P p s (snd (p_remove P q k s))"
  unfolding only_below_def
  by (auto simp: keys_remove get_remove dest: prefix_order.trans [OF append_prefixD])

lemmas only_below_intros = section_only_below set_only_below delete_only_below remove_only_below

end

section \<open>An in-memory store\<close>

record memory =
  secs :: "path list"
  vals :: "(path \<times> string, pval) gomap"

definition memory_section :: "path \<Rightarrow> memory \<Rightarrow> memory" where
  "memory_section p s = s\<lparr>secs := remdups (secs s @ prefixes p)\<rparr>"

definition memory_keys :: "path \<Rightarrow> memory \<Rightarrow> string list" where
  "memory_keys p s = remdups (map last (filter (\<lambda>q. q \<noteq> [] \<and> butlast q = p) (secs s)))"

definition memory_remove :: "path \<Rightarrow> string \<Rightarrow> memory \<Rightarrow> bool \<times> memory" where
  "memory_remove p k s =
     (k \<in> set (memory_keys p s),
      \<lparr>secs = filter (\<lambda>q. \<not> prefix (p @ [k]) q) (secs s),
       vals = filter (\<lambda>((q, _), _). \<not> prefix (p @ [k]) q) (vals s)\<rparr>)"

definition memory_store :: "memory persist" where
  "memory_store =
     \<lparr>p_section = memory_section, p_keys = memory_keys, p_remove = memory_remove,
      p_get = (\<lambda>p k s. map_of (vals s) (p, k)),
      p_set = (\<lambda>p k v s. s\<lparr>vals := AList.update (p, k) v (vals s)\<rparr>),
      p_delete = (\<lambda>p k s. s\<lparr>vals := AList.delete (p, k) (vals s)\<rparr>)\<rparr>"

definition memory_new :: memory where
  "memory_new = \<lparr>secs = [], vals = []\<rparr>"

lemma memory_keys_iff: "k \<in> set (memory_keys p s) \<longleftrightarrow> p @ [k] \<in> set (secs s)"
  by (force simp: memory_keys_def image_iff snoc_eq_iff_butlast)

lemma map_of_filter_paths:
  "map_of (filter (\<lambda>((q, _), _). Q q) m) (p, k) = (if Q p then map_of m (p, k) else None)"
  by (induction m) auto

interpretation mem: section_store memory_store
proof unfold_locales
  fix p q :: path and k j :: string and s v
  show "distinct (p_keys memory_store p s)"
    by (simp add: memory_store_def memory_keys_def)
  show "set (p_keys memory_store p (p_section memory_store q s)) =
      set (p_keys memory_store p s) \<union> {k. prefix (p @ [k]) q}"
    by (auto simp: memory_store_def memory_keys_iff memory_section_def)
  show "set (p_keys memory_store p (p_set memory_store q k v s)) = set (p_keys memory_store p s)"
    by (auto simp: memory_store_def memory_keys_iff)
  show "set (p_keys memory_store p (p_delete memory_store q k s)) = set (p_keys memory_store p s)"
    by (auto simp: memory_store_def memory_keys_iff)
  show "fst (p_remove memory_store q k s) \<longleftrightarrow> k \<in> set (p_keys memory_store q s)"
    by (simp add: memory_store_def memory_remove_def)
  show "set (p_keys memory_store p (snd (p_remove memory_store q k s))) =
      (if p = q then set (p_keys memory_store p s) - {k}
       else if prefix (q @ [k]) p then {} else set (p_keys memory_store p s))"
    by (rule set_eqI)
       (auto simp: memory_store_def memory_keys_iff memory_remove_def intro: prefix_order.trans)
  show "p_get memory_store p j (p_section memory_store q s) = p_get memory_store p j s"
    by (simp add: memory_store_def memory_section_def)
  show "p_get memory_store p j (p_set memory_store q k v s) =
      (if p = q \<and> j = k then Some v else p_get memory_store p j s)"
    by (auto simp: memory_store_def)
  show "p_get memory_store p j (p_delete memory_store q k s) =
      (if p = q \<and> j = k then None else p_get memory_store p j s)"
    by (auto simp: memory_store_def)
  show "p_get memory_store p j (snd (p_remove memory_store q k s)) =
      (if prefix (q @ [k]) p then None else p_get memory_store p j s)"
    by (simp add: memory_store_def memory_remove_def map_of_filter_paths)
qed

end
