(* ===== verification/Host.thy ===== *)
theory Host
  imports Strconv Persistence_Interface Rules_Execute
begin

text \<open>
  The data every component of the gateway shares: addresses, capability flags, errors, the
  events it sends, and the environment its operations run in.
\<close>

section \<open>Identifiers\<close>

type_synonym IEEEAddress = "64 word"
type_synonym Endpoint = "8 word"
type_synonym ClusterID = "16 word"
type_synonym AttributeID = "16 word"

text \<open>\<open>device.go\<close>: the identifier of a device on a node.\<close>

record IEEEAddressWithSubIdentifier =
  IEEEAddress :: IEEEAddress
  SubIdentifier :: "8 word"

type_synonym address = IEEEAddressWithSubIdentifier

abbreviation addressOf :: "IEEEAddress \<Rightarrow> 8 word \<Rightarrow> address" where
  "addressOf a i \<equiv> \<lparr>IEEEAddress = a, SubIdentifier = i\<rparr>"

text \<open>\<open>gateway.go\<close>: the gateway's own endpoint.\<close>

definition DefaultGatewayHomeAutomationEndpoint :: Endpoint where
  "DefaultGatewayHomeAutomationEndpoint = 1"

text \<open>The capability flags (\<open>da/capabilities\<close>) the code names; \<open>OtherFlag\<close> is any other.\<close>

datatype Capability =
    EnumerateDeviceFlag | DeviceRemovalFlag | DeviceDiscoveryFlag
  | ProductInformationFlag | TemperatureSensorFlag | RelativeHumiditySensorFlag
  | PressureSensorFlag | IdentifyFlag | PowerSupplyFlag | DeviceWorkaroundsFlag
  | OtherFlag nat

section \<open>Errors\<close>

text \<open>A Go \<open>error\<close>: one with a text, one that wraps another (\<open>fmt.Errorf\<close> with \<open>%w\<close>, the
  text before it), and the two sentinels \<open>errors.Is\<close> is asked about.\<close>

datatype goerr =
    Err string
  | Errorf string goerr
  | DeadlineExceeded
  | Canceled

fun errorsIs :: "goerr \<Rightarrow> goerr \<Rightarrow> bool" where
  "errorsIs (Errorf t e) target \<longleftrightarrow> Errorf t e = target \<or> errorsIs e target"
| "errorsIs e target \<longleftrightarrow> e = target"

text \<open>\<open>implcaps/interface.go\<close>: why a capability is detached.\<close>

datatype DetachType = DeviceRemoved | NoLongerEnumerated | FailedAttach

section \<open>Events\<close>

record EnumerationCapability =
  Attached :: bool
  Errors :: "goerr list"

record EnumerationStatus =
  Enumerating :: bool
  CapabilityStatus :: "(Capability, EnumerationCapability) gomap"

datatype PowerStatusFlag = Voltage | Frequency | Remaining

record PowerMainsState =
  MainsVoltage :: rat
  MainsFrequency :: rat
  MainsPresent :: "PowerStatusFlag set"

record PowerBatteryState =
  BatteryVoltage :: rat
  BatteryRemaining :: rat
  BatteryPresent :: "PowerStatusFlag set"

record PowerState =
  Mains :: "PowerMainsState list"
  Battery :: "PowerBatteryState list"

text \<open>What the gateway publishes through \<open>sendEvent\<close>; a device is named by its address, a
  duration is in nanoseconds.\<close>

datatype event =
    EvDeviceAdded address
  | EvDeviceRemoved address
  | EvCapabilityAdded address Capability
  | EvCapabilityRemoved address Capability
  | EvEnumerateDeviceStart address
  | EvEnumerateDeviceStopped address EnumerationStatus
  | EvDeviceDiscoveryEnabled int
  | EvDeviceDiscoveryDisabled
  | EvTemperatureSensorUpdate address rat
  | EvRelativeHumiditySensorUpdate address rat
  | EvPressureSensorUpdate address rat
  | EvIdentifyUpdate address bool int
  | EvPowerStatusUpdate address PowerState

section \<open>The environment\<close>

text \<open>
  The part of a \<open>node\<close> that capabilities reach through their device's pointer: the channel
  of transaction sequence numbers, as the list of its buffered values, and \<open>useAPSAck\<close>. The
  channel is a reference shared by everyone who holds the node, so its contents live in the
  environment, by the node's address, like the rest of the heap that operations share.
\<close>

record NodeTx =
  sequence :: "8 word list"
  useAPSAck :: bool

text \<open>
  The environment: the persistence store \<open>'s\<close>, the events sent so far in order, the shared
  part of the nodes, and the outside world \<open>'x\<close> (network, clock), which only the functions
  passed to the definitions read or change.
\<close>

record ('s, 'x) env =
  store :: 's
  events :: "event list"
  nodeTx :: "IEEEAddress \<Rightarrow> NodeTx"
  world :: 'x

text \<open>What the program takes from its libraries everywhere: the persistence operations, the
  text form of an address (\<open>IEEEAddress.String\<close>) and the names of the capabilities
  (\<open>capabilities.StandardNames\<close>).\<close>

record 's host =
  persist :: "'s persist"
  ieeeString :: "IEEEAddress \<Rightarrow> string"
  StandardNames :: "Capability \<Rightarrow> string"

text \<open>\<open>da_events.go\<close>: \<open>sendEvent\<close> puts the event on the channel.\<close>

definition sendEvent :: "event \<Rightarrow> ('s, 'x) env \<Rightarrow> ('s, 'x) env" where
  "sendEvent ev e = e\<lparr>events := events e @ [ev]\<rparr>"

lemma sendEvent_simps [simp]:
  "store (sendEvent ev e) = store e" "events (sendEvent ev e) = events e @ [ev]"
  "nodeTx (sendEvent ev e) = nodeTx e" "world (sendEvent ev e) = world e"
  by (simp_all add: sendEvent_def)

text \<open>
  The documented behaviour of the text form: 16 hexadecimal digits, which \<open>ParseUint\<close> in
  base 16 reads back; and distinct names for distinct flags.
\<close>

definition host_ok :: "'s host \<Rightarrow> bool" where
  "host_ok h \<longleftrightarrow>
     section_store (persist h) \<and>
     (\<forall>a. ParseUint (ieeeString h a) 16 = Some (unat a)) \<and>
     inj (StandardNames h)"

lemma host_okD:
  assumes "host_ok h"
  shows "section_store (persist h)" "ParseUint (ieeeString h a) 16 = Some (unat a)"
    "StandardNames h c = StandardNames h c' \<longleftrightarrow> c = c'"
  using assms by (auto simp: host_ok_def inj_eq)

lemma ieeeString_inject:
  "host_ok h \<Longrightarrow> ieeeString h a = ieeeString h b \<longleftrightarrow> a = b"
  by (metis host_okD(2) option.inject unsigned_word_eqI)

section \<open>A concrete host\<close>

text \<open>The in-memory store, the plain hexadecimal text form and one text per flag.\<close>

fun exampleNames :: "Capability \<Rightarrow> string" where
  "exampleNames EnumerateDeviceFlag = ''EnumerateDevice''"
| "exampleNames DeviceRemovalFlag = ''DeviceRemoval''"
| "exampleNames DeviceDiscoveryFlag = ''DeviceDiscovery''"
| "exampleNames ProductInformationFlag = ''ProductInformation''"
| "exampleNames TemperatureSensorFlag = ''TemperatureSensor''"
| "exampleNames RelativeHumiditySensorFlag = ''RelativeHumiditySensor''"
| "exampleNames PressureSensorFlag = ''PressureSensor''"
| "exampleNames IdentifyFlag = ''Identify''"
| "exampleNames PowerSupplyFlag = ''PowerSupply''"
| "exampleNames DeviceWorkaroundsFlag = ''DeviceWorkarounds''"
| "exampleNames (OtherFlag n) = CHR ''#'' # replicate n CHR ''0''"

definition memoryHost :: "memory host" where
  "memoryHost = \<lparr>persist = memory_store, ieeeString = (\<lambda>a. toDigits 16 (unat a)),
     StandardNames = exampleNames\<rparr>"

lemma inj_exampleNames: "inj exampleNames"
proof (rule injI)
  fix c c' :: Capability
  show "exampleNames c = exampleNames c' \<Longrightarrow> c = c'"
    by (cases c; cases c') simp_all
qed

lemma memoryHost_ok: "host_ok memoryHost"
proof -
  have "ParseUint (toDigits 16 (unat (a :: IEEEAddress))) 16 = Some (unat a)" for a
    using unsigned_less [of a, where ?'a = nat] by (intro ParseUint_toDigits) simp_all
  then show ?thesis
    by (simp add: host_ok_def memoryHost_def inj_exampleNames mem.section_store_axioms)
qed

end
