(* ===== verification/Node.thy ===== *)
theory Node
  imports Host "HOL-Library.Multiset"
begin

text \<open>
  \<open>node.go\<close>: the inventory of a node and its translation into the input of the rules, the
  transaction sequence channel, and the choice of a device sub-identifier.
\<close>

section \<open>Inventory\<close>

text \<open>The descriptions a node reports (\<open>zigbee.NodeDescription\<close>,
  \<open>zigbee.EndpointDescription\<close>); the text of a logical type is the library's \<open>String\<close>.\<close>

datatype LogicalType = Coordinator | Router | EndDevice | UnknownLogicalType

record NodeDescription =
  LogicalType :: LogicalType
  ManufacturerCode :: "16 word"

record EndpointDescription =
  EndpointNumber :: Endpoint
  ProfileID :: "16 word"
  DeviceID :: "16 word"
  InClusterList :: "ClusterID list"
  OutClusterList :: "ClusterID list"

record productData =
  manufacturer :: string
  product :: string
  version :: string
  serial :: string

record endpointDetails =
  description :: EndpointDescription
  productInformation :: productData
  rulesOutput :: Output

text \<open>The node description is a pointer in the code; \<open>interrogateNode\<close>, which makes every
  inventory, returns one only with the description set.\<close>

record inventory =
  nodeDescription :: NodeDescription
  endpoints :: "(Endpoint, endpointDetails) gomap"

definition noProductData :: productData where
  "noProductData = \<lparr>manufacturer = [], product = [], version = [], serial = []\<rparr>"

definition toInputProductData :: "productData \<Rightarrow> InputProductData" where
  "toInputProductData p =
     \<lparr>ProductName = product p, Manufacturer = manufacturer p, Version = version p, Serial = serial p\<rparr>"

definition toInputEndpoint :: "Endpoint \<Rightarrow> EndpointDescription \<Rightarrow> InputEndpoint" where
  "toInputEndpoint i d =
     \<lparr>EndpointID = uint i, InputProfileID = uint (ProfileID d), InputDeviceID = uint (DeviceID d),
      InClusters = map uint (InClusterList d), OutClusters = map uint (OutClusterList d)\<rparr>"

definition addInputEndpoint :: "Endpoint \<times> endpointDetails \<Rightarrow> Input \<Rightarrow> Input" where
  "addInputEndpoint = (\<lambda>(i, details) ri.
     ri\<lparr>Product := AList.update (uint i) (toInputProductData (productInformation details)) (Product ri),
        Endpoint := AList.update (uint i) (toInputEndpoint i (description details)) (Endpoint ri)\<rparr>)"

definition toRulesInput :: "(LogicalType \<Rightarrow> string) \<Rightarrow> inventory \<Rightarrow> Input" where
  "toRulesInput typeString inven =
     fold addInputEndpoint (endpoints inven)
       \<lparr>Node = \<lparr>InputManufacturerCode = uint (ManufacturerCode (nodeDescription inven)),
                NodeType = typeString (LogicalType (nodeDescription inven))\<rparr>,
        Self = 0, Product = [], Endpoint = []\<rparr>"

section \<open>Transaction sequence numbers\<close>

text \<open>The buffered channel holds the numbers 0 to 254; taking one puts it back at the end.
  \<open>None\<close>: the receive would block on an empty channel.\<close>

definition makeTransactionSequence :: "8 word list" where
  "makeTransactionSequence = map word_of_nat [0..<255]"

fun nextTransactionSequence :: "8 word list \<Rightarrow> (8 word \<times> 8 word list) option" where
  "nextTransactionSequence [] = None"
| "nextTransactionSequence (nextSeq # rest) = Some (nextSeq, rest @ [nextSeq])"

section \<open>Sub-identifiers\<close>

definition nextDeviceSubIdentifier :: "(8 word, 'd) gomap \<Rightarrow> 8 word" where
  "nextDeviceSubIdentifier devices =
     (case find (\<lambda>i. map_of devices i = None) (map word_of_nat [0..<255]) of
        Some i \<Rightarrow> i
      | None \<Rightarrow> 255)"

section \<open>The properties\<close>

text \<open>The numbers a run of \<open>n\<close> requests receives.\<close>

fun takeSequences :: "nat \<Rightarrow> 8 word list \<Rightarrow> (8 word list \<times> 8 word list) option" where
  "takeSequences 0 q = Some ([], q)"
| "takeSequences (Suc n) q =
     (case nextTransactionSequence q of
        None \<Rightarrow> None
      | Some (x, q') \<Rightarrow> map_option (\<lambda>(xs, r). (x # xs, r)) (takeSequences n q'))"

lemma nextTransactionSequence_rotate1:
  "q \<noteq> [] \<Longrightarrow> nextTransactionSequence q = Some (hd q, rotate1 q)"
  by (cases q) auto

lemma takeSequences_rotate:
  "q \<noteq> [] \<Longrightarrow> takeSequences n q = Some (map (\<lambda>k. q ! (k mod length q)) [0..<n], rotate n q)"
proof (induction n arbitrary: q)
  case (Suc n)
  have "rotate1 q \<noteq> []" using Suc.prems by simp
  from Suc.IH [OF this] Suc.prems have "takeSequences (Suc n) q =
      Some (hd q # map (\<lambda>k. rotate1 q ! (k mod length q)) [0..<n], rotate n (rotate1 q))"
    by (simp add: nextTransactionSequence_rotate1)
  moreover have "rotate1 q ! (k mod length q) = q ! (Suc k mod length q)" for k
    using Suc.prems by (simp add: nth_rotate1 mod_Suc_eq)
  moreover have "hd q = q ! (0 mod length q)" using Suc.prems by (simp add: hd_conv_nth)
  moreover have "rotate n (rotate1 q) = rotate (Suc n) q" by (simp add: rotate1_rotate_swap)
  ultimately show ?case by (simp add: upt_conv_Cons map_Suc_upt [symmetric] del: upt_Suc)
qed simp

lemma mset_rotate1: "mset (rotate1 q) = mset q"
  by (cases q) auto

lemma makeTransactionSequence_length [simp]: "length makeTransactionSequence = 255"
  by (simp add: makeTransactionSequence_def)

text \<open>A node never runs out of sequence numbers and never blocks: the \<open>n\<close>-th request
  gets \<open>n mod 255\<close>, so 255 itself is never used, and the channel always holds the same
  numbers.\<close>

theorem transaction_sequence_cycle:
  "\<exists>q. takeSequences n makeTransactionSequence = Some (map (\<lambda>k. word_of_nat (k mod 255)) [0..<n], q) \<and>
       mset q = mset makeTransactionSequence \<and> 255 \<notin> set q"
proof -
  have "makeTransactionSequence \<noteq> []" by (simp add: makeTransactionSequence_def)
  from takeSequences_rotate [OF this, of n] have
    "takeSequences n makeTransactionSequence =
       Some (map (\<lambda>k. word_of_nat (k mod 255)) [0..<n], rotate n makeTransactionSequence)"
    by (simp add: makeTransactionSequence_def)
  moreover have "(255 :: 8 word) \<notin> set makeTransactionSequence"
  proof -
    have "(word_of_nat k :: 8 word) \<noteq> 255" if "k < 255" for k
    proof
      assume "(word_of_nat k :: 8 word) = 255"
      then have "unat (word_of_nat k :: 8 word) = unat (255 :: 8 word)" by simp
      then show False using that by (simp add: unat_of_nat take_bit_eq_mod)
    qed
    then show ?thesis by (auto simp: makeTransactionSequence_def)
  qed
  moreover have "mset (rotate n q) = mset q" for q :: "8 word list"
    by (induction n) (auto simp: mset_rotate1)
  ultimately show ?thesis by auto
qed

lemma word_below_255: "i \<noteq> (255 :: 8 word) \<Longrightarrow> unat i < 255"
proof -
  assume ne: "i \<noteq> 255"
  have "unat i < 256" using unsigned_less [of i, where ?'a = nat] by simp
  moreover have "unat i \<noteq> 255"
  proof
    assume "unat i = 255"
    then have "unat i = unat (255 :: 8 word)" by simp
    with ne show False by (blast dest: unsigned_word_eqI)
  qed
  ultimately show ?thesis by linarith
qed

lemma word_upto_255: "i \<in> word_of_nat ` {0..<255} \<longleftrightarrow> i \<noteq> (255 :: 8 word)"
proof
  assume "i \<in> word_of_nat ` {0..<255}"
  then obtain k where "k < 255" "i = word_of_nat k" by auto
  then have "unat i = k" by (simp add: unat_of_nat take_bit_eq_mod)
  with \<open>k < 255\<close> show "i \<noteq> 255" by auto
next
  assume "i \<noteq> 255"
  then have "unat i < 255" by (rule word_below_255)
  then show "i \<in> word_of_nat ` {0..<255}" by (intro image_eqI [of _ _ "unat i"]) auto
qed

text \<open>The sub-identifier chosen for a new device is the least one that is free; it
  collides with a device of the node exactly when all 256 sub-identifiers are in use.\<close>

theorem nextDeviceSubIdentifier_free:
  "(nextDeviceSubIdentifier m \<in> keys m \<longleftrightarrow> keys m = UNIV) \<and>
   {j. unat j < unat (nextDeviceSubIdentifier m)} \<subseteq> keys m"
proof (cases "find (\<lambda>i. map_of m i = None) (map word_of_nat [0..<255])")
  case None
  then have all: "j \<in> keys m" if "j \<noteq> 255" for j
    using that word_upto_255 [of j] by (auto simp: find_None_iff map_of_eq_None_keys)
  have next255: "nextDeviceSubIdentifier m = 255"
    using None by (simp add: nextDeviceSubIdentifier_def)
  moreover have "j \<in> keys m" if "unat j < unat (255 :: 8 word)" for j
    using that by (intro all) auto
  moreover from all have "keys m = UNIV" if "255 \<in> keys m" using that by (metis UNIV_eq_I)
  ultimately show ?thesis by auto
next
  case (Some i)
  then obtain n where n: "n < 255" "map_of m i = None" "i = word_of_nat n"
    "\<And>j. j < n \<Longrightarrow> map_of m (word_of_nat j) \<noteq> None"
    by (auto simp: find_Some_iff)
  have i: "unat i = n" using n(1,3) by (simp add: unat_of_nat take_bit_eq_mod)
  have "j \<in> keys m" if "unat j < n" for j
    using n(4) [OF that] by (simp add: map_of_eq_None_iff)
  moreover have "i \<notin> keys m" using n(2) by (simp add: map_of_eq_None_keys)
  moreover have "nextDeviceSubIdentifier m = i" using Some by (simp add: nextDeviceSubIdentifier_def)
  ultimately show ?thesis using i by auto
qed

lemma nextDeviceSubIdentifier_fresh:
  assumes "card (keys m) < 256"
  shows "map_of m (nextDeviceSubIdentifier m) = None"
proof -
  have ne: "keys m \<noteq> (UNIV :: 8 word set)" using assms by (auto simp: card_word)
  show ?thesis
  proof (cases "find (\<lambda>i. map_of m i = None) (map word_of_nat [0..<255])")
    case None
    then have "j \<in> keys m" if "j \<noteq> 255" for j
      using that word_upto_255 [of j] by (auto simp: find_None_iff map_of_eq_None_keys)
    with ne have "255 \<notin> keys m" by (metis UNIV_eq_I)
    with None show ?thesis by (simp add: nextDeviceSubIdentifier_def map_of_eq_None_keys)
  next
    case (Some i)
    then have "map_of m i = None" by (auto simp: find_Some_iff)
    with Some show ?thesis by (simp add: nextDeviceSubIdentifier_def)
  qed
qed

text \<open>The fold over the endpoints fills both maps of the input.\<close>

lemma addInputEndpoint_simps [simp]:
  "Node (addInputEndpoint (j, d) ri) = Node ri"
  "Product (addInputEndpoint (j, d) ri) =
     AList.update (uint j) (toInputProductData (productInformation d)) (Product ri)"
  "Endpoint (addInputEndpoint (j, d) ri) =
     AList.update (uint j) (toInputEndpoint j (description d)) (Endpoint ri)"
  by (simp_all add: addInputEndpoint_def)

lemma toRulesInput_fold_Node: "Node (fold addInputEndpoint eps ri) = Node ri"
  by (induction eps arbitrary: ri) auto

lemma toRulesInput_fold_Product_keys:
  "keys (Product (fold addInputEndpoint eps ri)) = keys (Product ri) \<union> uint ` keys eps"
proof (induction eps arbitrary: ri)
  case (Cons p eps)
  then show ?case by (cases p) simp
qed simp

lemma toRulesInput_fold_Endpoint_keys:
  "keys (Endpoint (fold addInputEndpoint eps ri)) = keys (Endpoint ri) \<union> uint ` keys eps"
proof (induction eps arbitrary: ri)
  case (Cons p eps)
  then show ?case by (cases p) simp
qed simp

lemma toRulesInput_fold_Product:
  "wf_map eps \<Longrightarrow> map_of (Product (fold addInputEndpoint eps ri)) (uint i) =
     (case map_of eps i of None \<Rightarrow> map_of (Product ri) (uint i)
      | Some d \<Rightarrow> Some (toInputProductData (productInformation d)))"
  by (induction eps arbitrary: ri)
     (auto simp: map_of_eq_None_keys split: option.split simp flip: word_uint_eq_iff dest: map_of_SomeD_keys)

lemma toRulesInput_fold_Endpoint:
  "wf_map eps \<Longrightarrow> map_of (Endpoint (fold addInputEndpoint eps ri)) (uint i) =
     (case map_of eps i of None \<Rightarrow> map_of (Endpoint ri) (uint i)
      | Some d \<Rightarrow> Some (toInputEndpoint i (description d)))"
  by (induction eps arbitrary: ri)
     (auto simp: map_of_eq_None_keys split: option.split simp flip: word_uint_eq_iff dest: map_of_SomeD_keys)

lemmas toRulesInput_folds = toRulesInput_fold_Node toRulesInput_fold_Product_keys toRulesInput_fold_Endpoint_keys
  toRulesInput_fold_Product toRulesInput_fold_Endpoint

text \<open>The input the rules are evaluated on describes the node: under each endpoint's
  number it has that endpoint's product data and description, under no other number
  anything, and the node's manufacturer code and type.\<close>

theorem toRulesInput_faithful:
  assumes "wf_map (endpoints inven)"
  shows "map_of (Product (toRulesInput str inven)) (uint i) =
           map_option (\<lambda>d. toInputProductData (productInformation d)) (map_of (endpoints inven) i) \<and>
         map_of (Endpoint (toRulesInput str inven)) (uint i) =
           map_option (\<lambda>d. toInputEndpoint i (description d)) (map_of (endpoints inven) i) \<and>
         keys (Product (toRulesInput str inven)) = uint ` keys (endpoints inven) \<and>
         keys (Endpoint (toRulesInput str inven)) = uint ` keys (endpoints inven) \<and>
         InputManufacturerCode (Node (toRulesInput str inven)) = uint (ManufacturerCode (nodeDescription inven)) \<and>
         NodeType (Node (toRulesInput str inven)) = str (LogicalType (nodeDescription inven))"
  using assms by (simp add: toRulesInput_def toRulesInput_folds split: option.split)

theorem toRulesInput_faithful_witness:
  "map_of (Endpoint (toRulesInput (\<lambda>_. ''router'')
     \<lparr>nodeDescription = \<lparr>LogicalType = Router, ManufacturerCode = 0x1234\<rparr>,
      endpoints = [(10, \<lparr>description = \<lparr>EndpointNumber = 10, ProfileID = 260, DeviceID = 1024,
        InClusterList = [0, 6], OutClusterList = []\<rparr>, productInformation = noProductData,
        rulesOutput = \<lparr>OutputCapabilities = []\<rparr>\<rparr>)]\<rparr>)) 10 =
     Some \<lparr>EndpointID = 10, InputProfileID = 260, InputDeviceID = 1024, InClusters = [0, 6], OutClusters = []\<rparr>"
  (is "map_of (Endpoint (toRulesInput _ ?inven)) 10 = _")
proof -
  have "wf_map (endpoints ?inven)" by simp
  from toRulesInput_faithful [OF this, of "\<lambda>_. ''router''" 10] show ?thesis
    by (simp add: toInputEndpoint_def)
qed

end
