(* ===== verification/Persistence.thy ===== *)
theory Persistence
  imports Host
begin

text \<open>
  \<open>persistence.go\<close>: where nodes and devices live in the persistence store, and how their
  lists are read back from it.
\<close>

definition nodeRoot :: path where
  "nodeRoot = [''Node'']"

definition nodePath :: "'s host \<Rightarrow> IEEEAddress \<Rightarrow> path" where
  "nodePath h i = [''Node'', ieeeString h i]"

definition deviceRoot :: "'s host \<Rightarrow> IEEEAddress \<Rightarrow> path" where
  "deviceRoot h i = nodePath h i @ [''Device'']"

definition devicePath :: "'s host \<Rightarrow> address \<Rightarrow> path" where
  "devicePath h i = deviceRoot h (IEEEAddress i) @ [Itoa (uint (SubIdentifier i))]"

text \<open>Each accessor opens the sections on its way, so each changes the store.\<close>

definition sectionRemoveNode :: "'s host \<Rightarrow> IEEEAddress \<Rightarrow> 's \<Rightarrow> bool \<times> 's" where
  "sectionRemoveNode h i s =
     p_remove (persist h) nodeRoot (ieeeString h i) (p_section (persist h) nodeRoot s)"

definition sectionForNode :: "'s host \<Rightarrow> IEEEAddress \<Rightarrow> 's \<Rightarrow> 's" where
  "sectionForNode h i s = p_section (persist h) (nodePath h i) s"

text \<open>Keys that do not parse as hexadecimal numbers are skipped.\<close>

definition nodeListFromPersistence :: "'s host \<Rightarrow> 's \<Rightarrow> IEEEAddress list \<times> 's" where
  "nodeListFromPersistence h s =
     (let s1 = p_section (persist h) nodeRoot s
      in (List.map_filter (\<lambda>k. map_option word_of_nat (ParseUint k 16))
            (p_keys (persist h) nodeRoot s1), s1))"

definition sectionRemoveDevice :: "'s host \<Rightarrow> address \<Rightarrow> 's \<Rightarrow> bool \<times> 's" where
  "sectionRemoveDevice h i s =
     (let s1 = p_section (persist h) (deviceRoot h (IEEEAddress i))
                 (sectionForNode h (IEEEAddress i) s)
      in p_remove (persist h) (deviceRoot h (IEEEAddress i)) (Itoa (uint (SubIdentifier i))) s1)"

definition sectionForDevice :: "'s host \<Rightarrow> address \<Rightarrow> 's \<Rightarrow> 's" where
  "sectionForDevice h i s =
     p_section (persist h) (devicePath h i) (sectionForNode h (IEEEAddress i) s)"

text \<open>\<open>uint8(i)\<close> keeps the low byte of what \<open>Atoi\<close> read.\<close>

definition deviceListFromPersistence :: "'s host \<Rightarrow> IEEEAddress \<Rightarrow> 's \<Rightarrow> address list \<times> 's" where
  "deviceListFromPersistence h i s =
     (let s1 = p_section (persist h) (deviceRoot h i) (sectionForNode h i s)
      in (List.map_filter (\<lambda>k. map_option (\<lambda>n. addressOf i (word_of_int n)) (Atoi k))
            (p_keys (persist h) (deviceRoot h i) s1), s1))"

section \<open>The persisted table\<close>

text \<open>What a store says of nodes and devices, read off its keys; \<open>canonical\<close> holds of a
  store in which only this code has created sections under \<open>Node\<close>.\<close>

definition nodeKeys :: "'s host \<Rightarrow> 's \<Rightarrow> IEEEAddress set" where
  "nodeKeys h s = {a. ieeeString h a \<in> set (p_keys (persist h) nodeRoot s)}"

definition deviceKeys :: "'s host \<Rightarrow> 's \<Rightarrow> address set" where
  "deviceKeys h s =
     {d. Itoa (uint (SubIdentifier d)) \<in> set (p_keys (persist h) (deviceRoot h (IEEEAddress d)) s)}"

definition canonical :: "'s host \<Rightarrow> 's \<Rightarrow> bool" where
  "canonical h s \<longleftrightarrow>
     (\<forall>k \<in> set (p_keys (persist h) nodeRoot s). \<exists>a. k = ieeeString h a) \<and>
     (\<forall>a. \<forall>k \<in> set (p_keys (persist h) (deviceRoot h a) s). \<exists>i :: 8 word. k = Itoa (uint i))"

lemmas path_defs = nodeRoot_def nodePath_def deviceRoot_def devicePath_def

lemma set_map_filter: "set (List.map_filter f xs) = {y. \<exists>x \<in> set xs. f x = Some y}"
  by (auto simp: List.map_filter_def image_iff) (metis option.sel option.distinct(1))+

subsection \<open>What each accessor does to the persisted table\<close>

named_theorems persisted_simps "the persisted table after an accessor of persistence.go"

lemma sectionForNode_nodes [persisted_simps]:
  "host_ok h \<Longrightarrow> nodeKeys h (sectionForNode h a s) = insert a (nodeKeys h s)"
  by (auto simp: nodeKeys_def sectionForNode_def path_defs section_store.keys_section [OF host_okD(1)]
      ieeeString_inject)

lemma sectionForNode_devices [persisted_simps]:
  "host_ok h \<Longrightarrow> deviceKeys h (sectionForNode h a s) = deviceKeys h s"
  by (auto simp: deviceKeys_def sectionForNode_def path_defs section_store.keys_section [OF host_okD(1)])

lemma sectionForDevice_nodes [persisted_simps]:
  "host_ok h \<Longrightarrow> nodeKeys h (sectionForDevice h d s) = insert (IEEEAddress d) (nodeKeys h s)"
  by (auto simp: nodeKeys_def sectionForDevice_def sectionForNode_def path_defs
      section_store.keys_section [OF host_okD(1)] ieeeString_inject)

lemma sectionForDevice_devices [persisted_simps]:
  "host_ok h \<Longrightarrow> deviceKeys h (sectionForDevice h d s) = insert d (deviceKeys h s)"
  by (auto simp: deviceKeys_def sectionForDevice_def sectionForNode_def path_defs
      section_store.keys_section [OF host_okD(1)] ieeeString_inject intro: IEEEAddressWithSubIdentifier.equality)

lemma sectionRemoveNode_nodes [persisted_simps]:
  "host_ok h \<Longrightarrow> nodeKeys h (snd (sectionRemoveNode h a s)) = nodeKeys h s - {a}"
  by (auto simp: nodeKeys_def sectionRemoveNode_def path_defs section_store.keys_section [OF host_okD(1)]
      section_store.keys_remove [OF host_okD(1)] ieeeString_inject)

lemma sectionRemoveNode_devices [persisted_simps]:
  "host_ok h \<Longrightarrow> deviceKeys h (snd (sectionRemoveNode h a s)) = {d \<in> deviceKeys h s. IEEEAddress d \<noteq> a}"
  by (auto simp: deviceKeys_def sectionRemoveNode_def path_defs section_store.keys_section [OF host_okD(1)]
      section_store.keys_remove [OF host_okD(1)] ieeeString_inject)

lemma sectionRemoveDevice_nodes [persisted_simps]:
  "host_ok h \<Longrightarrow> nodeKeys h (snd (sectionRemoveDevice h d s)) = insert (IEEEAddress d) (nodeKeys h s)"
  by (auto simp: nodeKeys_def sectionRemoveDevice_def sectionForNode_def path_defs Let_def
      section_store.keys_section [OF host_okD(1)] section_store.keys_remove [OF host_okD(1)] ieeeString_inject)

lemma sectionRemoveDevice_devices [persisted_simps]:
  "host_ok h \<Longrightarrow> deviceKeys h (snd (sectionRemoveDevice h d s)) = deviceKeys h s - {d}"
  by (auto simp: deviceKeys_def sectionRemoveDevice_def sectionForNode_def path_defs Let_def
      section_store.keys_section [OF host_okD(1)] section_store.keys_remove [OF host_okD(1)] ieeeString_inject
      intro: IEEEAddressWithSubIdentifier.equality split: if_splits)

subsection \<open>Canonical stores stay canonical\<close>

named_theorems canonical_intros "operations that keep a store canonical"

lemma canonical_sectionForNode [canonical_intros]:
  "host_ok h \<Longrightarrow> canonical h s \<Longrightarrow> canonical h (sectionForNode h a s)"
  unfolding canonical_def
  by (auto simp: sectionForNode_def path_defs section_store.keys_section [OF host_okD(1)])

lemma canonical_sectionForDevice [canonical_intros]:
  "host_ok h \<Longrightarrow> canonical h s \<Longrightarrow> canonical h (sectionForDevice h d s)"
  unfolding canonical_def
  by (auto simp: sectionForDevice_def sectionForNode_def path_defs section_store.keys_section [OF host_okD(1)])

lemma canonical_sectionRemoveNode [canonical_intros]:
  "host_ok h \<Longrightarrow> canonical h s \<Longrightarrow> canonical h (snd (sectionRemoveNode h a s))"
  unfolding canonical_def
  by (auto simp: sectionRemoveNode_def path_defs section_store.keys_section [OF host_okD(1)]
      section_store.keys_remove [OF host_okD(1)])

lemma canonical_sectionRemoveDevice [canonical_intros]:
  "host_ok h \<Longrightarrow> canonical h s \<Longrightarrow> canonical h (snd (sectionRemoveDevice h d s))"
  unfolding canonical_def
  by (auto simp: sectionRemoveDevice_def sectionForNode_def path_defs Let_def
      section_store.keys_section [OF host_okD(1)] section_store.keys_remove [OF host_okD(1)])

subsection \<open>Reading the lists back\<close>

lemma nodeListFromPersistence_nodeKeys:
  assumes "host_ok h" "canonical h s"
  shows "set (fst (nodeListFromPersistence h s)) = nodeKeys h s"
proof -
  let ?K = "set (p_keys (persist h) nodeRoot s)"
  have "set (p_keys (persist h) nodeRoot (p_section (persist h) nodeRoot s)) = ?K"
    by (rule section_store.keys_section_other [OF host_okD(1) [OF assms(1)]]) simp
  then have "set (fst (nodeListFromPersistence h s)) =
      {a. \<exists>k \<in> ?K. map_option word_of_nat (ParseUint k 16) = Some a}"
    by (simp add: nodeListFromPersistence_def Let_def set_map_filter)
  also have "\<dots> = nodeKeys h s"
  proof (intro set_eqI iffI)
    fix a :: IEEEAddress
    assume "a \<in> {a. \<exists>k \<in> ?K. map_option word_of_nat (ParseUint k 16) = Some a}"
    then obtain k where k: "k \<in> ?K" "map_option word_of_nat (ParseUint k 16) = Some a" by blast
    with assms(2) obtain b where "k = ieeeString h b" by (auto simp: canonical_def)
    with k show "a \<in> nodeKeys h s" by (simp add: nodeKeys_def host_okD(2) [OF assms(1)])
  next
    fix a
    assume "a \<in> nodeKeys h s"
    then show "a \<in> {a. \<exists>k \<in> ?K. map_option word_of_nat (ParseUint k 16) = Some a}"
      by (auto simp: nodeKeys_def host_okD(2) [OF assms(1)] intro!: bexI [of _ "ieeeString h a"])
  qed
  finally show ?thesis .
qed

lemma deviceListFromPersistence_deviceKeys:
  assumes "host_ok h" "canonical h s"
  shows "set (fst (deviceListFromPersistence h i s)) = {d \<in> deviceKeys h s. IEEEAddress d = i}"
proof -
  let ?K = "set (p_keys (persist h) (deviceRoot h i) s)"
  have "set (p_keys (persist h) (deviceRoot h i)
      (p_section (persist h) (deviceRoot h i) (sectionForNode h i s))) = ?K"
    by (simp add: sectionForNode_def path_defs section_store.keys_section [OF host_okD(1) [OF assms(1)]])
  then have "set (fst (deviceListFromPersistence h i s)) =
      {d. \<exists>k \<in> ?K. map_option (\<lambda>n. addressOf i (word_of_int n)) (Atoi k) = Some d}"
    by (simp add: deviceListFromPersistence_def Let_def set_map_filter)
  also have "\<dots> = {d \<in> deviceKeys h s. IEEEAddress d = i}"
  proof (intro set_eqI iffI)
    fix d
    assume "d \<in> {d. \<exists>k \<in> ?K. map_option (\<lambda>n. addressOf i (word_of_int n)) (Atoi k) = Some d}"
    then obtain k where k: "k \<in> ?K" "map_option (\<lambda>n. addressOf i (word_of_int n)) (Atoi k) = Some d"
      by blast
    with assms(2) obtain b :: "8 word" where "k = Itoa (uint b)" unfolding canonical_def by blast
    with k show "d \<in> {d \<in> deviceKeys h s. IEEEAddress d = i}" by (auto simp: deviceKeys_def)
  next
    fix d
    assume "d \<in> {d \<in> deviceKeys h s. IEEEAddress d = i}"
    then show "d \<in> {d. \<exists>k \<in> ?K. map_option (\<lambda>n. addressOf i (word_of_int n)) (Atoi k) = Some d}"
      by (auto simp: deviceKeys_def intro!: bexI [of _ "Itoa (uint (SubIdentifier d))"])
  qed
  finally show ?thesis .
qed

text \<open>Listing opens sections but changes neither the persisted table nor canonicity.\<close>

lemma nodeListFromPersistence_frame:
  assumes "host_ok h"
  shows "nodeKeys h (snd (nodeListFromPersistence h s)) = nodeKeys h s"
    "deviceKeys h (snd (nodeListFromPersistence h s)) = deviceKeys h s"
  by (auto simp: nodeListFromPersistence_def Let_def nodeKeys_def deviceKeys_def path_defs
      section_store.keys_section [OF host_okD(1) [OF assms]])

lemma deviceListFromPersistence_frame:
  assumes "host_ok h"
  shows "nodeKeys h (snd (deviceListFromPersistence h i s)) = insert i (nodeKeys h s)"
    "deviceKeys h (snd (deviceListFromPersistence h i s)) = deviceKeys h s"
  by (auto simp: deviceListFromPersistence_def sectionForNode_def Let_def nodeKeys_def deviceKeys_def
      path_defs section_store.keys_section [OF host_okD(1) [OF assms]] ieeeString_inject [OF assms])

lemma canonical_nodeListFromPersistence [canonical_intros]:
  "host_ok h \<Longrightarrow> canonical h s \<Longrightarrow> canonical h (snd (nodeListFromPersistence h s))"
  unfolding canonical_def
  by (auto simp: nodeListFromPersistence_def Let_def path_defs section_store.keys_section [OF host_okD(1)])

lemma canonical_deviceListFromPersistence [canonical_intros]:
  "host_ok h \<Longrightarrow> canonical h s \<Longrightarrow> canonical h (snd (deviceListFromPersistence h i s))"
  unfolding canonical_def
  by (auto simp: deviceListFromPersistence_def sectionForNode_def Let_def path_defs
      section_store.keys_section [OF host_okD(1)])

section \<open>The properties\<close>

text \<open>The list of nodes read back from persistence follows what was opened and removed:
  after \<open>sectionForNode\<close> it has that node and all it had before, after \<open>sectionRemoveNode\<close>
  all but that node, whose devices are gone with it.\<close>

theorem nodeList_roundtrip:
  assumes "host_ok h" "canonical h s"
  shows "set (fst (nodeListFromPersistence h (sectionForNode h a s))) =
           insert a (set (fst (nodeListFromPersistence h s))) \<and>
         set (fst (nodeListFromPersistence h (snd (sectionRemoveNode h a s)))) =
           set (fst (nodeListFromPersistence h s)) - {a} \<and>
         fst (deviceListFromPersistence h a (snd (sectionRemoveNode h a s))) = []"
proof -
  have "set (fst (deviceListFromPersistence h a (snd (sectionRemoveNode h a s)))) = {}"
    using assms by (simp add: deviceListFromPersistence_deviceKeys canonical_intros persisted_simps)
  with assms show ?thesis
    by (simp add: nodeListFromPersistence_nodeKeys canonical_intros persisted_simps)
qed

text \<open>The list of a node's devices follows \<open>sectionForDevice\<close> and \<open>sectionRemoveDevice\<close>
  in the same way, sub-identifiers surviving the trip through their decimal text; the
  devices of other nodes are not touched.\<close>

theorem deviceList_roundtrip:
  assumes "host_ok h" "canonical h s"
  shows "set (fst (deviceListFromPersistence h i (sectionForDevice h d s))) =
           (if IEEEAddress d = i then insert d else id) (set (fst (deviceListFromPersistence h i s))) \<and>
         set (fst (deviceListFromPersistence h i (snd (sectionRemoveDevice h d s)))) =
           set (fst (deviceListFromPersistence h i s)) - {d}"
  using assms
  by (auto simp: deviceListFromPersistence_deviceKeys canonical_intros persisted_simps)

theorem nodeList_roundtrip_witness:
  "set (fst (nodeListFromPersistence memoryHost (sectionForNode memoryHost 0xABCD memory_new))) = {0xABCD}"
proof -
  have "canonical memoryHost memory_new"
    by (simp add: canonical_def memoryHost_def memory_store_def memory_keys_def memory_new_def)
  moreover have "fst (nodeListFromPersistence memoryHost memory_new) = []"
    by (simp add: nodeListFromPersistence_def Let_def nodeRoot_def memoryHost_def memory_store_def
        memory_keys_def memory_new_def memory_section_def List.map_filter_def)
  ultimately show ?thesis
    using nodeList_roundtrip [OF memoryHost_ok, of memory_new "0xABCD"] by simp
qed

theorem deviceList_roundtrip_witness:
  "addressOf 0xABCD 7 \<in> set (fst (deviceListFromPersistence memoryHost 0xABCD
     (sectionForDevice memoryHost (addressOf 0xABCD 7) memory_new)))"
proof -
  have "canonical memoryHost memory_new"
    by (simp add: canonical_def memoryHost_def memory_store_def memory_keys_def memory_new_def)
  from deviceList_roundtrip [OF memoryHost_ok this, of "0xABCD" "addressOf 0xABCD 7"]
  show ?thesis by simp
qed

end
