(* ===== verification/Capability_Interface.thy ===== *)
theory Capability_Interface
  imports Node Persistence
begin

text \<open>
  \<open>implcaps/interface.go\<close>, \<open>implcaps/factory/mapping.go\<close>, \<open>implcaps/utils.go\<close>: what the
  gateway knows of a capability implementation. The gateway calls implementations through
  the Go interface \<open>ZDACapability\<close>; here that is a record of operations over a type \<open>'c\<close> of
  capability values, so the table and the enumeration are verified for every
  implementation that keeps the contract \<open>zda_capability\<close>.
\<close>

section \<open>Names\<close>

definition GenericProductInformation :: string where
  "GenericProductInformation = ''GenericProductInformation''"

definition ZCLTemperatureSensor :: string where
  "ZCLTemperatureSensor = ''ZCLTemperatureSensor''"

definition ZCLHumiditySensor :: string where
  "ZCLHumiditySensor = ''ZCLHumiditySensor''"

definition ZCLPressureSensor :: string where
  "ZCLPressureSensor = ''ZCLPressureSensor''"

definition ZCLIdentify :: string where
  "ZCLIdentify = ''ZCLIdentify''"

definition ZCLPowerSupply :: string where
  "ZCLPowerSupply = ''ZCLPowerSupply''"

definition GenericDeviceWorkarounds :: string where
  "GenericDeviceWorkarounds = ''GenericDeviceWorkarounds''"

lemmas implementation_names = GenericProductInformation_def ZCLTemperatureSensor_def
  ZCLHumiditySensor_def ZCLPressureSensor_def ZCLIdentify_def ZCLPowerSupply_def
  GenericDeviceWorkarounds_def

definition Mapping :: "(string, Capability) gomap" where
  "Mapping =
     [(GenericProductInformation, ProductInformationFlag),
      (ZCLTemperatureSensor, TemperatureSensorFlag),
      (ZCLHumiditySensor, RelativeHumiditySensorFlag),
      (ZCLPressureSensor, PressureSensorFlag),
      (ZCLIdentify, IdentifyFlag),
      (ZCLPowerSupply, PowerSupplyFlag),
      (GenericDeviceWorkarounds, DeviceWorkaroundsFlag)]"

text \<open>\<open>Get[T]\<close>: the value under a key when it has the wanted dynamic type (\<open>cast\<close> is the
  type assertion), the default otherwise.\<close>

definition Get :: "(any \<Rightarrow> 't option) \<Rightarrow> Settings \<Rightarrow> string \<Rightarrow> 't \<Rightarrow> 't" where
  "Get cast m k def =
     (case map_of m k of
        None \<Rightarrow> def
      | Some v \<Rightarrow> (case cast v of None \<Rightarrow> def | Some cV \<Rightarrow> cV))"

section \<open>The operations of an implementation\<close>

text \<open>What a call comes to when a panic in it is recovered by the caller.\<close>

datatype 'a outcome = Returns 'a | Panics

text \<open>
  One field per function of the Go interface, plus the factory \<open>factory.Create\<close> and the path
  of the section \<open>Init\<close> was given. An operation takes and returns the implementation's value
  and the environment. \<open>Load\<close> and \<open>Enumerate\<close> return whether to attach, and an error if
  there was one; \<open>Enumerate\<close> may also panic, which the gateway recovers from. A panic in
  \<open>Load\<close> or \<open>Detach\<close> ends the process, so there is no state after it to describe.
\<close>

record ('c, 's, 'x) zdaCapability =
  c_Create :: "string \<Rightarrow> ('s, 'x) env \<Rightarrow> 'c option \<times> ('s, 'x) env"
  c_Capability :: "'c \<Rightarrow> Capability"
  c_ImplName :: "'c \<Rightarrow> string"
  c_Section :: "'c \<Rightarrow> path"
  c_Init :: "address \<Rightarrow> path \<Rightarrow> 'c \<Rightarrow> ('s, 'x) env \<Rightarrow> 'c \<times> ('s, 'x) env"
  c_Load :: "'c \<Rightarrow> ('s, 'x) env \<Rightarrow> (bool \<times> goerr option) \<times> 'c \<times> ('s, 'x) env"
  c_Enumerate :: "Settings \<Rightarrow> 'c \<Rightarrow> ('s, 'x) env \<Rightarrow> (bool \<times> goerr option) outcome \<times> 'c \<times> ('s, 'x) env"
  c_Detach :: "DetachType \<Rightarrow> 'c \<Rightarrow> ('s, 'x) env \<Rightarrow> goerr option \<times> 'c \<times> ('s, 'x) env"

section \<open>The contract\<close>

text \<open>The events by which a consumer follows the table; only the table sends them.\<close>

fun table_event :: "event \<Rightarrow> bool" where
  "table_event (EvDeviceAdded _) = True"
| "table_event (EvDeviceRemoved _) = True"
| "table_event (EvCapabilityAdded _ _) = True"
| "table_event (EvCapabilityRemoved _ _) = True"
| "table_event _ = False"

text \<open>What an operation of an implementation may do to the environment: write at and below
  its own section, send events that are not about the table, and take transaction sequence
  numbers.\<close>

definition cap_effect :: "'s persist \<Rightarrow> path \<Rightarrow> ('s, 'x) env \<Rightarrow> ('s, 'x) env \<Rightarrow> bool" where
  "cap_effect P p e e' \<longleftrightarrow>
     (present P p (store e) \<longrightarrow> only_below P p (store e) (store e')) \<and>
     (\<exists>evs. events e' = events e @ evs \<and> (\<forall>ev \<in> set evs. \<not> table_event ev)) \<and>
     (\<forall>a. mset (sequence (nodeTx e' a)) = mset (sequence (nodeTx e a)) \<and>
          useAPSAck (nodeTx e' a) = useAPSAck (nodeTx e a))"

lemma cap_effect_refl [simp, intro]: "cap_effect P p e e"
  by (simp add: cap_effect_def)

lemma cap_effect_trans:
  assumes "cap_effect P p e e'" "cap_effect P p e' e''"
  shows "cap_effect P p e e''"
proof -
  have "only_below P p (store e) (store e'')" if "present P p (store e)"
    using that assms by (auto simp: cap_effect_def intro: only_below_trans only_below_present)
  moreover have "\<exists>evs. events e'' = events e @ evs \<and> (\<forall>ev \<in> set evs. \<not> table_event ev)"
    using assms unfolding cap_effect_def by (metis Un_iff append.assoc set_append)
  ultimately show ?thesis using assms by (simp add: cap_effect_def)
qed

text \<open>Everything but the outside world and the position in the sequence channels stays.\<close>

definition quiet :: "('s, 'x) env \<Rightarrow> ('s, 'x) env \<Rightarrow> bool" where
  "quiet e e' \<longleftrightarrow> store e' = store e \<and> events e' = events e \<and>
     (\<forall>a. mset (sequence (nodeTx e' a)) = mset (sequence (nodeTx e a)) \<and>
          useAPSAck (nodeTx e' a) = useAPSAck (nodeTx e a))"

lemma quiet_refl [simp, intro]: "quiet e e"
  by (simp add: quiet_def)

lemma quiet_trans: "quiet e e' \<Longrightarrow> quiet e' e'' \<Longrightarrow> quiet e e''"
  by (simp add: quiet_def)

lemma quiet_effect: "quiet e e' \<Longrightarrow> cap_effect P p e e'"
  by (simp add: quiet_def cap_effect_def)

locale zda_capability =
  fixes P :: "'s persist"
    and C :: "('c, 's, 'x) zdaCapability"
  assumes create_env: "quiet e (snd (c_Create C n e))"
    and create_name: "fst (c_Create C n e) = Some c \<Longrightarrow>
           c_ImplName C c = n \<and> map_of Mapping n = Some (c_Capability C c)"
    and init_section: "c_Section C (fst (c_Init C d p c e)) = p"
    and init_same: "c_Capability C (fst (c_Init C d p c e)) = c_Capability C c"
          "c_ImplName C (fst (c_Init C d p c e)) = c_ImplName C c"
    and init_env: "cap_effect P p e (snd (c_Init C d p c e))"
    and load_same: "c_Load C c e = (r, c', e') \<Longrightarrow>
          c_Capability C c' = c_Capability C c \<and> c_ImplName C c' = c_ImplName C c \<and>
          c_Section C c' = c_Section C c"
    and load_env: "c_Load C c e = (r, c', e') \<Longrightarrow> cap_effect P (c_Section C c) e e'"
    and enumerate_same: "c_Enumerate C m c e = (r', c', e') \<Longrightarrow>
          c_Capability C c' = c_Capability C c \<and> c_ImplName C c' = c_ImplName C c \<and>
          c_Section C c' = c_Section C c"
    and enumerate_env: "c_Enumerate C m c e = (r', c', e') \<Longrightarrow> cap_effect P (c_Section C c) e e'"
    and detach_same: "c_Detach C t c e = (r'', c', e') \<Longrightarrow>
          c_Capability C c' = c_Capability C c \<and> c_ImplName C c' = c_ImplName C c \<and>
          c_Section C c' = c_Section C c"
    and detach_env: "c_Detach C t c e = (r'', c', e') \<Longrightarrow> cap_effect P (c_Section C c) e e'"

end
