(* ===== verification/Table.thy ===== *)
theory Table
  imports Capability_Interface
begin

text \<open>
  \<open>table.go\<close>, \<open>device.go\<close>: the gateway's table of nodes and devices, kept in memory and in
  the persistence store at once. Go holds nodes and devices by pointer; here a node is named
  by its address and a device by its address and sub-identifier, which is where the table
  keeps them. Each function runs under the locks it takes, so each is one step.
\<close>

section \<open>State\<close>

text \<open>A device: the immutable parts (address, gateway, node, the two attachments) are given by
  its place in the table; \<open>results\<close> is the field of its \<open>enumeratedDeviceAttachment\<close>.
  \<open>productData\<close>, which no function reads or writes, is left out.\<close>

record 'c device =
  deviceId :: int
  deviceIdSet :: bool
  capabilities :: "(Capability, 'c) gomap"
  results :: "(Capability, EnumerationCapability) gomap"

text \<open>A node: \<open>enumerationSem\<close> says whether the semaphore is taken. The sequence channel and
  \<open>useAPSAck\<close> are in the environment, by the node's address.\<close>

record 'c node =
  device :: "(8 word, 'c device) gomap"
  enumerationSem :: bool
  enumerationState :: bool

record ('c, 's, 'x) ZDA =
  env :: "('s, 'x) env"
  node :: "(IEEEAddress, 'c node) gomap"

definition newDevice :: "'c device" where
  "newDevice = \<lparr>deviceId = 0, deviceIdSet = False, capabilities = [], results = []\<rparr>"

definition newNode :: "'c node" where
  "newNode = \<lparr>device = [], enumerationSem = False, enumerationState = False\<rparr>"

text \<open>Sending an event and a change of the store, on the whole gateway.\<close>

definition zSendEvent :: "event \<Rightarrow> ('c, 's, 'x) ZDA \<Rightarrow> ('c, 's, 'x) ZDA" where
  "zSendEvent ev z = z\<lparr>env := sendEvent ev (env z)\<rparr>"

definition onStore :: "('s \<Rightarrow> 's) \<Rightarrow> ('c, 's, 'x) ZDA \<Rightarrow> ('c, 's, 'x) ZDA" where
  "onStore f z = z\<lparr>env := (env z)\<lparr>store := f (store (env z))\<rparr>\<rparr>"

text \<open>A write through a node's or a device's pointer.\<close>

definition updNode :: "IEEEAddress \<Rightarrow> ('c node \<Rightarrow> 'c node) \<Rightarrow> ('c, 's, 'x) ZDA \<Rightarrow> ('c, 's, 'x) ZDA" where
  "updNode a f z =
     (case map_of (node z) a of
        None \<Rightarrow> z
      | Some n \<Rightarrow> z\<lparr>node := AList.update a (f n) (node z)\<rparr>)"

definition updDevice :: "address \<Rightarrow> ('c device \<Rightarrow> 'c device) \<Rightarrow> ('c, 's, 'x) ZDA \<Rightarrow> ('c, 's, 'x) ZDA" where
  "updDevice d f =
     updNode (IEEEAddress d) (\<lambda>n.
       case map_of (device n) (SubIdentifier d) of
         None \<Rightarrow> n
       | Some dev \<Rightarrow> n\<lparr>device := AList.update (SubIdentifier d) (f dev) (device n)\<rparr>)"

section \<open>Nodes\<close>

definition createNode :: "'s host \<Rightarrow> IEEEAddress \<Rightarrow> ('c, 's, 'x) ZDA \<Rightarrow> bool \<times> ('c, 's, 'x) ZDA" where
  "createNode h addr z =
     (case map_of (node z) addr of
        Some n \<Rightarrow> (False, z)
      | None \<Rightarrow>
          (let z1 = z\<lparr>node := AList.update addr newNode (node z),
                     env := (env z)\<lparr>nodeTx := (nodeTx (env z))
                       (addr := \<lparr>sequence = makeTransactionSequence, useAPSAck = False\<rparr>)\<rparr>\<rparr>
           in (True, onStore (sectionForNode h addr) z1)))"

definition getNode :: "IEEEAddress \<Rightarrow> ('c, 's, 'x) ZDA \<Rightarrow> 'c node option" where
  "getNode addr z = map_of (node z) addr"

definition removeNode :: "'s host \<Rightarrow> IEEEAddress \<Rightarrow> ('c, 's, 'x) ZDA \<Rightarrow> bool \<times> ('c, 's, 'x) ZDA" where
  "removeNode h addr z =
     (case map_of (node z) addr of
        None \<Rightarrow> (False, z)
      | Some n \<Rightarrow>
          (True, onStore (\<lambda>s. snd (sectionRemoveNode h addr s)) (z\<lparr>node := AList.delete addr (node z)\<rparr>)))"

section \<open>Devices\<close>

definition getDevice :: "address \<Rightarrow> ('c, 's, 'x) ZDA \<Rightarrow> 'c device option" where
  "getDevice d z =
     (case getNode (IEEEAddress d) z of
        None \<Rightarrow> None
      | Some n \<Rightarrow> map_of (device n) (SubIdentifier d))"

definition getDevicesOnNode :: "IEEEAddress \<Rightarrow> 'c node \<Rightarrow> address list" where
  "getDevicesOnNode a n = map (\<lambda>(i, d). addressOf a i) (device n)"

definition getDevices :: "('c, 's, 'x) ZDA \<Rightarrow> address list" where
  "getDevices z = concat (map (\<lambda>(a, n). getDevicesOnNode a n) (node z))"

definition createSpecificDevice ::
  "'s host \<Rightarrow> IEEEAddress \<Rightarrow> 8 word \<Rightarrow> ('c, 's, 'x) ZDA \<Rightarrow> address \<times> ('c, 's, 'x) ZDA" where
  "createSpecificDevice h a subId z =
     (let d = addressOf a subId;
          z1 = updNode a (\<lambda>n. n\<lparr>device := AList.update subId newDevice (device n)\<rparr>) z;
          z2 = onStore (sectionForDevice h d) z1;
          z3 = zSendEvent (EvDeviceAdded d) z2;
          z4 = zSendEvent (EvCapabilityAdded d EnumerateDeviceFlag) z3
      in (d, zSendEvent (EvCapabilityAdded d DeviceRemovalFlag) z4))"

definition createNextDevice ::
  "'s host \<Rightarrow> IEEEAddress \<Rightarrow> ('c, 's, 'x) ZDA \<Rightarrow> address \<times> ('c, 's, 'x) ZDA" where
  "createNextDevice h a z =
     createSpecificDevice h a
       (nextDeviceSubIdentifier (case getNode a z of None \<Rightarrow> [] | Some n \<Rightarrow> device n)) z"

definition setDeviceUniqueId ::
  "'s host \<Rightarrow> address \<Rightarrow> int \<Rightarrow> ('c, 's, 'x) ZDA \<Rightarrow> ('c, 's, 'x) ZDA" where
  "setDeviceUniqueId h d i z =
     onStore (\<lambda>s. p_set (persist h) (devicePath h d) ''UniqueId'' (PInt i) (sectionForDevice h d s))
       (updDevice d (\<lambda>dev. dev\<lparr>deviceId := i, deviceIdSet := True\<rparr>) z)"

section \<open>Capabilities of a device\<close>

definition capabilityRoot :: "'s host \<Rightarrow> address \<Rightarrow> path" where
  "capabilityRoot h d = devicePath h d @ [''Capability'']"

definition capabilityPath :: "'s host \<Rightarrow> address \<Rightarrow> Capability \<Rightarrow> path" where
  "capabilityPath h d cF = capabilityRoot h d @ [StandardNames h cF]"

definition attachCapabilityToDevice ::
  "'s host \<Rightarrow> ('c, 's, 'x) zdaCapability \<Rightarrow> address \<Rightarrow> 'c \<Rightarrow> ('c, 's, 'x) ZDA \<Rightarrow> ('c, 's, 'x) ZDA" where
  "attachCapabilityToDevice h C d c z =
     (let cF = c_Capability C c;
          z1 = updDevice d (\<lambda>dev. dev\<lparr>capabilities := AList.update cF c (capabilities dev)\<rparr>) z;
          z2 = onStore (\<lambda>s. p_section (persist h) (capabilityPath h d cF) (sectionForDevice h d s)) z1
      in zSendEvent (EvCapabilityAdded d cF) z2)"

definition detachCapabilityFromDevice ::
  "'s host \<Rightarrow> ('c, 's, 'x) zdaCapability \<Rightarrow> address \<Rightarrow> 'c \<Rightarrow> ('c, 's, 'x) ZDA \<Rightarrow> ('c, 's, 'x) ZDA" where
  "detachCapabilityFromDevice h C d c z =
     (let cF = c_Capability C c in
      case getDevice d z of
        None \<Rightarrow> z
      | Some dev \<Rightarrow>
          (case map_of (capabilities dev) cF of
             None \<Rightarrow> z
           | Some _ \<Rightarrow>
               (let z1 = zSendEvent (EvCapabilityRemoved d cF) z;
                    z2 = onStore (\<lambda>s. snd (p_remove (persist h) (capabilityRoot h d) (StandardNames h cF)
                           (p_section (persist h) (capabilityRoot h d) (sectionForDevice h d s)))) z1
                in updDevice d (\<lambda>dev. dev\<lparr>capabilities := AList.delete cF (capabilities dev)\<rparr>) z2)))"

text \<open>A call of an attached implementation's \<open>Detach\<close>: the implementation is a pointer, so
  what the call changes in it is seen in the table.\<close>

definition callDetach ::
  "('c, 's, 'x) zdaCapability \<Rightarrow> DetachType \<Rightarrow> address \<Rightarrow> Capability \<Rightarrow> 'c \<Rightarrow> ('c, 's, 'x) ZDA
    \<Rightarrow> goerr option \<times> 'c \<times> ('c, 's, 'x) ZDA" where
  "callDetach C t d cf impl z =
     (case c_Detach C t impl (env z) of
        (err, impl', e') \<Rightarrow>
          (err, impl', updDevice d (\<lambda>dev. dev\<lparr>capabilities := AList.update cf impl' (capabilities dev)\<rparr>)
                         (z\<lparr>env := e'\<rparr>)))"

text \<open>The loop over a device's capabilities that detaches each. An entry deleted before the
  loop reaches it is not visited. An error of \<open>Detach\<close> is only logged.\<close>

fun detachAll ::
  "'s host \<Rightarrow> ('c, 's, 'x) zdaCapability \<Rightarrow> address \<Rightarrow> Capability list \<Rightarrow> ('c, 's, 'x) ZDA \<Rightarrow> ('c, 's, 'x) ZDA" where
  "detachAll h C d [] z = z"
| "detachAll h C d (cf # cfs) z =
     (case Option.bind (getDevice d z) (\<lambda>dev. map_of (capabilities dev) cf) of
        None \<Rightarrow> detachAll h C d cfs z
      | Some impl \<Rightarrow>
          (case callDetach C DeviceRemoved d cf impl z of
             (err, impl', z1) \<Rightarrow> detachAll h C d cfs (detachCapabilityFromDevice h C d impl' z1)))"

definition removeDevice ::
  "'s host \<Rightarrow> ('c, 's, 'x) zdaCapability \<Rightarrow> address \<Rightarrow> ('c, 's, 'x) ZDA \<Rightarrow> bool \<times> ('c, 's, 'x) ZDA" where
  "removeDevice h C d z =
     (case getDevice d z of
        None \<Rightarrow> (False, z)
      | Some dev \<Rightarrow>
          (let z1 = detachAll h C d (map fst (capabilities dev)) z;
               z2 = zSendEvent (EvCapabilityRemoved d EnumerateDeviceFlag) z1;
               z3 = zSendEvent (EvCapabilityRemoved d DeviceRemovalFlag) z2;
               z4 = zSendEvent (EvDeviceRemoved d) z3;
               z5 = updNode (IEEEAddress d) (\<lambda>n. n\<lparr>device := AList.delete (SubIdentifier d) (device n)\<rparr>) z4
           in (True, onStore (\<lambda>s. snd (sectionRemoveDevice h d s)) z5)))"

section \<open>\<open>device.go\<close>\<close>

text \<open>\<open>n.nextTransactionSequence()\<close> on a node's channel. A receive from an empty channel would
  block; \<open>sequences_full\<close> below shows that no node's channel is ever empty, and the model
  leaves the number 0 there.\<close>

definition takeSequence :: "IEEEAddress \<Rightarrow> ('s, 'x) env \<Rightarrow> 8 word \<times> ('s, 'x) env" where
  "takeSequence a e =
     (case nextTransactionSequence (sequence (nodeTx e a)) of
        None \<Rightarrow> (0, e)
      | Some (seq, rest) \<Rightarrow>
          (seq, e\<lparr>nodeTx := (nodeTx e)(a := (nodeTx e a)\<lparr>sequence := rest\<rparr>)\<rparr>))"

text \<open>\<open>transmissionLookup\<close> reaches the node through the device's pointer. \<open>None\<close> as the
  device stands for any \<open>da.Device\<close> that is not one of the table's.\<close>

definition transmissionLookup ::
  "address option \<Rightarrow> ('s, 'x) env \<Rightarrow> (IEEEAddress \<times> Endpoint \<times> bool \<times> 8 word) \<times> ('s, 'x) env" where
  "transmissionLookup od e =
     (case od of
        None \<Rightarrow> ((0, 0, False, 0), e)
      | Some d \<Rightarrow>
          (case takeSequence (IEEEAddress d) e of
             (seq, e') \<Rightarrow>
               ((IEEEAddress d, DefaultGatewayHomeAutomationEndpoint,
                 useAPSAck (nodeTx e (IEEEAddress d)), seq), e')))"

text \<open>What \<open>Capability(..)\<close> of a device returns: one of the two attachments every device has,
  or what is under the flag in the map.\<close>

datatype 'c BasicCapability = EnumerationAttachment address | RemovalAttachment address | Implementation 'c

definition deviceCapability :: "address \<Rightarrow> 'c device \<Rightarrow> Capability \<Rightarrow> 'c BasicCapability option" where
  "deviceCapability a d cF =
     (case cF of
        EnumerateDeviceFlag \<Rightarrow> Some (EnumerationAttachment a)
      | DeviceRemovalFlag \<Rightarrow> Some (RemovalAttachment a)
      | _ \<Rightarrow> map_option Implementation (map_of (capabilities d) cF))"

definition deviceCapabilities :: "'c device \<Rightarrow> Capability list" where
  "deviceCapabilities d = map fst (capabilities d) @ [EnumerateDeviceFlag, DeviceRemovalFlag]"

section \<open>Looking into the table\<close>

named_theorems table_simps "the table, seen through its lookups, after each primitive change"

lemma zSendEvent_simps [simp]:
  "node (zSendEvent ev z) = node z" "env (zSendEvent ev z) = sendEvent ev (env z)"
  by (simp_all add: zSendEvent_def)

lemma onStore_simps [simp]:
  "node (onStore f z) = node z" "store (env (onStore f z)) = f (store (env z))"
  "events (env (onStore f z)) = events (env z)" "nodeTx (env (onStore f z)) = nodeTx (env z)"
  "world (env (onStore f z)) = world (env z)"
  by (simp_all add: onStore_def)

lemma getNode_node: "node z = node z' \<Longrightarrow> getNode a z = getNode a z'"
  by (simp add: getNode_def)

lemma getNode_frames [simp]:
  "getNode a (zSendEvent ev z) = getNode a z" "getNode a (onStore f z) = getNode a z"
  "getNode a (z\<lparr>env := e\<rparr>) = getNode a z"
  by (simp_all add: getNode_def)

lemma getDevice_frames [simp]:
  "getDevice d (zSendEvent ev z) = getDevice d z" "getDevice d (onStore f z) = getDevice d z"
  "getDevice d (z\<lparr>env := e\<rparr>) = getDevice d z"
  by (simp_all add: getDevice_def)

lemma env_updNode [simp]: "env (updNode a f z) = env z"
  by (simp add: updNode_def split: option.split)

lemma env_updDevice [simp]: "env (updDevice d f z) = env z"
  by (simp add: updDevice_def)

lemma getNode_updNode [table_simps]:
  "getNode b (updNode a f z) = (if b = a then map_option f (getNode a z) else getNode b z)"
  by (simp add: updNode_def getNode_def split: option.split)

lemma getDevice_updNode [table_simps]:
  "getDevice d (updNode a f z) =
     (if IEEEAddress d = a then Option.bind (getNode a z) (\<lambda>n. map_of (device (f n)) (SubIdentifier d))
      else getDevice d z)"
  by (simp add: getDevice_def getNode_updNode split: option.split)

lemma address_eq_iff: "(d :: address) = d' \<longleftrightarrow> IEEEAddress d = IEEEAddress d' \<and> SubIdentifier d = SubIdentifier d'"
  by (cases d; cases d') simp

lemma getNode_updDevice [table_simps]:
  "getNode a (updDevice d f z) =
     (if a = IEEEAddress d then map_option (\<lambda>n.
        case map_of (device n) (SubIdentifier d) of
          None \<Rightarrow> n
        | Some dev \<Rightarrow> n\<lparr>device := AList.update (SubIdentifier d) (f dev) (device n)\<rparr>) (getNode a z)
      else getNode a z)"
  by (simp add: updDevice_def getNode_updNode)

lemma getDevice_updDevice [simp]:
  "getDevice d' (updDevice d f z) = (if d' = d then map_option f (getDevice d z) else getDevice d' z)"
  by (auto simp: getDevice_def getNode_updDevice address_eq_iff split: option.splits)

lemma getNode_updDevice_None [simp]: "getNode a (updDevice d f z) = None \<longleftrightarrow> getNode a z = None"
  by (simp add: getNode_updDevice)

text \<open>Every map of the table has distinct keys.\<close>

definition table_wf :: "('c, 's, 'x) ZDA \<Rightarrow> bool" where
  "table_wf z \<longleftrightarrow> wf_map (node z) \<and>
     (\<forall>a n. getNode a z = Some n \<longrightarrow> wf_map (device n) \<and>
        (\<forall>i d. map_of (device n) i = Some d \<longrightarrow> wf_map (capabilities d)))"

lemma table_wfD:
  assumes "table_wf z"
  shows "wf_map (node z)" "getNode a z = Some n \<Longrightarrow> wf_map (device n)"
    "getDevice d z = Some dev \<Longrightarrow> wf_map (capabilities dev)"
  using assms unfolding table_wf_def getDevice_def by (auto split: option.splits)

lemma table_wf_frames [simp]:
  "table_wf (zSendEvent ev z) = table_wf z" "table_wf (onStore f z) = table_wf z"
  "table_wf (z\<lparr>env := e\<rparr>) = table_wf z"
  by (simp_all add: table_wf_def)

lemma table_wf_updNode:
  assumes "table_wf z"
    and "\<And>n. getNode a z = Some n \<Longrightarrow> wf_map (device (f n)) \<and>
           (\<forall>i d. map_of (device (f n)) i = Some d \<longrightarrow> wf_map (capabilities d))"
  shows "table_wf (updNode a f z)"
proof -
  have "wf_map (node (updNode a f z))"
    using assms(1) by (simp add: table_wf_def updNode_def split: option.split)
  with assms show ?thesis
    unfolding table_wf_def by (auto simp: getNode_updNode)
qed

lemma table_wf_updDevice:
  assumes "table_wf z" "\<And>dev. getDevice d z = Some dev \<Longrightarrow> wf_map (capabilities (f dev))"
  shows "table_wf (updDevice d f z)"
  unfolding updDevice_def
proof (rule table_wf_updNode [OF assms(1)])
  fix n
  assume n: "getNode (IEEEAddress d) z = Some n"
  with assms show "wf_map (device (case map_of (device n) (SubIdentifier d) of None \<Rightarrow> n
         | Some dev \<Rightarrow> n\<lparr>device := AList.update (SubIdentifier d) (f dev) (device n)\<rparr>)) \<and>
      (\<forall>i d'. map_of (device (case map_of (device n) (SubIdentifier d) of None \<Rightarrow> n
         | Some dev \<Rightarrow> n\<lparr>device := AList.update (SubIdentifier d) (f dev) (device n)\<rparr>)) i = Some d' \<longrightarrow>
         wf_map (capabilities d'))"
    unfolding table_wf_def by (auto simp: getDevice_def split: option.splits if_splits)
qed

end
