(* ===== verification/Zigbee_Interface.thy ===== *)
theory Zigbee_Interface
  imports Node
begin

text \<open>
  The interfaces of the Zigbee libraries (\<open>zigbee.Provider\<close>, the ZCL communicator, the
  constants of the ZCL) and of the retry library, none of which is part of the repository:
  records of functions, with the documented behaviour of \<open>retry.RetryWithValue\<close> as a
  contract. Calls to the network change only the outside world.
\<close>

section \<open>ZCL values\<close>

text \<open>The dynamic type of an attribute's value, as far as the code asks for it.\<close>

datatype zclValue =
    ZString string
  | ZUint64 "64 word"
  | ZInt64 "64 word"
  | ZUint8 "8 word"
  | ZOther nat

record AttributeDataTypeValue =
  DataType :: "8 word"
  Value :: zclValue

text \<open>One record of a read-attributes response; the value is a pointer, \<open>None\<close> when nil.\<close>

record ReadAttributeResponseRecord =
  Identifier :: AttributeID
  RecordStatus :: "8 word"
  DataTypeValue :: "AttributeDataTypeValue option"

text \<open>The constants of the ZCL library the code uses. \<open>zclStandard\<close> has the values the
  ZigBee Cluster Library specification assigns.\<close>

record zclConstants =
  BasicId :: ClusterID
  IdentifyId :: ClusterID
  PowerConfigurationId :: ClusterID
  TemperatureMeasurementId :: ClusterID
  PressureMeasurementId :: ClusterID
  RelativeHumidityMeasurementId :: ClusterID
  TypeUnsignedInt8 :: "8 word"
  TypeUnsignedInt16 :: "8 word"
  TypeSignedInt16 :: "8 word"
  ZCLVersion :: AttributeID
  ManufacturerName :: AttributeID
  ModelIdentifier :: AttributeID
  PowerSource :: AttributeID
  ManufacturerVersionDetails :: AttributeID
  SerialNumber :: AttributeID
  IdentifyTime :: AttributeID
  MeasuredValue :: AttributeID
  AttrMainsVoltage :: AttributeID
  AttrMainsFrequency :: AttributeID
  AttrBatteryVoltage :: "AttributeID list"
  AttrBatteryPercentage :: "AttributeID list"

definition zclStandard :: zclConstants where
  "zclStandard =
     \<lparr>BasicId = 0x0000, IdentifyId = 0x0003, PowerConfigurationId = 0x0001,
      TemperatureMeasurementId = 0x0402, PressureMeasurementId = 0x0403,
      RelativeHumidityMeasurementId = 0x0405,
      TypeUnsignedInt8 = 0x20, TypeUnsignedInt16 = 0x21, TypeSignedInt16 = 0x29,
      ZCLVersion = 0x0000, ManufacturerName = 0x0004, ModelIdentifier = 0x0005,
      PowerSource = 0x0007, ManufacturerVersionDetails = 0x000C, SerialNumber = 0x000D,
      IdentifyTime = 0x0000, MeasuredValue = 0x0000,
      AttrMainsVoltage = 0x0000, AttrMainsFrequency = 0x0001,
      AttrBatteryVoltage = [0x0020, 0x0040, 0x0060],
      AttrBatteryPercentage = [0x0021, 0x0041, 0x0061]\<rparr>"

section \<open>The network\<close>

text \<open>The arguments of \<open>ReadAttributes\<close> after the context; the manufacturer code is always
  \<open>zigbee.NoManufacturer\<close>.\<close>

record ReadRequest =
  readAddress :: IEEEAddress
  readAck :: bool
  readCluster :: ClusterID
  readSource :: Endpoint
  readDestination :: Endpoint
  readSequence :: "8 word"
  readAttributes :: "AttributeID list"

type_synonym ('r, 'x) call = "'x \<Rightarrow> (goerr + 'r) \<times> 'x"

type_synonym ('r, 's, 'x) attempt = "('s, 'x) env \<Rightarrow> (goerr + 'r) \<times> ('s, 'x) env"

record ('s, 'x) network =
  QueryNodeDescription :: "IEEEAddress \<Rightarrow> (NodeDescription, 'x) call"
  QueryNodeEndpoints :: "IEEEAddress \<Rightarrow> (Endpoint list, 'x) call"
  QueryNodeEndpointDescription :: "IEEEAddress \<Rightarrow> Endpoint \<Rightarrow> (EndpointDescription, 'x) call"
  ReadAttributes :: "ReadRequest \<Rightarrow> (ReadAttributeResponseRecord list, 'x) call"
  LogicalTypeString :: "LogicalType \<Rightarrow> string"
  retryNodeDescription :: "(NodeDescription, 's, 'x) attempt \<Rightarrow> (NodeDescription, 's, 'x) attempt"
  retryEndpoints :: "(Endpoint list, 's, 'x) attempt \<Rightarrow> (Endpoint list, 's, 'x) attempt"
  retryEndpointDescription ::
    "(EndpointDescription, 's, 'x) attempt \<Rightarrow> (EndpointDescription, 's, 'x) attempt"
  retryReadAttributes ::
    "(ReadAttributeResponseRecord list, 's, 'x) attempt \<Rightarrow> (ReadAttributeResponseRecord list, 's, 'x) attempt"

definition onWorld :: "('r, 'x) call \<Rightarrow> ('r, 's, 'x) attempt" where
  "onWorld f e = (case f (world e) of (r, x) \<Rightarrow> (r, e\<lparr>world := x\<rparr>))"

section \<open>Retrying\<close>

text \<open>
  \<open>RetryWithValue\<close> calls its function until a call succeeds or it gives up, with whatever
  error (the last one, or that of an expired context).
\<close>

inductive retried :: "('r, 's, 'x) attempt \<Rightarrow> ('s, 'x) env \<Rightarrow> (goerr + 'r) \<times> ('s, 'x) env \<Rightarrow> bool"
  for f :: "('r, 's, 'x) attempt" where
  give_up: "retried f e (Inl err, e)"
| success: "f e = (Inr v, e') \<Longrightarrow> retried f e (Inr v, e')"
| again: "f e = (Inl err, e') \<Longrightarrow> retried f e' r \<Longrightarrow> retried f e r"

definition retries :: "(('r, 's, 'x) attempt \<Rightarrow> ('r, 's, 'x) attempt) \<Rightarrow> bool" where
  "retries retry \<longleftrightarrow> (\<forall>f e. retried f e (retry f e))"

definition network_ok :: "('s, 'x) network \<Rightarrow> bool" where
  "network_ok N \<longleftrightarrow> retries (retryNodeDescription N) \<and> retries (retryEndpoints N) \<and>
     retries (retryEndpointDescription N) \<and> retries (retryReadAttributes N)"

text \<open>A successful result is that of some attempt, and what every attempt preserves, the
  retrying preserves.\<close>

lemma retried_success: "retried f e r \<Longrightarrow> fst r = Inr v \<Longrightarrow> \<exists>e1. f e1 = r"
  by (induction rule: retried.induct) auto

lemma retried_invariant:
  assumes "retried f e r" "I e" "\<And>e. I e \<Longrightarrow> I (snd (f e))"
  shows "I (snd r)"
  using assms(1,2)
proof (induction rule: retried.induct)
  case (success e v e')
  then show ?case using assms(3) [of e] by simp
next
  case (again e err e' r)
  then show ?case using assms(3) [of e] by simp
qed simp

text \<open>A retry of a fixed number of attempts keeps the contract.\<close>

fun retryTimes :: "nat \<Rightarrow> ('r, 's, 'x) attempt \<Rightarrow> ('r, 's, 'x) attempt" where
  "retryTimes 0 f e = (Inl DeadlineExceeded, e)"
| "retryTimes (Suc n) f e =
     (case f e of
        (Inr v, e') \<Rightarrow> (Inr v, e')
      | (Inl err, e') \<Rightarrow> if n = 0 then (Inl err, e') else retryTimes n f e')"

lemma retries_retryTimes: "retries (retryTimes n)"
  unfolding retries_def
proof (intro allI)
  fix f :: "('r, 's, 'x) attempt" and e
  show "retried f e (retryTimes n f e)"
  proof (induction n arbitrary: e)
    case (Suc n)
    then show ?case
      by (auto split: prod.split sum.split intro: retried.intros)
  qed (simp add: retried.intros)
qed

end
