(* ===== verification/Float64.thy ===== *)
theory Float64
  imports Complex_Main "HOL-Library.Log_Nat"
begin

text \<open>
  Go's \<open>float64\<close>, as far as the sensors use it: finite values as rational numbers, every
  operation the exact result rounded to the nearest value with 53 significant bits, ties to
  even. The readings and their differences stay far from the largest and the smallest normal
  values, so overflow and subnormal numbers do not arise and are not represented.
\<close>

definition roundEven :: "rat \<Rightarrow> int" where
  "roundEven q =
     (let f = \<lfloor>q\<rfloor>; r = q - of_int f
      in if r < 1 / 2 then f else if 1 / 2 < r then f + 1 else if even f then f else f + 1)"

text \<open>The exponent of the last of the 53 bits of a number other than 0: numerator and
  denominator give it up to one, a comparison settles which.\<close>

definition lastPlace :: "rat \<Rightarrow> int" where
  "lastPlace x =
     (let (a, b) = quotient_of \<bar>x\<bar>;
          k = int (floorlog 2 (nat a)) - int (floorlog 2 (nat b))
      in if 2 powi k \<le> \<bar>x\<bar> then k - 52 else k - 53)"

definition float64 :: "rat \<Rightarrow> rat" where
  "float64 x =
     (if x = 0 then 0
      else of_int (roundEven (x / 2 powi lastPlace x)) * 2 powi lastPlace x)"

definition fdiv :: "rat \<Rightarrow> rat \<Rightarrow> rat" where
  "fdiv x y = float64 (x / y)"

definition fadd :: "rat \<Rightarrow> rat \<Rightarrow> rat" where
  "fadd x y = float64 (x + y)"

definition fsub :: "rat \<Rightarrow> rat \<Rightarrow> rat" where
  "fsub x y = float64 (x - y)"

section \<open>The rounding error\<close>

lemma roundEven_error: "\<bar>of_int (roundEven q) - q\<bar> \<le> 1 / 2"
proof -
  have "0 \<le> q - of_int \<lfloor>q\<rfloor>" "q - of_int \<lfloor>q\<rfloor> < 1"
    using of_int_floor_le [of q] floor_correct [of q] by linarith+
  then show ?thesis
    by (auto simp: roundEven_def Let_def abs_le_iff)
qed

lemma roundEven_of_int [simp]: "roundEven (of_int n) = n"
  by (simp add: roundEven_def)

lemma floorlog_two_bounds:
  assumes "0 < n"
  shows "2 powi (int (floorlog 2 (nat n)) - 1) \<le> (of_int n :: rat)"
    "(of_int n :: rat) < 2 powi (int (floorlog 2 (nat n)))"
proof -
  let ?m = "nat n"
  from assms have m: "0 < ?m" "(of_int n :: rat) = of_nat ?m" by (simp_all add: of_nat_nat)
  have pos: "0 < floorlog 2 ?m" using m(1) by (simp add: floorlog_def)
  have "2 ^ (floorlog 2 ?m - 1) \<le> ?m" "?m < 2 ^ floorlog 2 ?m"
    using floorlog_bounds [of ?m 2] m(1) by simp_all
  then have "(2 :: rat) ^ (floorlog 2 ?m - 1) \<le> of_nat ?m" "of_nat ?m < (2 :: rat) ^ floorlog 2 ?m"
    using of_nat_le_iff [where ?'a = rat] of_nat_less_iff [where ?'a = rat]
    by (metis of_nat_numeral of_nat_power)+
  moreover have "int (floorlog 2 ?m) - 1 = int (floorlog 2 ?m - 1)" using pos by simp
  ultimately show "2 powi (int (floorlog 2 ?m) - 1) \<le> (of_int n :: rat)"
    "(of_int n :: rat) < 2 powi (int (floorlog 2 ?m))"
    unfolding m(2) by (simp_all only: power_int_of_nat)
qed

lemma lastPlace_bounds:
  assumes "x \<noteq> 0"
  shows "2 powi (lastPlace x + 52) \<le> \<bar>x\<bar>" "\<bar>x\<bar> < 2 powi (lastPlace x + 53)"
proof -
  obtain a b where ab: "quotient_of \<bar>x\<bar> = (a, b)" by (cases "quotient_of \<bar>x\<bar>")
  have b: "0 < b" using quotient_of_denom_pos [OF ab] .
  have x: "\<bar>x\<bar> = of_int a / of_int b" using quotient_of_div [OF ab] .
  with assms b have a: "0 < a" by (simp add: zero_less_divide_iff flip: zero_less_abs_iff)
  define i j where "i = int (floorlog 2 (nat a))" and "j = int (floorlog 2 (nat b))"
  note A = floorlog_two_bounds [OF a, folded i_def] and B = floorlog_two_bounds [OF b, folded j_def]
  have "2 powi (i - 1) / 2 powi j < (of_int a / of_int b :: rat)"
    using A(1) B(2) a b by (intro frac_less2) simp_all
  then have low: "2 powi (i - j - 1) < \<bar>x\<bar>"
    by (simp add: x power_int_diff)
  have "(of_int a / of_int b :: rat) < 2 powi i / 2 powi (j - 1)"
    using A(2) B(1) a b by (intro frac_less) simp_all
  then have high: "\<bar>x\<bar> < 2 powi (i - j + 1)"
    by (simp add: x power_int_diff power_int_add)
  have place: "lastPlace x = (if 2 powi (i - j) \<le> \<bar>x\<bar> then i - j - 52 else i - j - 53)"
    by (simp add: lastPlace_def ab i_def j_def Let_def)
  show "2 powi (lastPlace x + 52) \<le> \<bar>x\<bar>" "\<bar>x\<bar> < 2 powi (lastPlace x + 53)"
    using low high by (auto simp: place not_le ac_simps)
qed

text \<open>The error of one rounding is at most 2 to the power -53, relative to the value.\<close>

lemma float64_error: "\<bar>float64 x - x\<bar> \<le> \<bar>x\<bar> / 2 ^ 53"
proof (cases "x = 0")
  case False
  let ?u = "2 powi lastPlace x :: rat"
  have "\<bar>float64 x - x\<bar> = \<bar>of_int (roundEven (x / ?u)) - x / ?u\<bar> * ?u"
    using False by (simp add: float64_def field_simps flip: abs_mult_pos)
  also have "\<dots> \<le> 1 / 2 * ?u"
    using roundEven_error [of "x / ?u"] by (intro mult_right_mono) simp_all
  also have "\<dots> = 2 powi (lastPlace x + 52) / 2 ^ 53"
    by (simp add: power_int_add)
  also have "\<dots> \<le> \<bar>x\<bar> / 2 ^ 53"
    using lastPlace_bounds(1) [OF False] by (intro divide_right_mono) simp_all
  finally show ?thesis .
qed (simp add: float64_def)

lemma float64_zero [simp]: "float64 0 = 0"
  by (simp add: float64_def)

text \<open>Whole numbers below 2 to the power 53 are exact.\<close>

lemma float64_of_int [simp]:
  assumes "\<bar>n\<bar> < 2 ^ 53"
  shows "float64 (of_int n) = of_int n"
proof (cases "n = 0")
  case False
  let ?x = "of_int n :: rat"
  have x: "?x \<noteq> 0" using False by simp
  have "2 powi (lastPlace ?x + 52) \<le> \<bar>?x\<bar>" by (rule lastPlace_bounds [OF x])
  also have "\<bar>?x\<bar> < 2 powi 53"
    using assms of_int_less_iff [of "\<bar>n\<bar>" "2 ^ 53", where ?'a = rat] by simp
  finally have "2 powi (lastPlace ?x + 52) < (2 :: rat) powi 53" .
  then have "\<not> 53 \<le> lastPlace ?x + 52"
    using power_int_increasing [of 53 "lastPlace ?x + 52" "2 :: rat"] by linarith
  then have "lastPlace ?x = - int (nat (- lastPlace ?x))" by simp
  then obtain k where k: "lastPlace ?x = - int k" ..
  have "?x / 2 powi lastPlace ?x = of_int (n * 2 ^ k)"
    by (simp add: k power_int_minus divide_inverse)
  then have "float64 ?x = of_int (n * 2 ^ k) * 2 powi lastPlace ?x"
    using x by (simp only: float64_def roundEven_of_int if_False)
  also have "\<dots> = of_int n" by (simp add: k power_int_minus field_simps)
  finally show ?thesis .
qed simp

end
