(* ===== verification/Implementation_Interface.thy ===== *)
theory Implementation_Interface
  imports Table Zigbee_Interface Float64 "HOL-Library.Signed_Division"
begin

text \<open>
  What the capability implementations take from their surroundings: \<open>implcaps.ZDAInterface\<close>
  (the ZCL communicator, the node binder, \<open>TransmissionLookup\<close>, \<open>SendEvent\<close>), the clock, and
  the converters of the persistence library. The communicator, the binder, the converters
  and the clock are not part of the repository: they are fields of the record
  \<open>zdaInterface\<close>, the converters with their documented round trip as a contract.
\<close>

section \<open>Requests\<close>

text \<open>The arguments of \<open>ConfigureReporting\<close> after the context; no manufacturer code. The
  reportable change is \<open>None\<close> for nil.\<close>

record ReportingRequest =
  confAddress :: IEEEAddress
  confAck :: bool
  confCluster :: ClusterID
  confSource :: Endpoint
  confDestination :: Endpoint
  confSequence :: "8 word"
  confAttribute :: AttributeID
  confDataType :: "8 word"
  confMinimum :: "16 word"
  confMaximum :: "16 word"
  confChange :: "int option"

text \<open>The parts of the \<open>Identify\<close> command that vary.\<close>

record IdentifyRequest =
  identAddress :: IEEEAddress
  identAck :: bool
  identSequence :: "8 word"
  identSource :: Endpoint
  identDestination :: Endpoint
  identTime :: "16 word"

section \<open>The interface\<close>

record ('s, 'x) zdaInterface =
  sections :: "'s persist"
  zcl :: zclConstants
  encEndpoint :: "Endpoint \<Rightarrow> pval"
  decEndpoint :: "pval \<Rightarrow> Endpoint option"
  encClusterID :: "ClusterID \<Rightarrow> pval"
  decClusterID :: "pval \<Rightarrow> ClusterID option"
  encAttributeID :: "AttributeID \<Rightarrow> pval"
  decAttributeID :: "pval \<Rightarrow> AttributeID option"
  encDataType :: "8 word \<Rightarrow> pval"
  decDataType :: "pval \<Rightarrow> 8 word option"
  encDuration :: "int \<Rightarrow> pval"
  decDuration :: "pval \<Rightarrow> int option"
  encTime :: "int \<Rightarrow> pval"
  decTime :: "pval \<Rightarrow> int option"
  BindNodeToController :: "IEEEAddress \<Rightarrow> Endpoint \<Rightarrow> Endpoint \<Rightarrow> ClusterID \<Rightarrow> (unit, 'x) call"
  ConfigureReporting :: "ReportingRequest \<Rightarrow> (unit, 'x) call"
  ReadOnce :: "ReadRequest \<Rightarrow> (ReadAttributeResponseRecord list, 'x) call"
  RequestIdentify :: "IdentifyRequest \<Rightarrow> (unit, 'x) call"
  Now :: "'x \<Rightarrow> int \<times> 'x"

text \<open>What a converter stored, its counterpart reads back; a duration when it is a whole
  number of milliseconds. Instants and durations are in nanoseconds.\<close>

definition converters_ok :: "('s, 'x) zdaInterface \<Rightarrow> bool" where
  "converters_ok I \<longleftrightarrow>
     (\<forall>v. decEndpoint I (encEndpoint I v) = Some v) \<and>
     (\<forall>v. decClusterID I (encClusterID I v) = Some v) \<and>
     (\<forall>v. decAttributeID I (encAttributeID I v) = Some v) \<and>
     (\<forall>v. decDataType I (encDataType I v) = Some v) \<and>
     (\<forall>v. 10 ^ 6 dvd v \<longrightarrow> decDuration I (encDuration I v) = Some v)"

lemma converters_okD:
  assumes "converters_ok I"
  shows "decEndpoint I (encEndpoint I v1) = Some v1" "decClusterID I (encClusterID I v2) = Some v2"
    "decAttributeID I (encAttributeID I v3) = Some v3" "decDataType I (encDataType I v4) = Some v4"
    "10 ^ 6 dvd v5 \<Longrightarrow> decDuration I (encDuration I v5) = Some v5"
  using assms by (simp_all add: converters_ok_def)

text \<open>\<open>time.Second\<close> and its multiples.\<close>

abbreviation second :: int where
  "second \<equiv> 1000000000"

abbreviation minute :: int where
  "minute \<equiv> 60 * second"

text \<open>The zero \<open>time.Time\<close>, relative to the Unix epoch.\<close>

definition zeroTime :: int where
  "zeroTime = - 62135596800 * second"

section \<open>Storing and retrieving\<close>

definition putKey :: "('s, 'x) zdaInterface \<Rightarrow> path \<Rightarrow> string \<Rightarrow> pval \<Rightarrow> ('s, 'x) env \<Rightarrow> ('s, 'x) env" where
  "putKey I p k v e = e\<lparr>store := p_set (sections I) p k v (store e)\<rparr>"

definition deleteKey :: "('s, 'x) zdaInterface \<Rightarrow> path \<Rightarrow> string \<Rightarrow> ('s, 'x) env \<Rightarrow> ('s, 'x) env" where
  "deleteKey I p k e = e\<lparr>store := p_delete (sections I) p k (store e)\<rparr>"

definition openSection :: "('s, 'x) zdaInterface \<Rightarrow> path \<Rightarrow> ('s, 'x) env \<Rightarrow> ('s, 'x) env" where
  "openSection I p e = e\<lparr>store := p_section (sections I) p (store e)\<rparr>"

definition retrieve ::
  "('s, 'x) zdaInterface \<Rightarrow> (pval \<Rightarrow> 't option) \<Rightarrow> path \<Rightarrow> string \<Rightarrow> ('s, 'x) env \<Rightarrow> 't option" where
  "retrieve I dec p k e = Option.bind (p_get (sections I) p k (store e)) dec"

definition retrieveOr ::
  "('s, 'x) zdaInterface \<Rightarrow> (pval \<Rightarrow> 't option) \<Rightarrow> path \<Rightarrow> string \<Rightarrow> 't \<Rightarrow> ('s, 'x) env \<Rightarrow> 't" where
  "retrieveOr I dec p k def e = (case retrieve I dec p k e of None \<Rightarrow> def | Some v \<Rightarrow> v)"

definition boolKey :: "('s, 'x) zdaInterface \<Rightarrow> path \<Rightarrow> string \<Rightarrow> ('s, 'x) env \<Rightarrow> bool" where
  "boolKey I p k e = (case sectionBool (sections I) p k (store e) of None \<Rightarrow> False | Some b \<Rightarrow> b)"

definition floatKey :: "('s, 'x) zdaInterface \<Rightarrow> path \<Rightarrow> string \<Rightarrow> ('s, 'x) env \<Rightarrow> rat" where
  "floatKey I p k e = (case sectionFloat (sections I) p k (store e) of None \<Rightarrow> 0 | Some x \<Rightarrow> x)"

definition stringKey :: "('s, 'x) zdaInterface \<Rightarrow> path \<Rightarrow> string \<Rightarrow> ('s, 'x) env \<Rightarrow> string" where
  "stringKey I p k e = (case sectionString (sections I) p k (store e) of None \<Rightarrow> [] | Some t \<Rightarrow> t)"

definition readClock :: "('s, 'x) zdaInterface \<Rightarrow> ('s, 'x) env \<Rightarrow> int \<times> ('s, 'x) env" where
  "readClock I e = (case Now I (world e) of (t, x) \<Rightarrow> (t, e\<lparr>world := x\<rparr>))"

text \<open>\<open>converter.Store(s, k, time.Now(), converter.TimeEncoder)\<close>\<close>

definition storeNow :: "('s, 'x) zdaInterface \<Rightarrow> path \<Rightarrow> string \<Rightarrow> ('s, 'x) env \<Rightarrow> ('s, 'x) env" where
  "storeNow I p k e = (case readClock I e of (t, e1) \<Rightarrow> putKey I p k (encTime I t) e1)"

section \<open>Settings\<close>

fun castEndpoint :: "any \<Rightarrow> Endpoint option" where
  "castEndpoint (AnyEndpoint e) = Some e"
| "castEndpoint _ = None"

fun castBool :: "any \<Rightarrow> bool option" where
  "castBool (AnyBool b) = Some b"
| "castBool _ = None"

fun castString :: "any \<Rightarrow> string option" where
  "castString (AnyString t) = Some t"
| "castString _ = None"

section \<open>What each of these does to the environment\<close>

text \<open>
  An implementation's operation is a sequence of these. Each keeps \<open>cap_effect\<close> from a fixed
  starting point: \<open>effect_rules\<close> step backwards over a term, \<open>effect_elims\<close> over an equation
  a case split has left.
\<close>

named_theorems effect_rules "steps within the section of an implementation, as terms"
named_theorems effect_elims "steps within the section of an implementation, as equations"

lemma cap_effect_quiet: "cap_effect P p e0 e \<Longrightarrow> quiet e e' \<Longrightarrow> cap_effect P p e0 e'"
  by (blast intro: cap_effect_trans quiet_effect)

lemma effect_onWorld [effect_elims]:
  "onWorld f e = (r, e') \<Longrightarrow> cap_effect P p e0 e \<Longrightarrow> cap_effect P p e0 e'"
  by (erule cap_effect_quiet) (auto simp: onWorld_def quiet_def split: prod.splits)

lemma effect_readClock [effect_elims]:
  "readClock I e = (t, e') \<Longrightarrow> cap_effect P p e0 e \<Longrightarrow> cap_effect P p e0 e'"
  by (erule cap_effect_quiet) (auto simp: readClock_def quiet_def split: prod.splits)

lemma effect_transmissionLookup [effect_elims]:
  "transmissionLookup d e = (r, e') \<Longrightarrow> cap_effect P p e0 e \<Longrightarrow> cap_effect P p e0 e'"
  by (erule cap_effect_quiet)
     (auto simp: transmissionLookup_def takeSequence_def quiet_def elim!: nextTransactionSequence.elims
       split: prod.splits option.splits if_splits)

lemma effect_sendEvent [effect_rules]:
  "\<not> table_event ev \<Longrightarrow> cap_effect P p e0 e \<Longrightarrow> cap_effect P p e0 (sendEvent ev e)"
  by (erule cap_effect_trans) (simp add: cap_effect_def)

lemma cap_effect_store:
  assumes "cap_effect P p e0 e"
    and "present P p (store e) \<Longrightarrow> only_below P p (store e) s"
  shows "cap_effect P p e0 (e\<lparr>store := s\<rparr>)"
  using assms(1) by (rule cap_effect_trans) (use assms(2) in \<open>simp add: cap_effect_def\<close>)

text \<open>What the section names of a store over which \<open>section_store\<close> holds may do.\<close>

lemma effect_putKey [effect_rules]:
  "section_store (sections I) \<Longrightarrow> prefix p q \<Longrightarrow> cap_effect (sections I) p e0 e \<Longrightarrow>
     cap_effect (sections I) p e0 (putKey I q k v e)"
  unfolding putKey_def by (rule cap_effect_store) (auto intro: section_store.set_only_below)

lemma effect_deleteKey [effect_rules]:
  "section_store (sections I) \<Longrightarrow> prefix p q \<Longrightarrow> cap_effect (sections I) p e0 e \<Longrightarrow>
     cap_effect (sections I) p e0 (deleteKey I q k e)"
  unfolding deleteKey_def by (rule cap_effect_store) (auto intro: section_store.delete_only_below)

lemma effect_openSection [effect_rules]:
  "section_store (sections I) \<Longrightarrow> prefix p q \<Longrightarrow> cap_effect (sections I) p e0 e \<Longrightarrow>
     cap_effect (sections I) p e0 (openSection I q e)"
  unfolding openSection_def by (rule cap_effect_store) (auto intro: section_store.section_only_below)

lemma effect_storeNow [effect_rules]:
  "section_store (sections I) \<Longrightarrow> prefix p q \<Longrightarrow> cap_effect (sections I) p e0 e \<Longrightarrow>
     cap_effect (sections I) p e0 (storeNow I q k e)"
  unfolding storeNow_def by (auto split: prod.split intro: effect_rules effect_elims)

text \<open>Asking the world, or for a sequence number, stores nothing.\<close>

lemma onWorld_store: "onWorld f e = (r, e') \<Longrightarrow> store e' = store e"
  by (auto simp: onWorld_def split: prod.splits)

lemma transmissionLookup_store: "transmissionLookup d e = (r, e') \<Longrightarrow> store e' = store e"
  by (auto simp: transmissionLookup_def takeSequence_def split: option.splits prod.splits)

end
