(* ===== verification/Monitor.thy ===== *)
theory Monitor
  imports Implementation_Interface
begin

text \<open>
  \<open>attribute/monitor.go\<close>: the attribute monitor. It asks a device to report an attribute,
  polls it if that fails, and hands every report or read response for the attribute to a
  callback. Its state is the record \<open>zclMonitor\<close>; the goroutine \<open>poller\<close> is modelled by the
  number of pollers running and its steps, the channel \<open>pollerStop\<close> (capacity 1) by its one
  slot and whether it is closed.
\<close>

section \<open>Configuration\<close>

datatype PollingMode = PollIfReportingFailed | AlwaysPoll | NeverPoll

record PollingConfig =
  pollMode :: PollingMode
  Interval :: int

datatype ReportingMode = AttemptConfigureReporting | NeverConfigureReporting

record ReportingConfig =
  reportMode :: ReportingMode
  MinimumInterval :: int
  MaximumInterval :: int
  ReportableChange :: int

definition ReportingConfiguredKey :: string where
  "ReportingConfiguredKey = ''ReportingConfigured''"

definition PollingConfiguredKey :: string where
  "PollingConfiguredKey = ''PollingConfigured''"

definition PollingIntervalKey :: string where
  "PollingIntervalKey = ''PollingInterval''"

definition RemoteEndpointKey :: string where
  "RemoteEndpointKey = ''RemoteEndpoint''"

definition ClusterIdKey :: string where
  "ClusterIdKey = ''ClusterID''"

definition AttributeIdKey :: string where
  "AttributeIdKey = ''AttributeID''"

definition AttributeDataTypeKey :: string where
  "AttributeDataTypeKey = ''AttributeDataType''"

lemmas monitor_keys = ReportingConfiguredKey_def PollingConfiguredKey_def PollingIntervalKey_def
  RemoteEndpointKey_def ClusterIdKey_def AttributeIdKey_def AttributeDataTypeKey_def

section \<open>State\<close>

text \<open>
  \<open>m_registered\<close> are the matches this monitor has registered with the communicator and not
  unregistered, \<open>m_match\<close> is the field \<open>match\<close>; matches are numbered in the order
  \<open>NewMatch\<close> makes them. \<open>m_ticker\<close> is the interval of the ticker \<open>ticker\<close> points to.
  \<open>m_crashed\<close>: a goroutine has panicked where nothing recovers, and the process has ended.
\<close>

record zclMonitor =
  m_config :: path
  m_device :: address
  m_match :: "nat option"
  m_registered :: "nat list"
  m_matches :: nat
  m_ieee :: IEEEAddress
  m_remote :: Endpoint
  m_local :: Endpoint
  m_cluster :: ClusterID
  m_attribute :: AttributeID
  m_dataType :: "8 word"
  m_ticker :: "int option"
  m_stop :: bool
  m_closed :: bool
  m_pollers :: nat
  m_crashed :: bool

definition NewMonitor :: zclMonitor where
  "NewMonitor =
     \<lparr>m_config = [], m_device = addressOf 0 0, m_match = None, m_registered = [], m_matches = 0,
      m_ieee = 0, m_remote = 0, m_local = 0, m_cluster = 0, m_attribute = 0, m_dataType = 0,
      m_ticker = None, m_stop = False, m_closed = False, m_pollers = 0, m_crashed = False\<rparr>"

definition monitorInit :: "path \<Rightarrow> address \<Rightarrow> zclMonitor \<Rightarrow> zclMonitor" where
  "monitorInit p d m = m\<lparr>m_config := p, m_device := d\<rparr>"

section \<open>Attaching\<close>

text \<open>Registering the match made from the monitor's filter and handler.\<close>

definition registerMatch :: "zclMonitor \<Rightarrow> zclMonitor" where
  "registerMatch m =
     m\<lparr>m_match := Some (m_matches m), m_registered := m_registered m @ [m_matches m],
       m_matches := Suc (m_matches m)\<rparr>"

definition unregisterMatch :: "zclMonitor \<Rightarrow> zclMonitor" where
  "unregisterMatch m = m\<lparr>m_registered := filter (\<lambda>i. m_match m \<noteq> Some i) (m_registered m)\<rparr>"

text \<open>\<open>time.NewTicker\<close> panics on an interval that is not positive.\<close>

definition startPoller :: "int \<Rightarrow> zclMonitor \<Rightarrow> zclMonitor outcome" where
  "startPoller duration m =
     (if duration \<le> 0 then Panics
      else Returns (m\<lparr>m_ticker := Some duration, m_pollers := Suc (m_pollers m)\<rparr>))"

definition reattach ::
  "('s, 'x) zdaInterface \<Rightarrow> zclMonitor \<Rightarrow> ('s, 'x) env \<Rightarrow> goerr option outcome \<times> zclMonitor" where
  "reattach I m e =
     (let m1 = registerMatch m in
      if boolKey I (m_config m) PollingConfiguredKey e then
        (case startPoller (retrieveOr I (decDuration I) (m_config m) PollingIntervalKey (5 * minute) e) m1 of
           Panics \<Rightarrow> (Panics, m1)
         | Returns m2 \<Rightarrow> (Returns None, m2))
      else (Returns None, m1))"

text \<open>\<open>Load\<close>: the fields are set one by one, so an error leaves the later ones as they were.\<close>

definition missing :: "string \<Rightarrow> goerr option outcome" where
  "missing k = Returns (Some (Err (''monitor missing config parameter: '' @ k)))"

definition monitorLoad ::
  "('s, 'x) zdaInterface \<Rightarrow> zclMonitor \<Rightarrow> ('s, 'x) env \<Rightarrow> goerr option outcome \<times> zclMonitor \<times> ('s, 'x) env" where
  "monitorLoad I m e =
     (case transmissionLookup (Some (m_device m)) e of
        ((ieee, lep, _, _), e1) \<Rightarrow>
          (let m1 = m\<lparr>m_ieee := ieee, m_local := lep\<rparr>; p = m_config m in
           case retrieve I (decEndpoint I) p RemoteEndpointKey e1 of
             None \<Rightarrow> (missing RemoteEndpointKey, m1, e1)
           | Some ep \<Rightarrow>
               (let m2 = m1\<lparr>m_remote := ep\<rparr> in
                case retrieve I (decClusterID I) p ClusterIdKey e1 of
                  None \<Rightarrow> (missing ClusterIdKey, m2, e1)
                | Some c \<Rightarrow>
                    (let m3 = m2\<lparr>m_cluster := c\<rparr> in
                     case retrieve I (decAttributeID I) p AttributeIdKey e1 of
                       None \<Rightarrow> (missing AttributeIdKey, m3, e1)
                     | Some a \<Rightarrow>
                         (let m4 = m3\<lparr>m_attribute := a\<rparr> in
                          case retrieve I (decDataType I) p AttributeDataTypeKey e1 of
                            None \<Rightarrow> (missing AttributeDataTypeKey, m4, e1)
                          | Some t \<Rightarrow>
                              (case reattach I (m4\<lparr>m_dataType := t\<rparr>) e1 of
                                 (r, m5) \<Rightarrow> (r, m5, e1)))))))"

text \<open>\<open>uint16(math.Round(d.Seconds()))\<close>; \<open>math.Round\<close> rounds halves away from zero.\<close>

definition Seconds :: "int \<Rightarrow> rat" where
  "Seconds d = fadd (of_int (d sdiv second)) (fdiv (of_int (d smod second)) (of_int second))"

definition Round :: "rat \<Rightarrow> int" where
  "Round x = (if x < 0 then - \<lfloor>1 / 2 - x\<rfloor> else \<lfloor>x + 1 / 2\<rfloor>)"

definition intervalSeconds :: "int \<Rightarrow> 16 word" where
  "intervalSeconds d = word_of_int (Round (Seconds d))"

text \<open>The stored configuration, and the attempt to configure reporting; its result is the
  error, if it failed.\<close>

definition storeConfig :: "('s, 'x) zdaInterface \<Rightarrow> zclMonitor \<Rightarrow> ('s, 'x) env \<Rightarrow> ('s, 'x) env" where
  "storeConfig I m e =
     (let p = m_config m;
          e1 = putKey I p RemoteEndpointKey (encEndpoint I (m_remote m)) e;
          e2 = putKey I p ClusterIdKey (encClusterID I (m_cluster m)) e1;
          e3 = putKey I p AttributeIdKey (encAttributeID I (m_attribute m)) e2
      in putKey I p AttributeDataTypeKey (encDataType I (m_dataType m)) e3)"

definition configureReporting ::
  "('s, 'x) zdaInterface \<Rightarrow> ReportingConfig \<Rightarrow> bool \<Rightarrow> 8 word \<Rightarrow> zclMonitor \<Rightarrow> ('s, 'x) env
    \<Rightarrow> goerr option \<times> ('s, 'x) env" where
  "configureReporting I rc ack seq m e =
     (case reportMode rc of
        NeverConfigureReporting \<Rightarrow> (None, e)
      | AttemptConfigureReporting \<Rightarrow>
          (case onWorld (BindNodeToController I (m_ieee m) (m_local m) (m_remote m) (m_cluster m)) e of
             (Inl err, e1) \<Rightarrow> (Some err, e1)
           | (Inr _, e1) \<Rightarrow>
               (case onWorld (ConfigureReporting I
                   \<lparr>confAddress = m_ieee m, confAck = ack, confCluster = m_cluster m,
                    confSource = m_local m, confDestination = m_remote m, confSequence = seq,
                    confAttribute = m_attribute m, confDataType = m_dataType m,
                    confMinimum = intervalSeconds (MinimumInterval rc),
                    confMaximum = intervalSeconds (MaximumInterval rc),
                    confChange = Some (ReportableChange rc)\<rparr>) e1 of
                  (Inl err, e2) \<Rightarrow> (Some err, e2)
                | (Inr _, e2) \<Rightarrow>
                    (None, putKey I (m_config m) ReportingConfiguredKey (PBool True) e2))))"

definition monitorAttach ::
  "('s, 'x) zdaInterface \<Rightarrow> Endpoint \<Rightarrow> ClusterID \<Rightarrow> AttributeID \<Rightarrow> 8 word \<Rightarrow> ReportingConfig \<Rightarrow> PollingConfig
    \<Rightarrow> zclMonitor \<Rightarrow> ('s, 'x) env \<Rightarrow> goerr option outcome \<times> zclMonitor \<times> ('s, 'x) env" where
  "monitorAttach I ep c a dt rc pc m e =
     (case transmissionLookup (Some (m_device m)) e of
        ((ieee, lep, ack, seq), e1) \<Rightarrow>
          (let m1 = m\<lparr>m_ieee := ieee, m_local := lep, m_remote := ep, m_cluster := c,
                      m_attribute := a, m_dataType := dt\<rparr>
           in case configureReporting I rc ack seq m1 (storeConfig I m1 e1) of
                (reportingErr, e2) \<Rightarrow>
                  if reportingErr \<noteq> None \<and> pollMode pc = PollIfReportingFailed \<or> pollMode pc = AlwaysPoll then
                    (let e3 = putKey I (m_config m) PollingIntervalKey (encDuration I (Interval pc))
                                (putKey I (m_config m) PollingConfiguredKey (PBool True) e2)
                     in case reattach I m1 e3 of (r, m2) \<Rightarrow> (r, m2, e3))
                  else
                    (case reportingErr of
                       Some err \<Rightarrow>
                         (Returns (Some (Errorf ''reporting failed, never poll, attach failed'' err)), m1, e2)
                     | None \<Rightarrow> (case reattach I m1 e2 of (r, m2) \<Rightarrow> (r, m2, e2)))))"

section \<open>The poller\<close>

text \<open>A poller takes the stop: from the slot, or at once when the channel is closed. It stops
  the ticker, which panics when another poller has set \<open>ticker\<close> to nil, and closes the
  channel, which panics when it is closed already.\<close>

definition pollerStops :: "zclMonitor \<Rightarrow> zclMonitor" where
  "pollerStops m =
     m\<lparr>m_stop := False, m_ticker := None, m_pollers := m_pollers m - 1, m_closed := True,
       m_crashed := (m_crashed m \<or> m_ticker m = None \<or> m_closed m)\<rparr>"

text \<open>A tick: one read of the attribute, an error of which is only logged; the answer comes
  back as a message.\<close>

definition pollerTicks :: "('s, 'x) zdaInterface \<Rightarrow> zclMonitor \<Rightarrow> ('s, 'x) env \<Rightarrow> ('s, 'x) env" where
  "pollerTicks I m e =
     (case transmissionLookup (Some (m_device m)) e of
        ((_, _, ack, seq), e1) \<Rightarrow>
          snd (onWorld (ReadOnce I
            \<lparr>readAddress = m_ieee m, readAck = ack, readCluster = m_cluster m,
             readSource = m_local m, readDestination = m_remote m, readSequence = seq,
             readAttributes = [m_attribute m]\<rparr>) e1))"

section \<open>Detaching\<close>

text \<open>The send to \<open>pollerStop\<close>: it panics on a closed channel, and with the slot full it waits
  until a poller has emptied it.\<close>

definition sendStop :: "zclMonitor \<Rightarrow> zclMonitor" where
  "sendStop m =
     (if m_closed m then m\<lparr>m_crashed := True\<rparr>
      else if m_stop m then pollerStops m\<lparr>m_stop := True\<rparr>
      else m\<lparr>m_stop := True\<rparr>)"

definition unconfigureReporting ::
  "('s, 'x) zdaInterface \<Rightarrow> zclMonitor \<Rightarrow> ('s, 'x) env \<Rightarrow> ('s, 'x) env" where
  "unconfigureReporting I m e =
     (if boolKey I (m_config m) ReportingConfiguredKey e then
        (case transmissionLookup (Some (m_device m)) e of
           ((ieee, _, ack, seq), e1) \<Rightarrow>
             snd (onWorld (ConfigureReporting I
               \<lparr>confAddress = ieee, confAck = ack, confCluster = m_cluster m,
                confSource = m_local m, confDestination = m_remote m, confSequence = seq,
                confAttribute = m_attribute m, confDataType = m_dataType m,
                confMinimum = 0xffff, confMaximum = 0, confChange = None\<rparr>) e1))
      else e)"

definition monitorDetach ::
  "('s, 'x) zdaInterface \<Rightarrow> bool \<Rightarrow> zclMonitor \<Rightarrow> ('s, 'x) env \<Rightarrow> goerr option \<times> zclMonitor \<times> ('s, 'x) env" where
  "monitorDetach I unconfigure m e =
     (let m1 = unregisterMatch m;
          e1 = (if unconfigure then
                  deleteKey I (m_config m) PollingConfiguredKey
                    (deleteKey I (m_config m) ReportingConfiguredKey (unconfigureReporting I m e))
                else e)
      in (None, if m_ticker m1 \<noteq> None then sendStop m1 else m1, e1))"

section \<open>Messages\<close>

text \<open>What a message from a node brings: the fields the filter looks at, and the command. The
  values of the records are pointers; a nil one is dereferenced when the attribute matches.\<close>

record ReportRecord =
  reportIdentifier :: AttributeID
  reportValue :: "AttributeDataTypeValue option"

datatype command =
    ReportAttributes "ReportRecord list"
  | ReadAttributesResponse "ReadAttributeResponseRecord list"
  | OtherCommand

record zclMessage =
  msgSource :: IEEEAddress
  msgSourceEndpoint :: Endpoint
  msgDestinationEndpoint :: Endpoint
  msgServerToClient :: bool
  msgCluster :: ClusterID
  msgCommand :: command

definition zclFilter :: "zclMonitor \<Rightarrow> zclMessage \<Rightarrow> bool" where
  "zclFilter z m \<longleftrightarrow>
     msgSource m = m_ieee z \<and> msgSourceEndpoint m = m_remote z \<and>
     msgDestinationEndpoint m = m_local z \<and> msgServerToClient m \<and> msgCluster m = m_cluster z"

text \<open>The calls of the callback a list of records makes, and whether it then panics.\<close>

fun recordCalls ::
  "zclMonitor \<Rightarrow> (bool \<times> AttributeID \<times> AttributeDataTypeValue option) list
    \<Rightarrow> (AttributeID \<times> AttributeDataTypeValue) list \<times> bool" where
  "recordCalls z [] = ([], False)"
| "recordCalls z ((ok, i, dv) # rs) =
     (if ok \<and> i = m_attribute z then
        (case dv of
           None \<Rightarrow> ([], True)
         | Some v \<Rightarrow>
             (case recordCalls z rs of
                (cs, p) \<Rightarrow> (if DataType v = m_dataType z then (i, v) # cs else cs, p)))
      else recordCalls z rs)"

definition zclMessageCalls :: "zclMonitor \<Rightarrow> zclMessage \<Rightarrow> (AttributeID \<times> AttributeDataTypeValue) list \<times> bool" where
  "zclMessageCalls z m =
     (case msgCommand m of
        ReportAttributes rs \<Rightarrow> recordCalls z (map (\<lambda>r. (True, reportIdentifier r, reportValue r)) rs)
      | ReadAttributesResponse rs \<Rightarrow>
          recordCalls z (map (\<lambda>r. (RecordStatus r = 0, Identifier r, DataTypeValue r)) rs)
      | OtherCommand \<Rightarrow> ([], False))"

end
