(* ===== verification/Monitor_Effects.thy ===== *)
theory Monitor_Effects
  imports Monitor
begin

text \<open>
  What an attribute monitor may change around it: its own configuration section and nothing
  else of the store, no events of the table, and not where it is configured.
\<close>

section \<open>The monitor keeps its section and its device\<close>

definition same_monitor :: "zclMonitor \<Rightarrow> zclMonitor \<Rightarrow> bool" where
  "same_monitor m m' \<longleftrightarrow> m_config m' = m_config m \<and> m_device m' = m_device m"

lemma same_monitor_refl [simp, intro]: "same_monitor m m"
  by (simp add: same_monitor_def)

lemma same_monitor_trans [trans]: "same_monitor m m' \<Longrightarrow> same_monitor m' m'' \<Longrightarrow> same_monitor m m''"
  by (simp add: same_monitor_def)

lemma startPoller_cases:
  "startPoller d m = Panics \<and> d \<le> 0 \<or>
   startPoller d m = Returns (m\<lparr>m_ticker := Some d, m_pollers := Suc (m_pollers m)\<rparr>) \<and> 0 < d"
  by (auto simp: startPoller_def)

lemma reattach_same: "reattach I m e = (r, m') \<Longrightarrow> same_monitor m m'"
  by (auto simp: reattach_def startPoller_def registerMatch_def same_monitor_def Let_def
      split: outcome.splits if_splits)

lemma monitorLoad_same: "monitorLoad I m e = (r, m', e') \<Longrightarrow> same_monitor m m'"
  unfolding monitorLoad_def Let_def
  by (auto split: prod.splits option.splits dest!: reattach_same simp: same_monitor_def)

lemma monitorAttach_same: "monitorAttach I ep c a dt rc pc m e = (r, m', e') \<Longrightarrow> same_monitor m m'"
  unfolding monitorAttach_def Let_def
  by (auto split: prod.splits option.splits if_splits dest!: reattach_same simp: same_monitor_def)

lemma monitorDetach_same: "monitorDetach I u m e = (r, m', e') \<Longrightarrow> same_monitor m m'"
  by (auto simp: monitorDetach_def sendStop_def pollerStops_def unregisterMatch_def same_monitor_def Let_def
      split: if_splits)

lemma monitorDetach_ok: "fst (monitorDetach I u m e) = None"
  by (simp add: monitorDetach_def Let_def)

section \<open>Effects\<close>

lemma effect_snd_onWorld [effect_rules]: "cap_effect P p e0 e \<Longrightarrow> cap_effect P p e0 (snd (onWorld f e))"
  by (cases "onWorld f e") (auto elim: effect_onWorld)

lemma effect_pollerTicks [effect_rules]:
  "cap_effect P p e0 e \<Longrightarrow> cap_effect P p e0 (pollerTicks I m e)"
  unfolding pollerTicks_def by (auto split: prod.split intro: effect_rules elim: effect_elims)

lemma effect_storeConfig [effect_rules]:
  "section_store (sections I) \<Longrightarrow> prefix p (m_config m) \<Longrightarrow> cap_effect (sections I) p e0 e \<Longrightarrow>
     cap_effect (sections I) p e0 (storeConfig I m e)"
  unfolding storeConfig_def Let_def by (intro effect_rules)

lemma effect_unconfigureReporting [effect_rules]:
  "cap_effect (sections I) p e0 e \<Longrightarrow> cap_effect (sections I) p e0 (unconfigureReporting I m e)"
  unfolding unconfigureReporting_def by (auto split: prod.split intro: effect_rules elim: effect_elims)

lemma effect_configureReporting [effect_elims]:
  "configureReporting I rc ack seq m e = (r, e') \<Longrightarrow> section_store (sections I) \<Longrightarrow>
     prefix p (m_config m) \<Longrightarrow> cap_effect (sections I) p e0 e \<Longrightarrow> cap_effect (sections I) p e0 e'"
  unfolding configureReporting_def
  by (auto split: prod.splits sum.splits ReportingMode.splits intro!: effect_rules elim: effect_elims)

lemma effect_monitorLoad [effect_elims]:
  "monitorLoad I m e = (r, m', e') \<Longrightarrow> cap_effect (sections I) p e0 e \<Longrightarrow> cap_effect (sections I) p e0 e'"
  unfolding monitorLoad_def Let_def by (auto split: prod.splits option.splits elim: effect_elims)

lemma effect_monitorAttach [effect_elims]:
  assumes "monitorAttach I ep c a dt rc pc m e = (r, m', e')" and sections: "section_store (sections I)"
    and "prefix p (m_config m)"
    and "cap_effect (sections I) p e0 e"
  shows "cap_effect (sections I) p e0 e'"
proof -
  obtain ieee lep ack seq e1 where l: "transmissionLookup (Some (m_device m)) e = ((ieee, lep, ack, seq), e1)"
    by (metis prod.exhaust)
  define m1 where "m1 = m\<lparr>m_ieee := ieee, m_local := lep, m_remote := ep, m_cluster := c,
      m_attribute := a, m_dataType := dt\<rparr>"
  obtain err e2 where conf: "configureReporting I rc ack seq m1 (storeConfig I m1 e1) = (err, e2)"
    by (metis prod.exhaust)
  have config: "m_config m1 = m_config m" by (simp add: m1_def)
  have "cap_effect (sections I) p e0 (storeConfig I m1 e1)"
    using assms(3) effect_transmissionLookup [OF l assms(4)] by (intro effect_storeConfig sections) (simp_all add: config)
  with conf assms(3) have e2: "cap_effect (sections I) p e0 e2"
    by (auto intro: effect_configureReporting sections simp: config)
  have "e' = e2 \<or> e' = putKey I (m_config m) PollingIntervalKey (encDuration I (Interval pc))
      (putKey I (m_config m) PollingConfiguredKey (PBool True) e2)"
    using assms(1) by (auto simp: monitorAttach_def l conf Let_def simp flip: m1_def
        split: if_splits option.splits prod.splits)
  with e2 assms(3) show ?thesis by (auto intro!: effect_rules sections)
qed

lemma effect_monitorDetach [effect_elims]:
  "monitorDetach I u m e = (r, m', e') \<Longrightarrow> section_store (sections I) \<Longrightarrow>
     prefix p (m_config m) \<Longrightarrow> cap_effect (sections I) p e0 e \<Longrightarrow> cap_effect (sections I) p e0 e'"
  by (auto simp: monitorDetach_def Let_def intro!: effect_rules split: if_splits)

end
