(* ===== verification/Sensors.thy ===== *)
theory Sensors
  imports Monitor_Effects
begin

text \<open>
  \<open>implcaps/zcl/temperature_sensor\<close>, \<open>humidity_sensor\<close> and \<open>pressure_sensor\<close>: one attribute
  monitor each, whose reports become readings. The three files are the same program with
  different names, attributes and conversions; the record \<open>sensorKind\<close> holds what differs.
\<close>

section \<open>Keys and times of any implementation\<close>

text \<open>\<open>implcaps/keys.go\<close>\<close>

definition ReadingKey :: string where
  "ReadingKey = ''Reading''"

definition LastChangedKey :: string where
  "LastChangedKey = ''LastChanged''"

definition LastUpdatedKey :: string where
  "LastUpdatedKey = ''LastUpdated''"

lemmas implementation_keys = ReadingKey_def LastChangedKey_def LastUpdatedKey_def RemoteEndpointKey_def

definition lastUpdateTime :: "('s, 'x) zdaInterface \<Rightarrow> path \<Rightarrow> ('s, 'x) env \<Rightarrow> int" where
  "lastUpdateTime I p e = retrieveOr I (decTime I) p LastUpdatedKey zeroTime e"

definition lastChangeTime :: "('s, 'x) zdaInterface \<Rightarrow> path \<Rightarrow> ('s, 'x) env \<Rightarrow> int" where
  "lastChangeTime I p e = retrieveOr I (decTime I) p LastChangedKey zeroTime e"

text \<open>The result of a \<open>Load\<close> from that of its monitor's; a panic in it is not recovered.\<close>

fun loadResult :: "goerr option outcome \<Rightarrow> bool \<times> goerr option" where
  "loadResult (Returns None) = (True, None)"
| "loadResult (Returns (Some err)) = (False, Some err)"
| "loadResult Panics = (False, None)"

definition crashOn :: "'a outcome \<Rightarrow> zclMonitor \<Rightarrow> zclMonitor" where
  "crashOn r m = (case r of Panics \<Rightarrow> m\<lparr>m_crashed := True\<rparr> | Returns _ \<Rightarrow> m)"

fun enumerateResult :: "goerr option outcome \<Rightarrow> (bool \<times> goerr option) outcome" where
  "enumerateResult Panics = Panics"
| "enumerateResult r = Returns (case r of Returns (Some err) \<Rightarrow> (False, Some err) | _ \<Rightarrow> (True, None))"

section \<open>A sensor\<close>

record sensor =
  s_section :: path
  s_device :: address
  s_monitor :: zclMonitor

record sensorKind =
  k_capability :: Capability
  k_implName :: string
  k_monitor :: string
  k_cluster :: ClusterID
  k_dataType :: "8 word"
  k_change :: int
  k_convert :: "zclValue \<Rightarrow> rat option"
  k_threshold :: rat
  k_event :: "address \<Rightarrow> rat \<Rightarrow> event"

definition newSensor :: sensor where
  "newSensor = \<lparr>s_section = [], s_device = addressOf 0 0, s_monitor = NewMonitor\<rparr>"

definition sensorInit ::
  "sensorKind \<Rightarrow> ('s, 'x) zdaInterface \<Rightarrow> address \<Rightarrow> path \<Rightarrow> sensor \<Rightarrow> ('s, 'x) env \<Rightarrow> sensor \<times> ('s, 'x) env" where
  "sensorInit k I d p i e =
     (let q = p @ [''AttributeMonitor'', k_monitor k]
      in (i\<lparr>s_section := p, s_device := d, s_monitor := monitorInit q d NewMonitor\<rparr>, openSection I q e))"

definition sensorLoad ::
  "('s, 'x) zdaInterface \<Rightarrow> sensor \<Rightarrow> ('s, 'x) env \<Rightarrow> (bool \<times> goerr option) \<times> sensor \<times> ('s, 'x) env" where
  "sensorLoad I i e =
     (case monitorLoad I (s_monitor i) e of
        (r, m, e1) \<Rightarrow> (loadResult r, i\<lparr>s_monitor := crashOn r m\<rparr>, e1))"

definition sensorEnumerate ::
  "sensorKind \<Rightarrow> ('s, 'x) zdaInterface \<Rightarrow> Settings \<Rightarrow> sensor \<Rightarrow> ('s, 'x) env
    \<Rightarrow> (bool \<times> goerr option) outcome \<times> sensor \<times> ('s, 'x) env" where
  "sensorEnumerate k I m i e =
     (let endpoint = Get castEndpoint m ''ZigbeeEndpoint'' 1;
          reporting = \<lparr>reportMode = AttemptConfigureReporting, MinimumInterval = 1 * minute,
                       MaximumInterval = 5 * minute, ReportableChange = k_change k\<rparr>;
          polling = \<lparr>pollMode = PollIfReportingFailed, Interval = 1 * minute\<rparr>
      in case monitorAttach I endpoint (k_cluster k) (MeasuredValue (zcl I)) (k_dataType k) reporting
                polling (s_monitor i) e of
           (r, am, e1) \<Rightarrow> (enumerateResult r, i\<lparr>s_monitor := am\<rparr>, e1))"

definition sensorDetach ::
  "('s, 'x) zdaInterface \<Rightarrow> DetachType \<Rightarrow> sensor \<Rightarrow> ('s, 'x) env \<Rightarrow> goerr option \<times> sensor \<times> ('s, 'x) env" where
  "sensorDetach I t i e =
     (case monitorDetach I (t = NoLongerEnumerated) (s_monitor i) e of
        (r, m, e1) \<Rightarrow> (r, i\<lparr>s_monitor := m\<rparr>, e1))"

definition sensorReading :: "('s, 'x) zdaInterface \<Rightarrow> sensor \<Rightarrow> ('s, 'x) env \<Rightarrow> rat" where
  "sensorReading I i e = floatKey I (s_section i) ReadingKey e"

text \<open>The callback of the monitor.\<close>

definition sensorUpdate ::
  "sensorKind \<Rightarrow> ('s, 'x) zdaInterface \<Rightarrow> AttributeID \<times> AttributeDataTypeValue \<Rightarrow> sensor \<Rightarrow> ('s, 'x) env
    \<Rightarrow> ('s, 'x) env" where
  "sensorUpdate k I v i e =
     (if DataType (snd v) = k_dataType k then
        (case k_convert k (Value (snd v)) of
           None \<Rightarrow> e
         | Some new \<Rightarrow>
             (let current = floatKey I (s_section i) ReadingKey e;
                  e1 = (if float64 (k_threshold k) < \<bar>fsub new current\<bar> then
                          sendEvent (k_event k (s_device i) new)
                            (storeNow I (s_section i) LastChangedKey
                              (putKey I (s_section i) ReadingKey (PFloat new) e))
                        else e)
              in storeNow I (s_section i) LastUpdatedKey e1))
      else e)"

section \<open>The three kinds\<close>

fun castInt64 :: "zclValue \<Rightarrow> int option" where
  "castInt64 (ZInt64 w) = Some (sint w)"
| "castInt64 _ = None"

fun castUint64 :: "zclValue \<Rightarrow> int option" where
  "castUint64 (ZUint64 w) = Some (uint w)"
| "castUint64 _ = None"

definition tempInK :: "int \<Rightarrow> rat" where
  "tempInK value = fadd (fdiv (float64 (of_int value)) 100) (float64 (27315 / 100))"

definition newRatio :: "int \<Rightarrow> rat" where
  "newRatio value = fdiv (float64 (of_int value)) 10000"

definition newPressure :: "int \<Rightarrow> rat" where
  "newPressure value = fdiv (float64 (of_int value)) 10"

definition temperatureSensor :: "('s, 'x) zdaInterface \<Rightarrow> sensorKind" where
  "temperatureSensor I =
     \<lparr>k_capability = TemperatureSensorFlag, k_implName = ''ZCLTemperatureSensor'',
      k_monitor = ''TemperatureReading'', k_cluster = TemperatureMeasurementId (zcl I),
      k_dataType = TypeSignedInt16 (zcl I), k_change = 10,
      k_convert = (\<lambda>v. map_option tempInK (castInt64 v)), k_threshold = 1 / 10,
      k_event = EvTemperatureSensorUpdate\<rparr>"

definition humiditySensor :: "('s, 'x) zdaInterface \<Rightarrow> sensorKind" where
  "humiditySensor I =
     \<lparr>k_capability = RelativeHumiditySensorFlag, k_implName = ''ZCLHumiditySensor'',
      k_monitor = ''HumidityReading'', k_cluster = RelativeHumidityMeasurementId (zcl I),
      k_dataType = TypeUnsignedInt16 (zcl I), k_change = 100,
      k_convert = (\<lambda>v. map_option newRatio (castUint64 v)), k_threshold = 1 / 100,
      k_event = EvRelativeHumiditySensorUpdate\<rparr>"

definition pressureSensor :: "('s, 'x) zdaInterface \<Rightarrow> sensorKind" where
  "pressureSensor I =
     \<lparr>k_capability = PressureSensorFlag, k_implName = ''ZCLPressureSensor'',
      k_monitor = ''PressureReading'', k_cluster = PressureMeasurementId (zcl I),
      k_dataType = TypeSignedInt16 (zcl I), k_change = 10,
      k_convert = (\<lambda>v. map_option newPressure (castInt64 v)), k_threshold = 1 / 10,
      k_event = EvPressureSensorUpdate\<rparr>"

lemmas sensor_kinds = temperatureSensor_def humiditySensor_def pressureSensor_def

subsection \<open>Temperature\<close>

definition temperatureInit where
  "temperatureInit I = sensorInit (temperatureSensor I) I"

definition temperatureLoad :: "('s, 'x) zdaInterface \<Rightarrow> sensor \<Rightarrow> ('s, 'x) env
    \<Rightarrow> (bool \<times> goerr option) \<times> sensor \<times> ('s, 'x) env" where
  "temperatureLoad = sensorLoad"

definition temperatureEnumerate where
  "temperatureEnumerate I = sensorEnumerate (temperatureSensor I) I"

definition temperatureDetach :: "('s, 'x) zdaInterface \<Rightarrow> DetachType \<Rightarrow> sensor \<Rightarrow> ('s, 'x) env
    \<Rightarrow> goerr option \<times> sensor \<times> ('s, 'x) env" where
  "temperatureDetach = sensorDetach"

definition temperatureUpdate where
  "temperatureUpdate I = sensorUpdate (temperatureSensor I) I"

definition temperatureReading :: "('s, 'x) zdaInterface \<Rightarrow> sensor \<Rightarrow> ('s, 'x) env \<Rightarrow> rat" where
  "temperatureReading = sensorReading"

definition temperatureTimes :: "('s, 'x) zdaInterface \<Rightarrow> sensor \<Rightarrow> ('s, 'x) env \<Rightarrow> int \<times> int" where
  "temperatureTimes I i e = (lastUpdateTime I (s_section i) e, lastChangeTime I (s_section i) e)"

subsection \<open>Humidity\<close>

definition humidityInit where
  "humidityInit I = sensorInit (humiditySensor I) I"

definition humidityLoad :: "('s, 'x) zdaInterface \<Rightarrow> sensor \<Rightarrow> ('s, 'x) env
    \<Rightarrow> (bool \<times> goerr option) \<times> sensor \<times> ('s, 'x) env" where
  "humidityLoad = sensorLoad"

definition humidityEnumerate where
  "humidityEnumerate I = sensorEnumerate (humiditySensor I) I"

definition humidityDetach :: "('s, 'x) zdaInterface \<Rightarrow> DetachType \<Rightarrow> sensor \<Rightarrow> ('s, 'x) env
    \<Rightarrow> goerr option \<times> sensor \<times> ('s, 'x) env" where
  "humidityDetach = sensorDetach"

definition humidityUpdate where
  "humidityUpdate I = sensorUpdate (humiditySensor I) I"

definition humidityReading :: "('s, 'x) zdaInterface \<Rightarrow> sensor \<Rightarrow> ('s, 'x) env \<Rightarrow> rat" where
  "humidityReading = sensorReading"

definition humidityTimes :: "('s, 'x) zdaInterface \<Rightarrow> sensor \<Rightarrow> ('s, 'x) env \<Rightarrow> int \<times> int" where
  "humidityTimes I i e = (lastUpdateTime I (s_section i) e, lastChangeTime I (s_section i) e)"

subsection \<open>Pressure\<close>

definition pressureInit where
  "pressureInit I = sensorInit (pressureSensor I) I"

definition pressureLoad :: "('s, 'x) zdaInterface \<Rightarrow> sensor \<Rightarrow> ('s, 'x) env
    \<Rightarrow> (bool \<times> goerr option) \<times> sensor \<times> ('s, 'x) env" where
  "pressureLoad = sensorLoad"

definition pressureEnumerate where
  "pressureEnumerate I = sensorEnumerate (pressureSensor I) I"

definition pressureDetach :: "('s, 'x) zdaInterface \<Rightarrow> DetachType \<Rightarrow> sensor \<Rightarrow> ('s, 'x) env
    \<Rightarrow> goerr option \<times> sensor \<times> ('s, 'x) env" where
  "pressureDetach = sensorDetach"

definition pressureUpdate where
  "pressureUpdate I = sensorUpdate (pressureSensor I) I"

definition pressureReading :: "('s, 'x) zdaInterface \<Rightarrow> sensor \<Rightarrow> ('s, 'x) env \<Rightarrow> rat" where
  "pressureReading = sensorReading"

definition pressureTimes :: "('s, 'x) zdaInterface \<Rightarrow> sensor \<Rightarrow> ('s, 'x) env \<Rightarrow> int \<times> int" where
  "pressureTimes I i e = (lastUpdateTime I (s_section i) e, lastChangeTime I (s_section i) e)"

lemmas sensor_instances =
  temperatureInit_def temperatureLoad_def temperatureEnumerate_def temperatureDetach_def temperatureUpdate_def
  humidityInit_def humidityLoad_def humidityEnumerate_def humidityDetach_def humidityUpdate_def
  pressureInit_def pressureLoad_def pressureEnumerate_def pressureDetach_def pressureUpdate_def

end
