(* ===== verification/Generic_Capabilities.thy ===== *)
theory Generic_Capabilities
  imports Sensors
begin

text \<open>
  \<open>implcaps/generic/product_information\<close> and \<open>implcaps/generic/device_workarounds\<close>: the two
  capabilities that are not tied to one ZCL attribute.
\<close>

section \<open>Product information\<close>

record ProductInfo =
  Name :: string
  InfoManufacturer :: string
  InfoVersion :: string
  InfoSerial :: string

record productInformation =
  pi_section :: path
  pi_info :: "ProductInfo option"

definition emptyProductInfo :: ProductInfo where
  "emptyProductInfo = \<lparr>Name = [], InfoManufacturer = [], InfoVersion = [], InfoSerial = []\<rparr>"

definition NewProductInformation :: productInformation where
  "NewProductInformation = \<lparr>pi_section = [], pi_info = None\<rparr>"

definition productInit :: "address \<Rightarrow> path \<Rightarrow> productInformation \<Rightarrow> productInformation" where
  "productInit d p g = g\<lparr>pi_section := p\<rparr>"

definition productLoad ::
  "('s, 'x) zdaInterface \<Rightarrow> productInformation \<Rightarrow> ('s, 'x) env
    \<Rightarrow> (bool \<times> goerr option) \<times> productInformation \<times> ('s, 'x) env" where
  "productLoad I g e =
     (let p = pi_section g;
          info = \<lparr>Name = stringKey I p ''Name'' e, InfoManufacturer = stringKey I p ''Manufacturer'' e,
                  InfoVersion = stringKey I p ''Version'' e, InfoSerial = stringKey I p ''Serial'' e\<rparr>
      in ((True, None), g\<lparr>pi_info := Some info\<rparr>, e))"

text \<open>One setting: whether its key is one of the four, and the field it sets.\<close>

definition setProductInfo :: "string \<Rightarrow> string \<Rightarrow> ProductInfo \<Rightarrow> ProductInfo option" where
  "setProductInfo k v i =
     (if k = ''Name'' then Some (i\<lparr>Name := v\<rparr>)
      else if k = ''Manufacturer'' then Some (i\<lparr>InfoManufacturer := v\<rparr>)
      else if k = ''Version'' then Some (i\<lparr>InfoVersion := v\<rparr>)
      else if k = ''Serial'' then Some (i\<lparr>InfoSerial := v\<rparr>)
      else None)"

text \<open>The loop over the settings: the new information and whether to attach, or the key at
  which it gave up.\<close>

fun productLoop ::
  "('s, 'x) zdaInterface \<Rightarrow> path \<Rightarrow> Settings \<Rightarrow> ProductInfo \<Rightarrow> bool \<Rightarrow> ('s, 'x) env
    \<Rightarrow> (string + ProductInfo \<times> bool) \<times> ('s, 'x) env" where
  "productLoop I p [] newPI attach e = (Inr (newPI, attach), e)"
| "productLoop I p ((k, v) # m) newPI attach e =
     (case castString v of
        None \<Rightarrow> (Inl k, e)
      | Some stringV \<Rightarrow>
          (case (if 0 < length stringV then setProductInfo k stringV newPI else None) of
             None \<Rightarrow> productLoop I p m newPI attach e
           | Some newPI' \<Rightarrow> productLoop I p m newPI' True (putKey I p k (PString stringV) e)))"

definition quoted :: "string \<Rightarrow> string" where
  "quoted k = CHR 0x27 # k @ [CHR 0x27]"

definition productEnumerate ::
  "('s, 'x) zdaInterface \<Rightarrow> Settings \<Rightarrow> productInformation \<Rightarrow> ('s, 'x) env
    \<Rightarrow> (bool \<times> goerr option) outcome \<times> productInformation \<times> ('s, 'x) env" where
  "productEnumerate I m g e =
     (case productLoop I (pi_section g) m emptyProductInfo False e of
        (Inl k, e1) \<Rightarrow>
          (Returns (pi_info g \<noteq> None, Some (Err (''failed to cast '' @ quoted k @ '' value to string''))), g, e1)
      | (Inr (newPI, attach), e1) \<Rightarrow>
          (Returns (attach, None), if attach then g\<lparr>pi_info := Some newPI\<rparr> else g, e1))"

definition productDetach ::
  "DetachType \<Rightarrow> productInformation \<Rightarrow> ('s, 'x) env \<Rightarrow> goerr option \<times> productInformation \<times> ('s, 'x) env" where
  "productDetach t g e = (None, g, e)"

text \<open>\<open>Get\<close> dereferences the pointer, which is nil until something was enumerated or loaded.\<close>

definition productGet :: "productInformation \<Rightarrow> ProductInfo outcome" where
  "productGet g = (case pi_info g of None \<Rightarrow> Panics | Some i \<Rightarrow> Returns i)"

section \<open>Device workarounds\<close>

record deviceWorkaround =
  dw_section :: path
  dw_device :: address
  dw_enabled :: "string list"

definition NewDeviceWorkaround :: deviceWorkaround where
  "NewDeviceWorkaround = \<lparr>dw_section = [], dw_device = addressOf 0 0, dw_enabled = []\<rparr>"

definition workaroundInit :: "address \<Rightarrow> path \<Rightarrow> deviceWorkaround \<Rightarrow> deviceWorkaround" where
  "workaroundInit d p i = i\<lparr>dw_section := p, dw_device := d\<rparr>"

text \<open>\<open>loadWorkaround\<close> and \<open>detachWorkaround\<close> do nothing and return no error, so the loops
  over the workarounds append every key and come to nothing, respectively.\<close>

definition workaroundLoad ::
  "('s, 'x) zdaInterface \<Rightarrow> deviceWorkaround \<Rightarrow> ('s, 'x) env
    \<Rightarrow> (bool \<times> goerr option) \<times> deviceWorkaround \<times> ('s, 'x) env" where
  "workaroundLoad I i e =
     (let q = dw_section i @ [''Workarounds'']; e1 = openSection I q e
      in ((True, None), i\<lparr>dw_enabled := dw_enabled i @ p_keys (sections I) q (store e1)\<rparr>, e1))"

definition enumerateZCLReportingKeepAlive ::
  "('s, 'x) zdaInterface \<Rightarrow> Settings \<Rightarrow> deviceWorkaround \<Rightarrow> ('s, 'x) env
    \<Rightarrow> goerr option \<times> deviceWorkaround \<times> ('s, 'x) env" where
  "enumerateZCLReportingKeepAlive I m i e =
     (let remoteEndpoint = Get castEndpoint m ''ZigbeeEndpoint'' 1 in
      case transmissionLookup (Some (dw_device i)) e of
        ((ieee, lep, ack, seq), e1) \<Rightarrow>
          (case onWorld (BindNodeToController I ieee lep remoteEndpoint (BasicId (zcl I))) e1 of
             (Inl err, e2) \<Rightarrow> (Some err, i, e2)
           | (Inr _, e2) \<Rightarrow>
               (case onWorld (ConfigureReporting I
                   \<lparr>confAddress = ieee, confAck = ack, confCluster = BasicId (zcl I),
                    confSource = lep, confDestination = remoteEndpoint, confSequence = seq,
                    confAttribute = ZCLVersion (zcl I), confDataType = TypeUnsignedInt8 (zcl I),
                    confMinimum = 60, confMaximum = 240, confChange = Some 0\<rparr>) e2 of
                  (Inl err, e3) \<Rightarrow> (Some err, i, e3)
                | (Inr _, e3) \<Rightarrow>
                    (None, i\<lparr>dw_enabled := dw_enabled i @ [''ZCLReportingKeepAlive'']\<rparr>,
                     openSection I (dw_section i @ [''Workarounds'', ''ZCLReportingKeepAlive'']) e3))))"

definition enumerateWorkaround ::
  "('s, 'x) zdaInterface \<Rightarrow> Settings \<Rightarrow> string \<Rightarrow> deviceWorkaround \<Rightarrow> ('s, 'x) env
    \<Rightarrow> goerr option \<times> deviceWorkaround \<times> ('s, 'x) env" where
  "enumerateWorkaround I m workaround i e =
     (if workaround = ''EnableZCLReportingKeepAlive'' then enumerateZCLReportingKeepAlive I m i e
      else (None, i, e))"

fun workaroundLoop ::
  "('s, 'x) zdaInterface \<Rightarrow> Settings \<Rightarrow> string list \<Rightarrow> deviceWorkaround \<Rightarrow> ('s, 'x) env
    \<Rightarrow> (bool \<times> goerr option) \<times> deviceWorkaround \<times> ('s, 'x) env" where
  "workaroundLoop I m [] i e = ((True, None), i, e)"
| "workaroundLoop I m (workaround # ks) i e =
     (if HasPrefix workaround ''Enable'' then
        (case enumerateWorkaround I m workaround i e of
           (Some err, i1, e1) \<Rightarrow> ((False, Some err), i1, e1)
         | (None, i1, e1) \<Rightarrow> workaroundLoop I m ks i1 e1)
      else workaroundLoop I m ks i e)"

definition workaroundEnumerate ::
  "('s, 'x) zdaInterface \<Rightarrow> Settings \<Rightarrow> deviceWorkaround \<Rightarrow> ('s, 'x) env
    \<Rightarrow> (bool \<times> goerr option) outcome \<times> deviceWorkaround \<times> ('s, 'x) env" where
  "workaroundEnumerate I m i e =
     (let e1 = e\<lparr>store := snd (p_remove (sections I) (dw_section i) ''Workarounds'' (store e))\<rparr>
      in case workaroundLoop I m (map fst m) (i\<lparr>dw_enabled := []\<rparr>) e1 of
           (r, i', e') \<Rightarrow> (Returns r, i', e'))"

definition workaroundDetach ::
  "DetachType \<Rightarrow> deviceWorkaround \<Rightarrow> ('s, 'x) env \<Rightarrow> goerr option \<times> deviceWorkaround \<times> ('s, 'x) env" where
  "workaroundDetach t i e = (None, i, e)"

definition workaroundEnabled :: "deviceWorkaround \<Rightarrow> string list" where
  "workaroundEnabled i = dw_enabled i"

end
