(* ===== verification/Identify.thy ===== *)
theory Identify
  imports Sensors
begin

text \<open>
  \<open>implcaps/zcl/identify\<close>: the identify capability. It follows the time a device still
  identifies itself for, publishes it once a second while it does, and starts it.
\<close>

section \<open>State\<close>

text \<open>\<open>id_timers\<close> counts the timers \<open>time.AfterFunc\<close> has started that have not fired; the
  field \<open>timer\<close> of the code, which nothing reads, is left out.\<close>

record identify =
  id_section :: path
  id_device :: address
  id_monitor :: zclMonitor
  id_remote :: Endpoint
  id_timers :: nat

definition EndTimeKey :: string where
  "EndTimeKey = ''EndTime''"

definition NewIdentify :: identify where
  "NewIdentify = \<lparr>id_section = [], id_device = addressOf 0 0, id_monitor = NewMonitor, id_remote = 0,
     id_timers = 0\<rparr>"

definition identifyInit ::
  "('s, 'x) zdaInterface \<Rightarrow> address \<Rightarrow> path \<Rightarrow> identify \<Rightarrow> ('s, 'x) env \<Rightarrow> identify \<times> ('s, 'x) env" where
  "identifyInit I d p i e =
     (let q = p @ [''AttributeMonitor'', ''IdentifyTime'']
      in (i\<lparr>id_section := p, id_device := d, id_monitor := monitorInit q d NewMonitor\<rparr>, openSection I q e))"

section \<open>Life cycle\<close>

definition identifyLoad ::
  "('s, 'x) zdaInterface \<Rightarrow> identify \<Rightarrow> ('s, 'x) env \<Rightarrow> (bool \<times> goerr option) \<times> identify \<times> ('s, 'x) env" where
  "identifyLoad I i e =
     (case sectionInt (sections I) (id_section i) RemoteEndpointKey (store e) of
        None \<Rightarrow> ((False, Some (Err (''monitor missing config parameter: '' @ RemoteEndpointKey))), i, e)
      | Some v \<Rightarrow>
          (case monitorLoad I (id_monitor i) e of
             (r, m, e1) \<Rightarrow>
               (loadResult r, i\<lparr>id_remote := word_of_int v, id_monitor := crashOn r m\<rparr>, e1)))"

definition identifyEnumerate ::
  "('s, 'x) zdaInterface \<Rightarrow> Settings \<Rightarrow> identify \<Rightarrow> ('s, 'x) env
    \<Rightarrow> (bool \<times> goerr option) outcome \<times> identify \<times> ('s, 'x) env" where
  "identifyEnumerate I m i e =
     (let remote = Get castEndpoint m ''ZigbeeEndpoint'' 1;
          e1 = putKey I (id_section i) RemoteEndpointKey (PInt (uint remote)) e;
          reporting = \<lparr>reportMode = AttemptConfigureReporting, MinimumInterval = 1 * second,
                       MaximumInterval = 5 * minute, ReportableChange = 1\<rparr>;
          polling = \<lparr>pollMode = PollIfReportingFailed, Interval = 1 * minute\<rparr>
      in case monitorAttach I remote (IdentifyId (zcl I)) (IdentifyTime (zcl I)) (TypeUnsignedInt16 (zcl I))
                reporting polling (id_monitor i) e1 of
           (r, am, e2) \<Rightarrow> (enumerateResult r, i\<lparr>id_remote := remote, id_monitor := am\<rparr>, e2))"

definition identifyDetach ::
  "('s, 'x) zdaInterface \<Rightarrow> DetachType \<Rightarrow> identify \<Rightarrow> ('s, 'x) env \<Rightarrow> goerr option \<times> identify \<times> ('s, 'x) env" where
  "identifyDetach I t i e =
     (case monitorDetach I (t = NoLongerEnumerated) (id_monitor i) e of
        (r, m, e1) \<Rightarrow> (r, i\<lparr>id_monitor := m\<rparr>, e1))"

section \<open>Durations\<close>

text \<open>A \<open>time.Duration\<close> has 64 bits: products wrap, the difference of two instants saturates.\<close>

definition wrap64 :: "int \<Rightarrow> int" where
  "wrap64 n = sint (word_of_int n :: 64 word)"

definition timeSub :: "int \<Rightarrow> int \<Rightarrow> int" where
  "timeSub t u = max (- (2 ^ 63)) (min (2 ^ 63 - 1) (t - u))"

definition durationAbs :: "int \<Rightarrow> int" where
  "durationAbs d = (if d = - (2 ^ 63) then 2 ^ 63 - 1 else \<bar>d\<bar>)"

section \<open>Following the time left\<close>

definition identifySendEvent :: "('s, 'x) zdaInterface \<Rightarrow> identify \<Rightarrow> ('s, 'x) env \<Rightarrow> bool \<times> ('s, 'x) env" where
  "identifySendEvent I i e =
     (case readClock I e of
        (currentTime, e1) \<Rightarrow>
          (let endTime = retrieveOr I (decTime I) (id_section i) EndTimeKey currentTime e1;
               remaining = timeSub endTime currentTime;
               identifying = 0 < remaining
           in (identifying,
               sendEvent (EvIdentifyUpdate (id_device i) identifying (if 0 < remaining then remaining else 0)) e1)))"

text \<open>\<open>periodicSendEvent\<close>, called by \<open>updateDuration\<close> and again by each timer that fires.\<close>

definition periodicSendEvent ::
  "('s, 'x) zdaInterface \<Rightarrow> identify \<Rightarrow> ('s, 'x) env \<Rightarrow> identify \<times> ('s, 'x) env" where
  "periodicSendEvent I i e =
     (case identifySendEvent I i e of
        (identifying, e1) \<Rightarrow> (if identifying then i\<lparr>id_timers := Suc (id_timers i)\<rparr> else i, e1))"

definition timerFires ::
  "('s, 'x) zdaInterface \<Rightarrow> identify \<Rightarrow> ('s, 'x) env \<Rightarrow> identify \<times> ('s, 'x) env" where
  "timerFires I i e =
     (if id_timers i = 0 then (i, e)
      else periodicSendEvent I (i\<lparr>id_timers := id_timers i - 1\<rparr>) e)"

definition updateDuration ::
  "('s, 'x) zdaInterface \<Rightarrow> int \<Rightarrow> identify \<Rightarrow> ('s, 'x) env \<Rightarrow> identify \<times> ('s, 'x) env" where
  "updateDuration I duration i e =
     (let p = id_section i in
      case readClock I e of
        (now1, e1) \<Rightarrow>
          (case readClock I e1 of
             (now2, e2) \<Rightarrow>
               (let currentEndTime = retrieveOr I (decTime I) p EndTimeKey now1 e1;
                    currentDuration = max 0 (timeSub currentEndTime now2);
                    diff = wrap64 (currentDuration - duration)
                in if 250000000 \<le> durationAbs diff then
                     (case readClock I e2 of
                        (now3, e3) \<Rightarrow>
                          (let e4 = putKey I p EndTimeKey (encTime I (now3 + duration)) e3;
                               e5 = storeNow I p LastChangedKey e4
                           in case periodicSendEvent I i e5 of
                                (i', e6) \<Rightarrow> (i', storeNow I p LastUpdatedKey e6)))
                   else (i, storeNow I p LastUpdatedKey e2))))"

text \<open>The callback of the monitor: the value is a number of seconds.\<close>

definition identifyUpdate ::
  "('s, 'x) zdaInterface \<Rightarrow> AttributeID \<times> AttributeDataTypeValue \<Rightarrow> identify \<Rightarrow> ('s, 'x) env
    \<Rightarrow> identify \<times> ('s, 'x) env" where
  "identifyUpdate I v i e =
     (if DataType (snd v) = TypeUnsignedInt16 (zcl I) then
        (case castUint64 (Value (snd v)) of
           None \<Rightarrow> (i, e)
         | Some seconds \<Rightarrow> updateDuration I (wrap64 (wrap64 seconds * second)) i e)
      else (i, e))"

section \<open>Asking and starting\<close>

definition identifyStatus :: "('s, 'x) zdaInterface \<Rightarrow> identify \<Rightarrow> ('s, 'x) env \<Rightarrow> (bool \<times> int) \<times> ('s, 'x) env" where
  "identifyStatus I i e =
     (let endTime = retrieveOr I (decTime I) (id_section i) EndTimeKey zeroTime e in
      case readClock I e of
        (now, e1) \<Rightarrow> (let d = max 0 (timeSub endTime now) in ((0 < d, d), e1)))"

definition identifyTimes :: "('s, 'x) zdaInterface \<Rightarrow> identify \<Rightarrow> ('s, 'x) env \<Rightarrow> int \<times> int" where
  "identifyTimes I i e = (lastUpdateTime I (id_section i) e, lastChangeTime I (id_section i) e)"

text \<open>\<open>Identify\<close>: the duration in whole seconds, at most 65535, is sent to the device.\<close>

definition identifySeconds :: "int \<Rightarrow> 16 word" where
  "identifySeconds duration = word_of_int (min 0xffff (duration sdiv second))"

definition Identify ::
  "('s, 'x) zdaInterface \<Rightarrow> int \<Rightarrow> identify \<Rightarrow> ('s, 'x) env \<Rightarrow> goerr option \<times> identify \<times> ('s, 'x) env" where
  "Identify I duration i e =
     (case transmissionLookup (Some (id_device i)) e of
        ((ieee, lep, ack, seq), e1) \<Rightarrow>
          (case onWorld (RequestIdentify I
              \<lparr>identAddress = ieee, identAck = ack, identSequence = seq, identSource = lep,
               identDestination = id_remote i, identTime = identifySeconds duration\<rparr>) e1 of
             (Inl err, e2) \<Rightarrow> (Some err, i, e2)
           | (Inr _, e2) \<Rightarrow>
               (case updateDuration I (uint (identifySeconds duration) * second) i e2 of
                  (i', e3) \<Rightarrow> (None, i', e3))))"

end
