(* ===== verification/Power_Supply.thy ===== *)
theory Power_Supply
  imports Sensors
begin

text \<open>
  \<open>implcaps/zcl/power_supply\<close>: what a device says of its mains supply and of up to three
  batteries, each value followed by an attribute monitor of its own. The arrays of the code
  are lists of length 3.
\<close>

section \<open>Keys\<close>

definition MainsPresentKey :: string where "MainsPresentKey = ''MainsPresent''"
definition MainsVoltageKey :: string where "MainsVoltageKey = ''MainsVoltage''"
definition MainsFrequencyKey :: string where "MainsFrequencyKey = ''MainsFrequency''"
definition MainsVoltagePresentKey :: string where "MainsVoltagePresentKey = ''MainsVoltagePresent''"
definition MainsFrequencyPresentKey :: string where "MainsFrequencyPresentKey = ''MainsFrequencyPresent''"

definition BatteryVoltageKey :: "nat \<Rightarrow> string" where
  "BatteryVoltageKey n = ''BatteryVoltage'' @ Itoa (int n)"

definition BatteryPercentageKey :: "nat \<Rightarrow> string" where
  "BatteryPercentageKey n = ''BatteryPercentage'' @ Itoa (int n)"

definition BatteryPresentKey :: "nat \<Rightarrow> string" where
  "BatteryPresentKey n = ''BatteryPresent'' @ Itoa (int n)"

definition BatteryVoltagePresentKey :: "nat \<Rightarrow> string" where
  "BatteryVoltagePresentKey n = ''BatteryVoltage'' @ Itoa (int n) @ ''Present''"

definition BatteryPercentagePresentKey :: "nat \<Rightarrow> string" where
  "BatteryPercentagePresentKey n = ''BatteryPercentage'' @ Itoa (int n) @ ''Present''"

section \<open>State\<close>

record powerSupply =
  ps_section :: path
  ps_device :: address
  ps_remote :: Endpoint
  mainsVoltageMonitor :: zclMonitor
  mainsFrequencyMonitor :: zclMonitor
  batteryVoltageMonitor :: "zclMonitor list"
  batteryPercentageMonitor :: "zclMonitor list"
  mainsPresent :: bool
  mainsVoltagePresent :: bool
  mainsFrequencyPresent :: bool
  batteryPresent :: "bool list"
  batteryVoltagePresent :: "bool list"
  batteryPercentagePresent :: "bool list"

definition NewPowerSupply :: powerSupply where
  "NewPowerSupply =
     \<lparr>ps_section = [], ps_device = addressOf 0 0, ps_remote = 0,
      mainsVoltageMonitor = NewMonitor, mainsFrequencyMonitor = NewMonitor,
      batteryVoltageMonitor = replicate 3 NewMonitor, batteryPercentageMonitor = replicate 3 NewMonitor,
      mainsPresent = False, mainsVoltagePresent = False, mainsFrequencyPresent = False,
      batteryPresent = replicate 3 False, batteryVoltagePresent = replicate 3 False,
      batteryPercentagePresent = replicate 3 False\<rparr>"

definition monitorPath :: "path \<Rightarrow> string \<Rightarrow> path" where
  "monitorPath p k = p @ [''AttributeMonitor'', k]"

definition powerInit ::
  "('s, 'x) zdaInterface \<Rightarrow> address \<Rightarrow> path \<Rightarrow> powerSupply \<Rightarrow> ('s, 'x) env \<Rightarrow> powerSupply \<times> ('s, 'x) env" where
  "powerInit I d p i e =
     (let mon = (\<lambda>k. monitorInit (monitorPath p k) d NewMonitor);
          e1 = openSection I (monitorPath p MainsFrequencyKey) (openSection I (monitorPath p MainsVoltageKey) e);
          e2 = fold (\<lambda>n e. openSection I (monitorPath p (BatteryPercentageKey n))
                 (openSection I (monitorPath p (BatteryVoltageKey n)) e)) [0, 1, 2] e1
      in (i\<lparr>ps_section := p, ps_device := d, mainsVoltageMonitor := mon MainsVoltageKey,
            mainsFrequencyMonitor := mon MainsFrequencyKey,
            batteryVoltageMonitor := map (\<lambda>n. mon (BatteryVoltageKey n)) [0, 1, 2],
            batteryPercentageMonitor := map (\<lambda>n. mon (BatteryPercentageKey n)) [0, 1, 2]\<rparr>, e2))"

text \<open>The four places a monitor is kept in, to read and to write it.\<close>

datatype slot = SMainsVoltage | SMainsFrequency | SBatteryVoltage nat | SBatteryPercentage nat

fun getMonitor :: "slot \<Rightarrow> powerSupply \<Rightarrow> zclMonitor" where
  "getMonitor SMainsVoltage i = mainsVoltageMonitor i"
| "getMonitor SMainsFrequency i = mainsFrequencyMonitor i"
| "getMonitor (SBatteryVoltage n) i = batteryVoltageMonitor i ! n"
| "getMonitor (SBatteryPercentage n) i = batteryPercentageMonitor i ! n"

fun setMonitor :: "slot \<Rightarrow> zclMonitor \<Rightarrow> powerSupply \<Rightarrow> powerSupply" where
  "setMonitor SMainsVoltage m i = i\<lparr>mainsVoltageMonitor := m\<rparr>"
| "setMonitor SMainsFrequency m i = i\<lparr>mainsFrequencyMonitor := m\<rparr>"
| "setMonitor (SBatteryVoltage n) m i = i\<lparr>batteryVoltageMonitor := (batteryVoltageMonitor i)[n := m]\<rparr>"
| "setMonitor (SBatteryPercentage n) m i = i\<lparr>batteryPercentageMonitor := (batteryPercentageMonitor i)[n := m]\<rparr>"

section \<open>Loading\<close>

text \<open>One monitor of \<open>Load\<close>: skipped unless its value is present, and after an earlier failure.
  The result is the error \<open>Load\<close> returns, \<open>None\<close> as long as all is well; a panic ends the
  process.\<close>

definition loadMonitor ::
  "('s, 'x) zdaInterface \<Rightarrow> slot \<Rightarrow> bool \<Rightarrow> string \<Rightarrow> goerr option \<times> powerSupply \<times> ('s, 'x) env
    \<Rightarrow> goerr option \<times> powerSupply \<times> ('s, 'x) env" where
  "loadMonitor I sl isPresent text st =
     (case st of (failed, i, e) \<Rightarrow>
        if failed \<noteq> None \<or> \<not> isPresent then st
        else
          (case monitorLoad I (getMonitor sl i) e of
             (r, m, e1) \<Rightarrow>
               (case r of Returns (Some err) \<Rightarrow> Some (Errorf text err)
                        | Panics \<Rightarrow> Some (Err ''panic'') | Returns None \<Rightarrow> None,
                setMonitor sl (crashOn r m) i, e1)))"

definition loadBattery ::
  "('s, 'x) zdaInterface \<Rightarrow> nat \<Rightarrow> goerr option \<times> powerSupply \<times> ('s, 'x) env
    \<Rightarrow> goerr option \<times> powerSupply \<times> ('s, 'x) env" where
  "loadBattery I n st =
     (case st of (failed, i, e) \<Rightarrow>
        if failed \<noteq> None then st
        else
          (let p = ps_section i;
               i1 = i\<lparr>batteryPresent := (batteryPresent i)[n := boolKey I p (BatteryPresentKey n) e],
                      batteryPercentagePresent :=
                        (batteryPercentagePresent i)[n := boolKey I p (BatteryPercentagePresentKey n) e],
                      batteryVoltagePresent :=
                        (batteryVoltagePresent i)[n := boolKey I p (BatteryVoltagePresentKey n) e]\<rparr>;
               st1 = loadMonitor I (SBatteryPercentage n) (batteryPercentagePresent i1 ! n)
                       (''battery '' @ Itoa (int n) @ '' percentage monitor, attach failed'') (None, i1, e)
           in loadMonitor I (SBatteryVoltage n) (batteryVoltagePresent i1 ! n)
                (''battery '' @ Itoa (int n) @ '' voltage monitor, attach failed'') st1))"

definition powerLoad ::
  "('s, 'x) zdaInterface \<Rightarrow> powerSupply \<Rightarrow> ('s, 'x) env \<Rightarrow> (bool \<times> goerr option) \<times> powerSupply \<times> ('s, 'x) env" where
  "powerLoad I i e =
     (let p = ps_section i;
          i1 = i\<lparr>mainsPresent := boolKey I p MainsPresentKey e,
                 mainsVoltagePresent := boolKey I p MainsVoltagePresentKey e,
                 mainsFrequencyPresent := boolKey I p MainsFrequencyPresentKey e\<rparr>;
          st1 = loadMonitor I SMainsVoltage (mainsVoltagePresent i1)
                  ''mains voltage monitor, attach failed'' (None, i1, e);
          st2 = loadMonitor I SMainsFrequency (mainsFrequencyPresent i1)
                  ''mains voltage frequency, attach failed'' st1
      in case fold (loadBattery I) [0, 1, 2] st2 of
           (failed, i', e') \<Rightarrow> ((failed = None, failed), i', e'))"

section \<open>The Basic cluster\<close>

text \<open>The value of the \<open>PowerSource\<close> attribute, if it is a number: an enumeration of sources
  in the low bits, and a flag for a battery as backup.\<close>

fun powerSourceValue :: "zclValue \<Rightarrow> 64 word option" where
  "powerSourceValue (ZUint64 v) = Some v"
| "powerSourceValue (ZUint8 v) = Some (ucast v)"
| "powerSourceValue _ = None"

definition applyPowerSource :: "64 word \<Rightarrow> powerSupply \<Rightarrow> powerSupply" where
  "applyPowerSource val i =
     (let low = and val 0x0f;
          i1 = (if low \<in> {0x01, 0x02, 0x04, 0x05, 0x06} then i\<lparr>mainsPresent := True\<rparr>
                else if low = 0x03 then i\<lparr>batteryPresent := (batteryPresent i)[0 := True]\<rparr>
                else i)
      in if and val 0x80 = 0x80 then
           (if batteryPresent i1 ! 0 then i1\<lparr>batteryPresent := (batteryPresent i1)[1 := True]\<rparr>
            else i1\<lparr>batteryPresent := (batteryPresent i1)[0 := True]\<rparr>)
         else i1)"

definition storeBasic :: "('s, 'x) zdaInterface \<Rightarrow> powerSupply \<Rightarrow> ('s, 'x) env \<Rightarrow> ('s, 'x) env" where
  "storeBasic I i e =
     (let p = ps_section i;
          e1 = (if mainsPresent i then putKey I p MainsPresentKey (PBool True) e else e)
      in fold (\<lambda>n e. if batteryPresent i ! n then putKey I p (BatteryPresentKey n) (PBool True) e else e)
           [0, 1] e1)"

definition readPower ::
  "('s, 'x) zdaInterface \<Rightarrow> IEEEAddress \<Rightarrow> Endpoint \<Rightarrow> bool \<Rightarrow> 8 word \<Rightarrow> ClusterID \<Rightarrow> AttributeID list
    \<Rightarrow> powerSupply \<Rightarrow> (ReadAttributeResponseRecord list, 's, 'x) attempt" where
  "readPower I ieee lep ack seq c as i =
     onWorld (ReadOnce I \<lparr>readAddress = ieee, readAck = ack, readCluster = c, readSource = lep,
       readDestination = ps_remote i, readSequence = seq, readAttributes = as\<rparr>)"

definition enumerateBasicCluster ::
  "('s, 'x) zdaInterface \<Rightarrow> powerSupply \<Rightarrow> ('s, 'x) env
    \<Rightarrow> (bool \<times> goerr option) outcome \<times> powerSupply \<times> ('s, 'x) env" where
  "enumerateBasicCluster I i e =
     (case transmissionLookup (Some (ps_device i)) e of
        ((ieee, lep, ack, seq), e1) \<Rightarrow>
          (case readPower I ieee lep ack seq (BasicId (zcl I)) [PowerSource (zcl I)] i e1 of
             (Inl err, e2) \<Rightarrow> (Returns (False, Some err), i, storeBasic I i e2)
           | (Inr resp, e2) \<Rightarrow>
               (case resp of
                  [] \<Rightarrow> (Returns (False, None), i, storeBasic I i e2)
                | r # _ \<Rightarrow>
                    if RecordStatus r \<noteq> 0 \<or> Identifier r \<noteq> PowerSource (zcl I) then
                      (Returns (False, None), i, storeBasic I i e2)
                    else
                      (case DataTypeValue r of
                         None \<Rightarrow> (Panics, i, e2)
                       | Some dv \<Rightarrow>
                           (case powerSourceValue (Value dv) of
                              None \<Rightarrow> (Returns (False, None), i, storeBasic I i e2)
                            | Some val \<Rightarrow>
                                (let i1 = applyPowerSource val i
                                 in (Returns (True, None), i1, storeBasic I i1 e2)))))))"

section \<open>The PowerConfiguration cluster\<close>

text \<open>The answers about the mains: every successful one is a reason to attach.\<close>

definition applyMains :: "zclConstants \<Rightarrow> ReadAttributeResponseRecord \<Rightarrow> bool \<times> powerSupply \<Rightarrow> bool \<times> powerSupply" where
  "applyMains Z d = (\<lambda>(attach, i).
     if RecordStatus d = 0 then
       (True,
        if Identifier d = AttrMainsVoltage Z then i\<lparr>mainsPresent := True, mainsVoltagePresent := True\<rparr>
        else if Identifier d = AttrMainsFrequency Z then i\<lparr>mainsPresent := True, mainsFrequencyPresent := True\<rparr>
        else i)
     else (attach, i))"

text \<open>The answers about battery \<open>n\<close>: every one is a reason to attach, whatever its status.\<close>

definition applyBattery ::
  "zclConstants \<Rightarrow> nat \<Rightarrow> ReadAttributeResponseRecord \<Rightarrow> bool \<times> powerSupply \<Rightarrow> bool \<times> powerSupply" where
  "applyBattery Z n d = (\<lambda>(attach, i).
     (True,
      if RecordStatus d = 0 then
        (if Identifier d = AttrBatteryPercentage Z ! n then
           i\<lparr>batteryPresent := (batteryPresent i)[n := True],
             batteryPercentagePresent := (batteryPercentagePresent i)[n := True]\<rparr>
         else if Identifier d = AttrBatteryVoltage Z ! n then
           i\<lparr>batteryPresent := (batteryPresent i)[n := True],
             batteryVoltagePresent := (batteryVoltagePresent i)[n := True]\<rparr>
         else i)
      else i))"

text \<open>What the enumeration of the cluster carries along: whether to attach, the last error,
  whether it has panicked (the steps after that are skipped).\<close>

type_synonym ('s, 'x) power = "(bool \<times> goerr option) outcome \<times> powerSupply \<times> ('s, 'x) env"

definition readMains ::
  "('s, 'x) zdaInterface \<Rightarrow> IEEEAddress \<Rightarrow> Endpoint \<Rightarrow> bool \<Rightarrow> 8 word \<Rightarrow> powerSupply \<Rightarrow> ('s, 'x) env
    \<Rightarrow> (bool \<times> goerr option) \<times> powerSupply \<times> ('s, 'x) env" where
  "readMains I ieee lep ack seq i e =
     (case readPower I ieee lep ack seq (PowerConfigurationId (zcl I))
             [AttrMainsVoltage (zcl I), AttrMainsFrequency (zcl I)] i e of
        (Inl err, e1) \<Rightarrow> ((False, Some err), i, e1)
      | (Inr resp, e1) \<Rightarrow>
          (case fold (applyMains (zcl I)) resp (False, i) of (attach, i1) \<Rightarrow> ((attach, None), i1, e1)))"

definition readBattery ::
  "('s, 'x) zdaInterface \<Rightarrow> IEEEAddress \<Rightarrow> Endpoint \<Rightarrow> bool \<Rightarrow> nat
    \<Rightarrow> (bool \<times> goerr option) \<times> powerSupply \<times> ('s, 'x) env
    \<Rightarrow> (bool \<times> goerr option) \<times> powerSupply \<times> ('s, 'x) env" where
  "readBattery I ieee lep ack n = (\<lambda>((attach, lastError), i, e).
     (case transmissionLookup (Some (ps_device i)) e of
        ((_, _, _, seq), e1) \<Rightarrow>
          (case readPower I ieee lep ack seq (PowerConfigurationId (zcl I))
                  [AttrBatteryVoltage (zcl I) ! n, AttrBatteryPercentage (zcl I) ! n] i e1 of
             (Inl err, e2) \<Rightarrow> ((attach, Some err), i, e2)
           | (Inr resp, e2) \<Rightarrow>
               (case fold (applyBattery (zcl I) n) resp (attach, i) of
                  (attach', i1) \<Rightarrow> ((attach', lastError), i1, e2)))))"

text \<open>Attaching one monitor: an error is remembered as the last one. The slot is the monitor
  \<open>Attach\<close> is called on.\<close>

definition attachMonitor ::
  "('s, 'x) zdaInterface \<Rightarrow> slot \<Rightarrow> bool \<Rightarrow> string \<Rightarrow> AttributeID \<Rightarrow> 8 word \<Rightarrow> int
    \<Rightarrow> ('s, 'x) power \<Rightarrow> ('s, 'x) power" where
  "attachMonitor I sl isPresent key a dt change st =
     (case st of
        (Panics, i, e) \<Rightarrow> st
      | (Returns (attach, lastError), i, e) \<Rightarrow>
          if \<not> isPresent then st
          else
            (case monitorAttach I (ps_remote i) (PowerConfigurationId (zcl I)) a dt
                    \<lparr>reportMode = AttemptConfigureReporting, MinimumInterval = 1 * minute,
                     MaximumInterval = 5 * minute, ReportableChange = change\<rparr>
                    \<lparr>pollMode = PollIfReportingFailed, Interval = 5 * minute\<rparr>
                    (getMonitor sl i) (putKey I (ps_section i) key (PBool True) e) of
               (r, m, e1) \<Rightarrow>
                 (case r of
                    Panics \<Rightarrow> (Panics, setMonitor sl m i, e1)
                  | Returns None \<Rightarrow> (Returns (attach, lastError), setMonitor sl m i, e1)
                  | Returns (Some err) \<Rightarrow> (Returns (attach, Some err), setMonitor sl m i, e1))))"

definition onPowerEnv :: "(powerSupply \<Rightarrow> ('s, 'x) env \<Rightarrow> ('s, 'x) env) \<Rightarrow> ('s, 'x) power \<Rightarrow> ('s, 'x) power" where
  "onPowerEnv f st = (case st of (Panics, i, e) \<Rightarrow> st | (Returns r, i, e) \<Rightarrow> (Returns r, i, f i e))"

text \<open>The frequency is attached on the monitor of the voltage.\<close>

definition attachMains :: "('s, 'x) zdaInterface \<Rightarrow> ('s, 'x) power \<Rightarrow> ('s, 'x) power" where
  "attachMains I st =
     (let i = fst (snd st);
          st1 = attachMonitor I SMainsVoltage (mainsVoltagePresent i) MainsVoltagePresentKey
                  (AttrMainsVoltage (zcl I)) (TypeUnsignedInt16 (zcl I)) 5 st
      in attachMonitor I SMainsVoltage (mainsFrequencyPresent i) MainsFrequencyPresentKey
           (AttrMainsFrequency (zcl I)) (TypeUnsignedInt8 (zcl I)) 1 st1)"

definition attachBattery :: "('s, 'x) zdaInterface \<Rightarrow> nat \<Rightarrow> ('s, 'x) power \<Rightarrow> ('s, 'x) power" where
  "attachBattery I n st =
     (let i = fst (snd st);
          st0 = onPowerEnv (\<lambda>i. putKey I (ps_section i) (BatteryPresentKey n) (PBool (batteryPresent i ! n))) st;
          st1 = attachMonitor I (SBatteryPercentage n) (batteryPercentagePresent i ! n)
                  (BatteryPercentagePresentKey n) (AttrBatteryPercentage (zcl I) ! n) (TypeUnsignedInt8 (zcl I)) 1 st0
      in attachMonitor I (SBatteryVoltage n) (batteryVoltagePresent i ! n)
           (BatteryVoltagePresentKey n) (AttrBatteryVoltage (zcl I) ! n) (TypeUnsignedInt8 (zcl I)) 1 st1)"

definition enumeratePowerConfigurationCluster ::
  "('s, 'x) zdaInterface \<Rightarrow> powerSupply \<Rightarrow> ('s, 'x) env \<Rightarrow> ('s, 'x) power" where
  "enumeratePowerConfigurationCluster I i e =
     (case transmissionLookup (Some (ps_device i)) e of
        ((ieee, lep, ack, seq), e1) \<Rightarrow>
          (case fold (readBattery I ieee lep ack) [0, 1, 2] (readMains I ieee lep ack seq i e1) of
             (r, i1, e2) \<Rightarrow>
               fold (attachBattery I) [0, 1, 2]
                 (attachMains I (onPowerEnv
                    (\<lambda>i. putKey I (ps_section i) MainsPresentKey (PBool (mainsPresent i))) (Returns r, i1, e2)))))"

section \<open>Enumerating and detaching\<close>

text \<open>The result of one cluster: an error is kept, otherwise an attach is. The error of the
  second cluster replaces that of the first.\<close>

definition mergeCluster ::
  "string \<Rightarrow> bool \<times> goerr option \<Rightarrow> (bool \<times> goerr option) outcome \<Rightarrow> (bool \<times> goerr option) outcome" where
  "mergeCluster text acc r =
     (case r of
        Panics \<Rightarrow> Panics
      | Returns (_, Some err) \<Rightarrow> Returns (fst acc, Some (Errorf text err))
      | Returns (a, None) \<Rightarrow> Returns (fst acc \<or> a, snd acc))"

definition powerEnumerate ::
  "('s, 'x) zdaInterface \<Rightarrow> Settings \<Rightarrow> powerSupply \<Rightarrow> ('s, 'x) env \<Rightarrow> ('s, 'x) power" where
  "powerEnumerate I m i e =
     (let remote = Get castEndpoint m ''ZigbeeEndpoint'' 1;
          i1 = i\<lparr>ps_remote := remote\<rparr>;
          e1 = putKey I (ps_section i) RemoteEndpointKey (PInt (uint remote)) e
      in case (if Get castBool m ''ZigbeeBasicClusterPresent'' False then
                 (case enumerateBasicCluster I i1 e1 of
                    (r, i2, e2) \<Rightarrow> (mergeCluster ''enumerating basic cluster'' (False, None) r, i2, e2))
               else (Returns (False, None), i1, e1)) of
           (Panics, i2, e2) \<Rightarrow> (Panics, i2, e2)
         | (Returns acc, i2, e2) \<Rightarrow>
             (if Get castBool m ''ZigbeePowerConfigurationClusterPresent'' False then
                (case enumeratePowerConfigurationCluster I i2 e2 of
                   (r, i3, e3) \<Rightarrow> (mergeCluster ''enumerating power configuration cluster'' acc r, i3, e3))
              else (Returns acc, i2, e2)))"

definition detachMonitor ::
  "('s, 'x) zdaInterface \<Rightarrow> DetachType \<Rightarrow> slot \<Rightarrow> (powerSupply \<Rightarrow> bool)
    \<Rightarrow> goerr option \<times> powerSupply \<times> ('s, 'x) env \<Rightarrow> goerr option \<times> powerSupply \<times> ('s, 'x) env" where
  "detachMonitor I t sl isPresent = (\<lambda>(lastError, i, e).
     if isPresent i then
       (case monitorDetach I (t = NoLongerEnumerated) (getMonitor sl i) e of
          (err, m, e1) \<Rightarrow> (case err of None \<Rightarrow> lastError | Some x \<Rightarrow> Some x, setMonitor sl m i, e1))
     else (lastError, i, e))"

definition powerDetach ::
  "('s, 'x) zdaInterface \<Rightarrow> DetachType \<Rightarrow> powerSupply \<Rightarrow> ('s, 'x) env
    \<Rightarrow> goerr option \<times> powerSupply \<times> ('s, 'x) env" where
  "powerDetach I t i e =
     fold (\<lambda>n st. detachMonitor I t (SBatteryVoltage n) (\<lambda>i. batteryVoltagePresent i ! n)
                    (detachMonitor I t (SBatteryPercentage n) (\<lambda>i. batteryPercentagePresent i ! n) st))
       [0, 1, 2]
       (detachMonitor I t SMainsFrequency mainsFrequencyPresent
         (detachMonitor I t SMainsVoltage mainsVoltagePresent (None, i, e)))"

section \<open>Status\<close>

definition mainsState :: "('s, 'x) zdaInterface \<Rightarrow> powerSupply \<Rightarrow> ('s, 'x) env \<Rightarrow> PowerMainsState" where
  "mainsState I i e =
     \<lparr>MainsVoltage = (if mainsVoltagePresent i then floatKey I (ps_section i) MainsVoltageKey e else 0),
      MainsFrequency = (if mainsFrequencyPresent i then floatKey I (ps_section i) MainsFrequencyKey e else 0),
      MainsPresent = (if mainsVoltagePresent i then {Voltage} else {}) \<union>
                     (if mainsFrequencyPresent i then {Frequency} else {})\<rparr>"

definition batteryState :: "('s, 'x) zdaInterface \<Rightarrow> powerSupply \<Rightarrow> ('s, 'x) env \<Rightarrow> nat \<Rightarrow> PowerBatteryState" where
  "batteryState I i e n =
     \<lparr>BatteryVoltage = (if batteryVoltagePresent i ! n then floatKey I (ps_section i) (BatteryVoltageKey n) e else 0),
      BatteryRemaining = (if batteryPercentagePresent i ! n
                          then fdiv (floatKey I (ps_section i) (BatteryPercentageKey n) e) 100 else 0),
      BatteryPresent = (if batteryPercentagePresent i ! n then {Remaining} else {}) \<union>
                       (if batteryVoltagePresent i ! n then {Voltage} else {})\<rparr>"

definition powerStatus :: "('s, 'x) zdaInterface \<Rightarrow> powerSupply \<Rightarrow> ('s, 'x) env \<Rightarrow> PowerState" where
  "powerStatus I i e =
     \<lparr>Mains = (if mainsPresent i then [mainsState I i e] else []),
      Battery = map (batteryState I i e) (filter (\<lambda>n. batteryPresent i ! n) [0, 1, 2])\<rparr>"

definition powerTimes :: "('s, 'x) zdaInterface \<Rightarrow> powerSupply \<Rightarrow> ('s, 'x) env \<Rightarrow> int \<times> int" where
  "powerTimes I i e = (lastUpdateTime I (ps_section i) e, lastChangeTime I (ps_section i) e)"

section \<open>Updates\<close>

definition attributeIdToBattery :: "AttributeID \<Rightarrow> nat" where
  "attributeIdToBattery a =
     (if and a 0x0020 = 0x0020 then 0
      else if and a 0x0040 = 0x0040 then 1
      else if and a 0x0060 = 0x0060 then 2
      else 0)"

text \<open>What an attribute's value is stored under, its scale and how much it must change to be
  announced.\<close>

definition powerValue :: "zclConstants \<Rightarrow> AttributeID \<Rightarrow> (string \<times> rat \<times> rat) option" where
  "powerValue Z a =
     (if a = AttrMainsVoltage Z then Some (MainsVoltageKey, 10, 1 / 10)
      else if a = AttrMainsFrequency Z then Some (MainsFrequencyKey, 2, 1)
      else if a \<in> set (AttrBatteryVoltage Z) then
        Some (BatteryVoltageKey (attributeIdToBattery a), 10, 5 / 100)
      else if a \<in> set (AttrBatteryPercentage Z) then
        Some (BatteryPercentageKey (attributeIdToBattery a), 2, 1 / 10)
      else None)"

definition powerUpdate ::
  "('s, 'x) zdaInterface \<Rightarrow> AttributeID \<times> AttributeDataTypeValue \<Rightarrow> powerSupply \<Rightarrow> ('s, 'x) env \<Rightarrow> ('s, 'x) env" where
  "powerUpdate I v i e =
     (let p = ps_section i in
      case (case castUint64 (Value (snd v)) of
              None \<Rightarrow> (False, e)
            | Some raw \<Rightarrow>
                (case powerValue (zcl I) (fst v) of
                   None \<Rightarrow> (False, e)
                 | Some (key, scale, change) \<Rightarrow>
                     (let new = fdiv (float64 (of_int raw)) scale
                      in (float64 change \<le> \<bar>fsub new (floatKey I p key e)\<bar>, putKey I p key (PFloat new) e)))) of
        (announce, e1) \<Rightarrow>
          storeNow I p LastUpdatedKey
            (if announce then
               (let e2 = storeNow I p LastChangedKey e1
                in sendEvent (EvPowerStatusUpdate (ps_device i) (powerStatus I i e2)) e2)
             else e1))"

end
