(* ===== verification/Table_Mirror.thy ===== *)
theory Table_Mirror
  imports Table
begin

text \<open>
  The persistence store mirrors the table: the invariant \<open>mirrors\<close>, and that every operation
  of \<open>table.go\<close> keeps it.
\<close>

section \<open>The invariant\<close>

text \<open>A store in which nothing is left below a device that is not listed.\<close>

definition clean :: "'s host \<Rightarrow> 's \<Rightarrow> bool" where
  "clean h s \<longleftrightarrow>
     (\<forall>d. d \<notin> deviceKeys h s \<longrightarrow> (\<forall>q. prefix (devicePath h d) q \<longrightarrow>
        p_keys (persist h) q s = [] \<and> (\<forall>j. p_get (persist h) q j s = None)))"

text \<open>The section a capability keeps its own data in.\<close>

definition dataPath :: "'s host \<Rightarrow> address \<Rightarrow> Capability \<Rightarrow> path" where
  "dataPath h d cF = capabilityPath h d cF @ [''Data'']"

text \<open>An attached capability: filed under its own flag, an implementation the factory knows
  for that flag, with its section in place and the name of the implementation stored, so
  that a restart finds it.\<close>

definition capability_ok ::
  "'s host \<Rightarrow> ('c, 's, 'x) zdaCapability \<Rightarrow> address \<Rightarrow> 's \<Rightarrow> Capability \<Rightarrow> 'c \<Rightarrow> bool" where
  "capability_ok h C d s cf c \<longleftrightarrow>
     c_Capability C c = cf \<and> c_Section C c = dataPath h d cf \<and>
     map_of Mapping (c_ImplName C c) = Some cf \<and>
     present (persist h) (dataPath h d cf) s \<and>
     p_get (persist h) (capabilityPath h d cf) ''Implementation'' s = Some (PString (c_ImplName C c))"

text \<open>Every stored implementation name is filed under the flag it implements, so that what a
  restart makes of it ends up where it was.\<close>

definition filed :: "'s host \<Rightarrow> address \<Rightarrow> 's \<Rightarrow> bool" where
  "filed h d s \<longleftrightarrow>
     (\<forall>k impl. p_get (persist h) (capabilityRoot h d @ [k]) ''Implementation'' s = Some (PString impl) \<longrightarrow>
        (\<exists>cf. map_of Mapping impl = Some cf \<and> k = StandardNames h cf))"

definition device_ok ::
  "'s host \<Rightarrow> ('c, 's, 'x) zdaCapability \<Rightarrow> address \<Rightarrow> 's \<Rightarrow> 'c device \<Rightarrow> bool" where
  "device_ok h C d s dev \<longleftrightarrow>
     present (persist h) (devicePath h d) s \<and>
     p_get (persist h) (devicePath h d) ''UniqueId'' s =
       (if deviceIdSet dev then Some (PInt (deviceId dev)) else None) \<and>
     (\<not> deviceIdSet dev \<longrightarrow> deviceId dev = 0) \<and> filed h d s \<and>
     (\<forall>cf c. map_of (capabilities dev) cf = Some c \<longrightarrow> capability_ok h C d s cf c)"

definition mirrors :: "'s host \<Rightarrow> ('c, 's, 'x) zdaCapability \<Rightarrow> ('c, 's, 'x) ZDA \<Rightarrow> bool" where
  "mirrors h C z \<longleftrightarrow>
     table_wf z \<and> canonical h (store (env z)) \<and> clean h (store (env z)) \<and>
     nodeKeys h (store (env z)) = {a. getNode a z \<noteq> None} \<and>
     deviceKeys h (store (env z)) = {d. getDevice d z \<noteq> None} \<and>
     (\<forall>d dev. getDevice d z = Some dev \<longrightarrow> device_ok h C d (store (env z)) dev)"

lemma mirrorsD:
  assumes "mirrors h C z"
  shows "table_wf z" "canonical h (store (env z))" "clean h (store (env z))"
    "nodeKeys h (store (env z)) = {a. getNode a z \<noteq> None}"
    "deviceKeys h (store (env z)) = {d. getDevice d z \<noteq> None}"
    "getDevice d z = Some dev \<Longrightarrow> device_ok h C d (store (env z)) dev"
  using assms unfolding mirrors_def by blast+

lemma mirrorsI:
  assumes "table_wf z" "canonical h (store (env z))" "clean h (store (env z))"
    "nodeKeys h (store (env z)) = {a. getNode a z \<noteq> None}"
    "deviceKeys h (store (env z)) = {d. getDevice d z \<noteq> None}"
    "\<And>d dev. getDevice d z = Some dev \<Longrightarrow> device_ok h C d (store (env z)) dev"
  shows "mirrors h C z"
  using assms unfolding mirrors_def by blast

locale gateway = zda_capability "persist h" C
  for h :: "'s host" and C :: "('c, 's, 'x) zdaCapability" +
  assumes host: "host_ok h"

sublocale gateway \<subseteq> P: section_store "persist h"
  by (rule host_okD(1) [OF host])

section \<open>Paths\<close>

lemma length_devicePath [simp]: "length (devicePath h d) = 4"
  by (simp add: path_defs)

context gateway begin

lemma devicePath_inject: "devicePath h d = devicePath h d' \<longleftrightarrow> d = d'"
  by (auto simp: path_defs ieeeString_inject [OF host] address_eq_iff)

lemma devicePath_disjoint:
  assumes "prefix (devicePath h d) q" "prefix (devicePath h d') q"
  shows "d = d'"
proof -
  from assms have "devicePath h d = devicePath h d'" by (rule prefix_same_length) simp
  then show ?thesis by (simp add: devicePath_inject)
qed

lemma shorter_not_below: "length q < 4 \<Longrightarrow> \<not> prefix (devicePath h d) q"
  by (auto simp: prefix_def)

lemma capabilityPath_inject: "capabilityPath h d cf = capabilityPath h d cf' \<longleftrightarrow> cf = cf'"
  by (simp add: capabilityPath_def host_okD(3) [OF host])

lemma capabilityPath_disjoint:
  assumes "prefix (capabilityPath h d cf) q" "prefix (capabilityPath h d cf') q"
  shows "cf = cf'"
proof -
  from assms have "capabilityPath h d cf = capabilityPath h d cf'"
    by (rule prefix_same_length) (simp add: capabilityPath_def capabilityRoot_def)
  then show ?thesis by (simp add: capabilityPath_inject)
qed

lemma device_below [simp]:
  "prefix (devicePath h d) (devicePath h d)" "prefix (devicePath h d) (capabilityRoot h d)"
  "prefix (devicePath h d) (capabilityPath h d cf)" "prefix (devicePath h d) (dataPath h d cf)"
  "prefix (capabilityPath h d cf) (dataPath h d cf)"
  by (simp_all add: capabilityRoot_def capabilityPath_def dataPath_def)

lemma not_below_device [simp]:
  "\<not> prefix (capabilityPath h d cf) (devicePath h d)" "\<not> prefix (capabilityRoot h d) (devicePath h d)"
  "\<not> prefix (capabilityPath h d cf) (capabilityRoot h d)"
  "\<not> prefix (dataPath h d cf) (capabilityPath h d cf)"
  by (auto simp: capabilityRoot_def capabilityPath_def dataPath_def prefix_def)

section \<open>Changes below one device\<close>

text \<open>A change of the store at or below one device leaves everything else of the persisted
  table as it was.\<close>

lemma device_change:
  assumes "only_below (persist h) (devicePath h d) s s'"
  shows "nodeKeys h s' = nodeKeys h s" "deviceKeys h s' = deviceKeys h s"
    "canonical h s \<Longrightarrow> canonical h s'"
proof -
  have root: "set (p_keys (persist h) nodeRoot s') = set (p_keys (persist h) nodeRoot s)"
    using assms by (rule only_belowD) (simp add: shorter_not_below path_defs)
  have dev: "set (p_keys (persist h) (deviceRoot h a) s') = set (p_keys (persist h) (deviceRoot h a) s)" for a
    using assms by (rule only_belowD) (simp add: shorter_not_below path_defs)
  show "nodeKeys h s' = nodeKeys h s" by (simp add: nodeKeys_def root)
  show "deviceKeys h s' = deviceKeys h s" by (simp add: deviceKeys_def dev)
  show "canonical h s \<Longrightarrow> canonical h s'" unfolding canonical_def by (simp add: root dev)
qed

lemma device_change_clean:
  assumes "only_below (persist h) (devicePath h d) s s'" "d \<in> deviceKeys h s" "clean h s"
  shows "clean h s'"
  unfolding clean_def
proof (intro allI impI)
  fix d' q
  assume d': "d' \<notin> deviceKeys h s'" "prefix (devicePath h d') q"
  then have "d' \<notin> deviceKeys h s" using device_change(2) [OF assms(1)] by simp
  with assms(2) have "\<not> prefix (devicePath h d) q" using devicePath_disjoint [OF d'(2)] by auto
  with assms(1) have "set (p_keys (persist h) q s') = set (p_keys (persist h) q s)"
    "\<And>j. p_get (persist h) q j s' = p_get (persist h) q j s"
    by (auto dest: only_belowD)
  then show "p_keys (persist h) q s' = [] \<and> (\<forall>j. p_get (persist h) q j s' = None)"
    using assms(3) \<open>d' \<notin> deviceKeys h s\<close> d'(2) by (simp add: clean_def)
qed

text \<open>What a device relies on: everything below it, and its own presence.\<close>

lemma device_ok_frame:
  assumes "device_ok h C d s dev" "present (persist h) (devicePath h d) s'"
    and same: "\<And>q. prefix (devicePath h d) q \<Longrightarrow>
      set (p_keys (persist h) q s') = set (p_keys (persist h) q s) \<and>
      (\<forall>j. p_get (persist h) q j s' = p_get (persist h) q j s)"
  shows "device_ok h C d s' dev"
proof -
  have pres: "present (persist h) p s'"
    if "present (persist h) p s" "prefix (devicePath h d) p" for p
    unfolding present_def
  proof (intro allI impI)
    fix q k
    assume qk: "prefix (q @ [k]) p"
    show "k \<in> set (p_keys (persist h) q s')"
    proof (cases "prefix (devicePath h d) q")
      case True
      with that(1) qk same show ?thesis by (simp add: present_def)
    next
      case False
      then have "prefix (q @ [k]) (devicePath h d)"
        using prefix_same_cases [OF qk that(2)] by (auto simp: prefix_snoc)
      with assms(2) show ?thesis by (simp add: present_def)
    qed
  qed
  have "capability_ok h C d s' cf c" if "capability_ok h C d s cf c" for cf c
    using that same pres unfolding capability_ok_def by simp
  moreover have "filed h d s'"
    using assms(1) same [of "capabilityRoot h d @ [k]" for k]
    by (simp add: device_ok_def filed_def capabilityRoot_def)
  ultimately show ?thesis using assms(1,2) same unfolding device_ok_def by simp
qed

lemma device_ok_other:
  assumes "only_below (persist h) (devicePath h d) s s'" "present (persist h) (devicePath h d) s"
    and "device_ok h C d' s dev" "d' \<noteq> d"
  shows "device_ok h C d' s' dev"
proof (rule device_ok_frame [OF assms(3)])
  show "present (persist h) (devicePath h d') s'"
    unfolding present_def
  proof (intro allI impI)
    fix q k
    assume qk: "prefix (q @ [k]) (devicePath h d')"
    then have "\<not> prefix (devicePath h d) q"
      by (metis assms(4) devicePath_disjoint append_prefixD prefix_order.trans prefix_order.refl)
    then have "set (p_keys (persist h) q s') = set (p_keys (persist h) q s)"
      by (intro only_belowD(1) [OF assms(1)])
    with qk assms(3) show "k \<in> set (p_keys (persist h) q s')" by (auto simp: device_ok_def present_def)
  qed
  show "set (p_keys (persist h) q s') = set (p_keys (persist h) q s) \<and>
      (\<forall>j. p_get (persist h) q j s' = p_get (persist h) q j s)"
    if "prefix (devicePath h d') q" for q
    using that assms(1,4) devicePath_disjoint by (auto dest: only_belowD)
qed

text \<open>The workhorse: a device is changed in the table together with its part of the store.\<close>

lemma mirrors_change_device:
  assumes "mirrors h C z" "getDevice d z = Some dev"
    and "only_below (persist h) (devicePath h d) (store (env z)) (store (env z'))" "table_wf z'"
    and nodes: "\<And>a. (getNode a z' = None) = (getNode a z = None)"
    and devs: "\<And>d'. getDevice d' z' = (if d' = d then Some dev' else getDevice d' z)"
    and "device_ok h C d (store (env z')) dev'"
  shows "mirrors h C z'"
proof -
  let ?s = "store (env z)" and ?s' = "store (env z')"
  note m = mirrorsD [OF assms(1)]
  have pres: "present (persist h) (devicePath h d) ?s"
    using m(6) [OF assms(2)] by (simp add: device_ok_def)
  have "d \<in> deviceKeys h ?s" using assms(2) m(5) by simp
  then have cl: "clean h ?s'" by (rule device_change_clean [OF assms(3) _ m(3)])
  have "device_ok h C d' ?s' dev''" if "getDevice d' z' = Some dev''" for d' dev''
  proof (cases "d' = d")
    case True
    with that devs assms(7) show ?thesis by simp
  next
    case False
    with that devs show ?thesis by (intro device_ok_other [OF assms(3) pres m(6)]) simp_all
  qed
  moreover have "(getDevice d' z' \<noteq> None) = (getDevice d' z \<noteq> None)" for d'
    using assms(2) devs by simp
  moreover have "canonical h ?s'" by (rule device_change(3) [OF assms(3) m(2)])
  ultimately show ?thesis
    using cl assms(4) m(4,5) nodes device_change(1,2) [OF assms(3)] by (intro mirrorsI) simp_all
qed

lemma mirrors_updDevice:
  assumes "mirrors h C z" "getDevice d z = Some dev"
    and "only_below (persist h) (devicePath h d) (store (env z)) (store e)"
    and "device_ok h C d (store e) (f dev)" "wf_map (capabilities (f dev))"
  shows "mirrors h C (updDevice d f (z\<lparr>env := e\<rparr>))"
proof (rule mirrors_change_device [OF assms(1,2)])
  show "table_wf (updDevice d f (z\<lparr>env := e\<rparr>))"
    using mirrorsD(1) [OF assms(1)] assms(2,5) by (intro table_wf_updDevice) simp_all
qed (use assms in simp_all)

lemma mirrors_env:
  assumes "mirrors h C z" "getDevice d z = Some dev"
    and "only_below (persist h) (devicePath h d) (store (env z)) (store e)"
    and "device_ok h C d (store e) dev"
  shows "mirrors h C (z\<lparr>env := e\<rparr>)"
  by (rule mirrors_change_device [OF assms(1,2)]) (use assms mirrorsD(1) [OF assms(1)] in simp_all)

section \<open>Changes of one capability\<close>

lemma device_ok_change_capability:
  assumes "device_ok h C d s dev" "present (persist h) (devicePath h d) s'"
    and "\<And>q j. prefix (devicePath h d) q \<Longrightarrow> \<not> prefix (capabilityPath h d cf) q \<Longrightarrow>
           p_get (persist h) q j s' = p_get (persist h) q j s"
    and "\<And>cf'. cf' \<noteq> cf \<Longrightarrow> present (persist h) (dataPath h d cf') s \<Longrightarrow>
           present (persist h) (dataPath h d cf') s'"
    and "\<And>cf'. cf' \<noteq> cf \<Longrightarrow> map_of (capabilities dev') cf' = map_of (capabilities dev) cf'"
    and "\<And>c. map_of (capabilities dev') cf = Some c \<Longrightarrow> capability_ok h C d s' cf c"
    and "deviceId dev' = deviceId dev" "deviceIdSet dev' = deviceIdSet dev"
    and "\<And>impl. p_get (persist h) (capabilityPath h d cf) ''Implementation'' s' = Some (PString impl) \<Longrightarrow>
           map_of Mapping impl = Some cf"
  shows "device_ok h C d s' dev'"
proof -
  have "filed h d s'"
    unfolding filed_def
  proof (intro allI impI)
    fix k impl
    assume get: "p_get (persist h) (capabilityRoot h d @ [k]) ''Implementation'' s' = Some (PString impl)"
    show "\<exists>cf. map_of Mapping impl = Some cf \<and> k = StandardNames h cf"
    proof (cases "k = StandardNames h cf")
      case True
      with get assms(9) show ?thesis by (auto simp: capabilityPath_def)
    next
      case False
      then have "\<not> prefix (capabilityPath h d cf) (capabilityRoot h d @ [k])"
        by (simp add: capabilityPath_def)
      with get assms(3) have "p_get (persist h) (capabilityRoot h d @ [k]) ''Implementation'' s = Some (PString impl)"
        by (simp add: capabilityRoot_def)
      with assms(1) show ?thesis by (auto simp: device_ok_def filed_def)
    qed
  qed
  moreover
  have "capability_ok h C d s' cf' c" if "map_of (capabilities dev') cf' = Some c" for cf' c
  proof (cases "cf' = cf")
    case True
    with that assms(6) show ?thesis by simp
  next
    case False
    with that assms(1,5) have "capability_ok h C d s cf' c" by (simp add: device_ok_def)
    moreover have "\<not> prefix (capabilityPath h d cf) (capabilityPath h d cf')"
      using False capabilityPath_disjoint by blast
    ultimately show ?thesis using assms(3,4) False by (simp add: capability_ok_def)
  qed
  ultimately show ?thesis using assms by (simp add: device_ok_def)
qed

lemma filed_capability:
  assumes "filed h d s" "p_get (persist h) (capabilityPath h d cf) ''Implementation'' s = Some (PString impl)"
  shows "map_of Mapping impl = Some cf"
proof -
  from assms obtain cf' where "map_of Mapping impl = Some cf'" "StandardNames h cf = StandardNames h cf'"
    unfolding filed_def capabilityPath_def by blast
  then show ?thesis by (simp add: host_okD(3) [OF host])
qed

text \<open>What a capability does below its data section.\<close>

lemma data_change:
  assumes "only_below (persist h) (dataPath h d cf) s s'"
  shows "only_below (persist h) (devicePath h d) s s'"
    "\<And>q j. \<not> prefix (capabilityPath h d cf) q \<Longrightarrow> p_get (persist h) q j s' = p_get (persist h) q j s"
    "\<And>cf'. present (persist h) (dataPath h d cf') s \<Longrightarrow> present (persist h) (dataPath h d cf') s'"
    "\<And>c. capability_ok h C d s cf c \<Longrightarrow> capability_ok h C d s' cf c"
    "present (persist h) (devicePath h d) s \<Longrightarrow> present (persist h) (devicePath h d) s'"
    "\<And>cf' j. p_get (persist h) (capabilityPath h d cf') j s' = p_get (persist h) (capabilityPath h d cf') j s"
proof -
  show "p_get (persist h) (capabilityPath h d cf') j s' = p_get (persist h) (capabilityPath h d cf') j s" for cf' j
    by (rule only_belowD(2) [OF assms]) (auto simp: dataPath_def capabilityPath_def dest: prefix_length_le)
  show "only_below (persist h) (devicePath h d) s s'"
    using assms by (rule only_below_mono) simp
  show "p_get (persist h) q j s' = p_get (persist h) q j s" if "\<not> prefix (capabilityPath h d cf) q" for q j
    by (rule only_belowD(2) [OF assms]) (metis that device_below(5) prefix_order.trans)
  show pres: "present (persist h) (dataPath h d cf') s'" if "present (persist h) (dataPath h d cf') s" for cf'
    unfolding present_def
  proof (intro allI impI)
    fix q k
    assume qk: "prefix (q @ [k]) (dataPath h d cf')"
    have "\<not> prefix (dataPath h d cf) q"
    proof
      assume "prefix (dataPath h d cf) q"
      from prefix_length_le [OF this] prefix_length_le [OF qk] show False
        by (simp add: dataPath_def capabilityPath_def capabilityRoot_def)
    qed
    from only_belowD(1) [OF assms this] that qk show "k \<in> set (p_keys (persist h) q s')"
      by (simp add: present_def)
  qed
  show "capability_ok h C d s' cf c" if "capability_ok h C d s cf c" for c
    using that pres only_belowD(2) [OF assms, of "capabilityPath h d cf"] by (simp add: capability_ok_def)
  show "present (persist h) (devicePath h d) s'" if "present (persist h) (devicePath h d) s"
    using assms that by (metis device_below(4) only_below_mono only_below_present)
qed

lemma device_ok_data_change:
  assumes "device_ok h C d s dev" "only_below (persist h) (dataPath h d cf) s s'"
  shows "device_ok h C d s' dev"
  by (rule device_ok_change_capability [where cf = cf, OF assms(1)])
     (use assms data_change [OF assms(2)] in \<open>auto simp: device_ok_def intro: filed_capability\<close>)

section \<open>The operations of the table\<close>

lemma sectionForDevice_present: "present (persist h) (devicePath h d) (sectionForDevice h d s)"
  by (simp add: sectionForDevice_def P.section_present)

lemma sectionForDevice_mono: "present (persist h) p s \<Longrightarrow> present (persist h) p (sectionForDevice h d s)"
  by (simp add: sectionForDevice_def sectionForNode_def P.section_present_mono)

lemma sectionForDevice_get: "p_get (persist h) q j (sectionForDevice h d s) = p_get (persist h) q j s"
  by (simp add: sectionForDevice_def sectionForNode_def P.get_section)

lemma sectionForDevice_only_below:
  assumes "present (persist h) (devicePath h d) s"
  shows "only_below (persist h) (devicePath h d) s (sectionForDevice h d s)"
proof -
  have node: "prefix (nodePath h (IEEEAddress d)) (devicePath h d)" by (simp add: path_defs)
  have "set (p_keys (persist h) q (sectionForDevice h d s)) = set (p_keys (persist h) q s)" for q
    using assms prefix_order.trans [OF _ node]
    by (auto simp: sectionForDevice_def sectionForNode_def P.keys_section present_def)
  then show ?thesis by (simp add: only_below_def sectionForDevice_get)
qed

lemma mirrors_setDeviceUniqueId:
  assumes "mirrors h C z" "getDevice d z \<noteq> None"
  shows "mirrors h C (setDeviceUniqueId h d i z)"
proof -
  obtain dev where dev: "getDevice d z = Some dev" using assms(2) by auto
  let ?s = "store (env z)"
  let ?s1 = "sectionForDevice h d ?s"
  let ?s2 = "p_set (persist h) (devicePath h d) ''UniqueId'' (PInt i) ?s1"
  let ?f = "\<lambda>dev. dev\<lparr>deviceId := i, deviceIdSet := True\<rparr>"
  note ok = mirrorsD(6) [OF assms(1) dev]
  have pres: "present (persist h) (devicePath h d) ?s" using ok by (simp add: device_ok_def)
  have "only_below (persist h) (devicePath h d) ?s1 ?s2" by (rule P.set_only_below) simp
  then have below: "only_below (persist h) (devicePath h d) ?s ?s2"
    using sectionForDevice_only_below [OF pres] by (blast intro: only_below_trans)
  have cap: "capability_ok h C d ?s2 cf c" if "capability_ok h C d ?s cf c" for cf c
    using that not_below_device(1) [of d cf]
    by (auto simp: capability_ok_def P.get_set sectionForDevice_get sectionForDevice_mono)
  have "filed h d ?s2"
    using ok by (simp add: device_ok_def filed_def P.get_set sectionForDevice_get capabilityRoot_def)
  then have "device_ok h C d ?s2 (?f dev)"
    using ok cap by (simp add: device_ok_def sectionForDevice_mono P.get_set)
  moreover have "wf_map (capabilities dev)" by (rule table_wfD(3) [OF mirrorsD(1) [OF assms(1)] dev])
  moreover have "setDeviceUniqueId h d i z = updDevice d ?f (z\<lparr>env := (env z)\<lparr>store := ?s2\<rparr>\<rparr>)"
    by (simp add: setDeviceUniqueId_def onStore_def updDevice_def updNode_def split: option.split)
  ultimately show ?thesis using mirrors_updDevice [OF assms(1) dev, of "(env z)\<lparr>store := ?s2\<rparr>" ?f] below
    by simp
qed

lemma mirrors_sendEvent: "mirrors h C z \<Longrightarrow> mirrors h C (zSendEvent ev z)"
  unfolding mirrors_def by simp

lemma mirrors_attach:
  assumes "mirrors h C z" "getDevice d z \<noteq> None"
    and "capability_ok h C d (store (env z)) (c_Capability C c) c"
  shows "mirrors h C (attachCapabilityToDevice h C d c z)"
proof -
  obtain dev where dev: "getDevice d z = Some dev" using assms(2) by auto
  let ?cF = "c_Capability C c" and ?s = "store (env z)"
  let ?s1 = "sectionForDevice h d ?s"
  let ?s2 = "p_section (persist h) (capabilityPath h d ?cF) ?s1"
  let ?f = "\<lambda>dev. dev\<lparr>capabilities := AList.update ?cF c (capabilities dev)\<rparr>"
  note ok = mirrorsD(6) [OF assms(1) dev]
  have pres: "present (persist h) (devicePath h d) ?s" using ok by (simp add: device_ok_def)
  have "only_below (persist h) (devicePath h d) ?s1 ?s2"
    by (rule P.section_only_below) (simp_all add: sectionForDevice_present)
  then have below: "only_below (persist h) (devicePath h d) ?s ?s2"
    using sectionForDevice_only_below [OF pres] by (blast intro: only_below_trans)
  have get: "p_get (persist h) q j ?s2 = p_get (persist h) q j ?s" for q j
    by (simp add: P.get_section sectionForDevice_get)
  have mono: "present (persist h) q ?s2" if "present (persist h) q ?s" for q
    using that by (simp add: P.section_present_mono sectionForDevice_mono)
  have "device_ok h C d ?s2 (?f dev)"
    by (rule device_ok_change_capability [OF ok, where cf = ?cF])
       (use assms(3) pres mono ok in \<open>auto simp: get capability_ok_def\<close>)
  moreover have "wf_map (capabilities (?f dev))"
    using table_wfD(3) [OF mirrorsD(1) [OF assms(1)] dev] by simp
  moreover have "attachCapabilityToDevice h C d c z =
      zSendEvent (EvCapabilityAdded d ?cF) (updDevice d ?f (z\<lparr>env := (env z)\<lparr>store := ?s2\<rparr>\<rparr>))"
    by (simp add: attachCapabilityToDevice_def onStore_def updDevice_def updNode_def Let_def split: option.split)
  ultimately show ?thesis
    using mirrors_updDevice [OF assms(1) dev, of "(env z)\<lparr>store := ?s2\<rparr>" ?f] below
    by (simp add: mirrors_sendEvent)
qed

lemma mirrors_detach:
  assumes "mirrors h C z"
  shows "mirrors h C (detachCapabilityFromDevice h C d c z)"
proof (cases "Option.bind (getDevice d z) (\<lambda>dev. map_of (capabilities dev) (c_Capability C c))")
  case None
  then have "detachCapabilityFromDevice h C d c z = z"
    by (auto simp: detachCapabilityFromDevice_def Let_def split: option.splits)
  with assms show ?thesis by simp
next
  case (Some c0)
  then obtain dev where dev: "getDevice d z = Some dev" and
    c0: "map_of (capabilities dev) (c_Capability C c) = Some c0" by (auto simp: Option.bind_eq_Some_conv)
  let ?cF = "c_Capability C c" and ?s = "store (env z)"
  let ?s1 = "p_section (persist h) (capabilityRoot h d) (sectionForDevice h d ?s)"
  let ?s2 = "snd (p_remove (persist h) (capabilityRoot h d) (StandardNames h ?cF) ?s1)"
  let ?f = "\<lambda>dev. dev\<lparr>capabilities := AList.delete ?cF (capabilities dev)\<rparr>"
  let ?e = "(sendEvent (EvCapabilityRemoved d ?cF) (env z))\<lparr>store := ?s2\<rparr>"
  note ok = mirrorsD(6) [OF assms dev]
  have pres: "present (persist h) (devicePath h d) ?s" using ok by (simp add: device_ok_def)
  have "only_below (persist h) (devicePath h d) (sectionForDevice h d ?s) ?s1"
    by (rule P.section_only_below) (simp_all add: sectionForDevice_present)
  moreover have "only_below (persist h) (devicePath h d) ?s1 ?s2"
    by (rule P.remove_only_below) simp
  ultimately have below: "only_below (persist h) (devicePath h d) ?s ?s2"
    using sectionForDevice_only_below [OF pres] by (blast intro: only_below_trans)
  have other: "present (persist h) (dataPath h d cf') ?s2"
    if "cf' \<noteq> ?cF" "present (persist h) (dataPath h d cf') ?s" for cf'
    unfolding present_def
  proof (intro allI impI)
    fix q k
    assume qk: "prefix (q @ [k]) (dataPath h d cf')"
    have "\<not> prefix (capabilityPath h d ?cF) q"
      using that(1) qk capabilityPath_disjoint [of d ?cF "dataPath h d cf'" cf'] device_below(5)
      by (metis append_prefixD prefix_order.trans)
    moreover have "k \<in> set (p_keys (persist h) q ?s1)"
      using that(2) qk by (simp add: present_def P.section_present_mono sectionForDevice_mono
          sectionForDevice_def sectionForNode_def P.keys_section)
    moreover have "k \<noteq> StandardNames h ?cF" if "q = capabilityRoot h d"
    proof
      assume "k = StandardNames h ?cF"
      with that qk have "prefix (capabilityPath h d ?cF) (dataPath h d cf')" by (simp add: capabilityPath_def)
      then show False using \<open>cf' \<noteq> ?cF\<close> capabilityPath_disjoint device_below(5) by blast
    qed
    ultimately show "k \<in> set (p_keys (persist h) q ?s2)"
      by (auto simp: P.keys_remove capabilityPath_def)
  qed
  have "device_ok h C d ?s2 (?f dev)"
    by (rule device_ok_change_capability [OF ok, where cf = ?cF])
       (use pres below other in \<open>auto simp: P.get_remove P.get_section sectionForDevice_get capabilityPath_def
          intro: only_below_present\<close>)
  moreover have "wf_map (capabilities (?f dev))"
    using table_wfD(3) [OF mirrorsD(1) [OF assms(1)] dev] by simp
  moreover have "detachCapabilityFromDevice h C d c z = updDevice d ?f (z\<lparr>env := ?e\<rparr>)"
    using dev c0
    by (simp add: detachCapabilityFromDevice_def onStore_def zSendEvent_def sendEvent_def Let_def)
  ultimately show ?thesis
    using mirrors_updDevice [OF assms(1) dev, of ?e ?f] below by simp
qed

text \<open>Creating and removing nodes and devices: what stays below the other devices.\<close>

lemma sectionForNode_frame:
  assumes "prefix (devicePath h d) q"
  shows "set (p_keys (persist h) q (sectionForNode h a s)) = set (p_keys (persist h) q s)"
    "p_get (persist h) q j (sectionForNode h a s) = p_get (persist h) q j s"
  using prefix_length_le [OF assms]
  by (auto simp: sectionForNode_def P.keys_section P.get_section path_defs dest: prefix_length_le)

lemma sectionForNode_mono: "present (persist h) p s \<Longrightarrow> present (persist h) p (sectionForNode h a s)"
  by (simp add: sectionForNode_def P.section_present_mono)

lemma sectionForDevice_frame:
  assumes "prefix (devicePath h d) q"
  shows "set (p_keys (persist h) q (sectionForDevice h d' s)) = set (p_keys (persist h) q s)"
  using prefix_length_le [OF assms] sectionForNode_frame [OF assms]
  by (auto simp: sectionForDevice_def P.keys_section dest: prefix_length_le)

lemma empty_keys_iff: "p_keys (persist h) q s = [] \<longleftrightarrow> set (p_keys (persist h) q s) = {}"
  by simp

lemma mirrors_createNode:
  assumes "mirrors h C z"
  shows "mirrors h C (snd (createNode h a z))"
proof (cases "map_of (node z) a")
  case (Some n)
  with assms show ?thesis by (simp add: createNode_def)
next
  case None
  let ?z = "snd (createNode h a z)" and ?s = "store (env z)"
  note m = mirrorsD [OF assms]
  have store: "store (env ?z) = sectionForNode h a ?s"
    using None by (simp add: createNode_def)
  have node: "getNode b ?z = (if b = a then Some newNode else getNode b z)" for b
    using None by (simp add: createNode_def getNode_def)
  have dev: "getDevice d ?z = getDevice d z" for d
    using None by (simp add: getDevice_def node newNode_def) (simp add: getNode_def)
  have wf: "table_wf ?z"
    unfolding table_wf_def node
    using m(1) None by (simp add: table_wf_def createNode_def newNode_def)
  have "clean h (sectionForNode h a ?s)"
    using m(3) unfolding clean_def empty_keys_iff
    by (simp add: sectionForNode_devices [OF host] sectionForNode_frame)
  moreover have "device_ok h C d (sectionForNode h a ?s) dev'" if "getDevice d z = Some dev'" for d dev'
    by (rule device_ok_frame [OF m(6) [OF that]])
       (use m(6) [OF that] in \<open>simp_all add: device_ok_def sectionForNode_frame sectionForNode_mono\<close>)
  ultimately show ?thesis
    using wf m(2,4,5) node dev
    by (intro mirrorsI) (auto simp: store sectionForNode_nodes sectionForNode_devices
        canonical_sectionForNode host)
qed

lemma mirrors_createSpecificDevice:
  assumes "mirrors h C z" "getNode a z \<noteq> None" "getDevice (addressOf a i) z = None"
  shows "mirrors h C (snd (createSpecificDevice h a i z))"
proof -
  let ?z = "snd (createSpecificDevice h a i z)" and ?s = "store (env z)" and ?d = "addressOf a i"
  let ?s' = "sectionForDevice h ?d ?s"
  note m = mirrorsD [OF assms(1)]
  have store: "store (env ?z) = ?s'" by (simp add: createSpecificDevice_def Let_def)
  have node: "(getNode b ?z = None) = (getNode b z = None)" for b
    by (simp add: createSpecificDevice_def Let_def getNode_updNode)
  have dev: "getDevice d ?z = (if d = ?d then Some newDevice else getDevice d z)" for d
    using assms(2) by (auto simp: createSpecificDevice_def Let_def getNode_updNode getDevice_def address_eq_iff)
  have wf: "table_wf ?z"
    using m(1) unfolding createSpecificDevice_def
    by (auto simp: Let_def newDevice_def table_wf_def [of z] intro!: table_wf_updNode split: if_splits)
  have new: "?d \<notin> deviceKeys h ?s" using assms(3) m(5) by simp
  have "clean h ?s'"
    using m(3) unfolding clean_def empty_keys_iff
    by (auto simp: sectionForDevice_devices [OF host] sectionForDevice_frame sectionForDevice_get)
  moreover have "device_ok h C d ?s' dev'" if "getDevice d ?z = Some dev'" for d dev'
  proof (cases "d = ?d")
    case True
    have "p_get (persist h) q j ?s = None" if "prefix (devicePath h ?d) q" for q j
      using m(3) new that by (simp add: clean_def)
    with True that show ?thesis
      by (auto simp: dev device_ok_def newDevice_def sectionForDevice_present sectionForDevice_get filed_def
          capabilityRoot_def)
  next
    case False
    with that have d: "getDevice d z = Some dev'" by (simp add: dev)
    show ?thesis
      by (rule device_ok_frame [OF m(6) [OF d]])
         (use m(6) [OF d] in \<open>simp_all add: device_ok_def sectionForDevice_frame sectionForDevice_get
           sectionForDevice_mono\<close>)
  qed
  moreover have "nodeKeys h ?s' = {a. getNode a ?z \<noteq> None}"
    using assms(2) m(4) node by (auto simp: sectionForDevice_nodes [OF host])
  moreover have "deviceKeys h ?s' = {d. getDevice d ?z \<noteq> None}"
    using m(5) by (auto simp: sectionForDevice_devices [OF host] dev)
  moreover have "canonical h ?s'" by (rule canonical_sectionForDevice [OF host m(2)])
  ultimately show ?thesis using wf by (intro mirrorsI) (simp_all add: store)
qed

lemma sectionRemoveDevice_frame:
  assumes "prefix (devicePath h d') q"
  shows "set (p_keys (persist h) q (snd (sectionRemoveDevice h d s))) =
      (if d' = d then {} else set (p_keys (persist h) q s))"
    "p_get (persist h) q j (snd (sectionRemoveDevice h d s)) =
      (if d' = d then None else p_get (persist h) q j s)"
proof -
  let ?s1 = "p_section (persist h) (deviceRoot h (IEEEAddress d)) (sectionForNode h (IEEEAddress d) s)"
  have len: "4 \<le> length q" using prefix_length_le [OF assms] by simp
  then have "q \<noteq> deviceRoot h (IEEEAddress d)" by (auto simp: path_defs)
  moreover have "prefix (deviceRoot h (IEEEAddress d) @ [Itoa (uint (SubIdentifier d))]) q \<longleftrightarrow> d' = d"
    using assms devicePath_disjoint [of d q d'] by (auto simp: devicePath_def [of h d, symmetric])
  moreover have "set (p_keys (persist h) q ?s1) = set (p_keys (persist h) q s)"
    using len sectionForNode_frame [OF assms]
    by (auto simp: P.keys_section path_defs dest!: prefix_length_le)
  moreover have "p_get (persist h) q j ?s1 = p_get (persist h) q j s"
    by (simp add: P.get_section sectionForNode_def)
  ultimately show "set (p_keys (persist h) q (snd (sectionRemoveDevice h d s))) =
      (if d' = d then {} else set (p_keys (persist h) q s))"
    "p_get (persist h) q j (snd (sectionRemoveDevice h d s)) =
      (if d' = d then None else p_get (persist h) q j s)"
    by (simp_all add: sectionRemoveDevice_def Let_def P.keys_remove P.get_remove)
qed

lemma sectionRemoveDevice_present:
  assumes "present (persist h) (devicePath h d') s" "d' \<noteq> d"
  shows "present (persist h) (devicePath h d') (snd (sectionRemoveDevice h d s))"
  unfolding present_def
proof (intro allI impI)
  fix q k
  assume qk: "prefix (q @ [k]) (devicePath h d')"
  let ?s1 = "p_section (persist h) (deviceRoot h (IEEEAddress d)) (sectionForNode h (IEEEAddress d) s)"
  have "k \<in> set (p_keys (persist h) q ?s1)"
    using assms(1) qk by (auto simp: present_def P.keys_section sectionForNode_def)
  moreover have "\<not> prefix (devicePath h d) q"
    using prefix_length_le [OF qk] by (auto dest: prefix_length_le)
  moreover have "k \<noteq> Itoa (uint (SubIdentifier d))" if "q = deviceRoot h (IEEEAddress d)"
  proof
    assume "k = Itoa (uint (SubIdentifier d))"
    with that qk have "prefix (devicePath h d) (devicePath h d')" by (simp add: devicePath_def)
    with assms(2) show False using devicePath_disjoint by blast
  qed
  ultimately show "k \<in> set (p_keys (persist h) q (snd (sectionRemoveDevice h d s)))"
    by (auto simp: sectionRemoveDevice_def Let_def P.keys_remove devicePath_def [of h d, symmetric])
qed

lemma mirrors_deleteDevice:
  assumes "mirrors h C z" "getDevice d z \<noteq> None"
  shows "mirrors h C (onStore (\<lambda>s. snd (sectionRemoveDevice h d s))
      (updNode (IEEEAddress d) (\<lambda>n. n\<lparr>device := AList.delete (SubIdentifier d) (device n)\<rparr>) z))"
    (is "mirrors h C ?z")
proof -
  let ?s = "store (env z)"
  let ?s' = "snd (sectionRemoveDevice h d ?s)"
  note m = mirrorsD [OF assms(1)]
  have store: "store (env ?z) = ?s'" by simp
  have node: "(getNode b ?z = None) = (getNode b z = None)" for b
    by (simp add: getNode_updNode)
  have dev: "getDevice d' ?z = (if d' = d then None else getDevice d' z)" for d'
    using assms(2) by (auto simp: getDevice_def getNode_updNode address_eq_iff split: option.splits)
  have wf: "table_wf ?z"
    using m(1) by (auto simp: table_wf_def [of z] intro!: table_wf_updNode split: if_splits)
  have "clean h ?s'"
    using m(3) unfolding clean_def empty_keys_iff
    by (auto simp: sectionRemoveDevice_devices [OF host] sectionRemoveDevice_frame)
  moreover have "device_ok h C d' ?s' dev'" if "getDevice d' ?z = Some dev'" for d' dev'
  proof -
    from that dev [of d'] have d: "d' \<noteq> d" "getDevice d' z = Some dev'" by (simp_all split: if_splits)
    show ?thesis
      by (rule device_ok_frame [OF m(6) [OF d(2)]])
         (use m(6) [OF d(2)] d(1) in \<open>simp_all add: device_ok_def sectionRemoveDevice_frame
           sectionRemoveDevice_present\<close>)
  qed
  moreover have "nodeKeys h ?s' = {a. getNode a ?z \<noteq> None}"
    using assms(2) m(4) node
    by (auto simp: sectionRemoveDevice_nodes [OF host] getDevice_def split: option.splits)
  moreover have "deviceKeys h ?s' = {d. getDevice d ?z \<noteq> None}"
    using m(5) unfolding dev by (auto simp: sectionRemoveDevice_devices [OF host])
  moreover have "canonical h ?s'" by (rule canonical_sectionRemoveDevice [OF host m(2)])
  ultimately show ?thesis using wf by (intro mirrorsI) (simp_all add: store)
qed

lemma sectionRemoveNode_frame:
  assumes "prefix (devicePath h d) q"
  shows "set (p_keys (persist h) q (snd (sectionRemoveNode h a s))) =
      (if IEEEAddress d = a then {} else set (p_keys (persist h) q s))"
    "p_get (persist h) q j (snd (sectionRemoveNode h a s)) =
      (if IEEEAddress d = a then None else p_get (persist h) q j s)"
proof -
  have len: "4 \<le> length q" using prefix_length_le [OF assms] by simp
  then have "q \<noteq> nodeRoot" by (auto simp: path_defs)
  moreover have "prefix (nodeRoot @ [ieeeString h a]) q \<longleftrightarrow> IEEEAddress d = a"
    using assms by (auto simp: path_defs prefix_def ieeeString_inject [OF host])
  moreover have "set (p_keys (persist h) q (p_section (persist h) nodeRoot s)) = set (p_keys (persist h) q s)"
    using len by (auto simp: P.keys_section path_defs dest!: prefix_length_le)
  ultimately show "set (p_keys (persist h) q (snd (sectionRemoveNode h a s))) =
      (if IEEEAddress d = a then {} else set (p_keys (persist h) q s))"
    "p_get (persist h) q j (snd (sectionRemoveNode h a s)) =
      (if IEEEAddress d = a then None else p_get (persist h) q j s)"
    by (simp_all add: sectionRemoveNode_def P.keys_remove P.get_remove P.get_section)
qed

lemma sectionRemoveNode_present:
  assumes "present (persist h) (devicePath h d) s" "IEEEAddress d \<noteq> a"
  shows "present (persist h) (devicePath h d) (snd (sectionRemoveNode h a s))"
  unfolding present_def
proof (intro allI impI)
  fix q k
  assume qk: "prefix (q @ [k]) (devicePath h d)"
  have "k \<in> set (p_keys (persist h) q (p_section (persist h) nodeRoot s))"
    using assms(1) qk by (auto simp: present_def P.keys_section)
  moreover have "\<not> prefix (nodeRoot @ [ieeeString h a]) (q @ [k])"
  proof
    assume "prefix (nodeRoot @ [ieeeString h a]) (q @ [k])"
    from prefix_order.trans [OF this qk] assms(2) show False
      by (simp add: path_defs ieeeString_inject [OF host])
  qed
  ultimately show "k \<in> set (p_keys (persist h) q (snd (sectionRemoveNode h a s)))"
    by (auto simp: sectionRemoveNode_def P.keys_remove)
qed

lemma mirrors_removeNode:
  assumes "mirrors h C z"
  shows "mirrors h C (snd (removeNode h a z))"
proof (cases "map_of (node z) a")
  case None
  with assms show ?thesis by (simp add: removeNode_def)
next
  case (Some n)
  let ?z = "snd (removeNode h a z)" and ?s = "store (env z)"
  let ?s' = "snd (sectionRemoveNode h a ?s)"
  note m = mirrorsD [OF assms]
  have store: "store (env ?z) = ?s'" using Some by (simp add: removeNode_def)
  have node: "getNode b ?z = (if b = a then None else getNode b z)" for b
    using Some by (simp add: removeNode_def getNode_def)
  have dev: "getDevice d ?z = (if IEEEAddress d = a then None else getDevice d z)" for d
    by (simp add: getDevice_def node)
  have wf: "table_wf ?z"
    unfolding table_wf_def node using m(1) Some by (simp add: table_wf_def removeNode_def)
  have "clean h ?s'"
    using m(3) unfolding clean_def empty_keys_iff
    by (auto simp: sectionRemoveNode_devices [OF host] sectionRemoveNode_frame)
  moreover have "device_ok h C d ?s' dev'" if "getDevice d ?z = Some dev'" for d dev'
  proof -
    from that dev [of d] have d: "IEEEAddress d \<noteq> a" "getDevice d z = Some dev'" by (simp_all split: if_splits)
    show ?thesis
      by (rule device_ok_frame [OF m(6) [OF d(2)]])
         (use m(6) [OF d(2)] d(1) in \<open>simp_all add: device_ok_def sectionRemoveNode_frame
           sectionRemoveNode_present\<close>)
  qed
  moreover have "nodeKeys h ?s' = {a. getNode a ?z \<noteq> None}"
    using m(4) unfolding node by (auto simp: sectionRemoveNode_nodes [OF host])
  moreover have "deviceKeys h ?s' = {d. getDevice d ?z \<noteq> None}"
    using m(5) unfolding dev by (auto simp: sectionRemoveNode_devices [OF host])
  moreover have "canonical h ?s'" by (rule canonical_sectionRemoveNode [OF host m(2)])
  ultimately show ?thesis using wf by (intro mirrorsI) (simp_all add: store)
qed

section \<open>Calls of attached capabilities\<close>

text \<open>A call of an implementation that changes the environment below its own section, its
  new value written back to the table.\<close>

lemma mirrors_call:
  assumes "mirrors h C z" "getDevice d z = Some dev" "map_of (capabilities dev) cf = Some impl"
    and "cap_effect (persist h) (c_Section C impl) (env z) e"
    and "c_Capability C impl' = c_Capability C impl" "c_ImplName C impl' = c_ImplName C impl"
      "c_Section C impl' = c_Section C impl"
  shows "mirrors h C (updDevice d (\<lambda>dev. dev\<lparr>capabilities := AList.update cf impl' (capabilities dev)\<rparr>)
           (z\<lparr>env := e\<rparr>))"
proof -
  let ?s = "store (env z)"
  note ok = mirrorsD(6) [OF assms(1,2)]
  from ok assms(3) have cap: "capability_ok h C d ?s cf impl" by (simp add: device_ok_def)
  then have below: "only_below (persist h) (dataPath h d cf) ?s (store e)"
    using assms(4) by (simp add: capability_ok_def cap_effect_def)
  show ?thesis
  proof (rule mirrors_updDevice [OF assms(1,2) data_change(1) [OF below]])
    have "capability_ok h C d (store e) cf impl'"
      using data_change(4) [OF below cap] assms(5-7) by (simp add: capability_ok_def)
    then show "device_ok h C d (store e) (dev\<lparr>capabilities := AList.update cf impl' (capabilities dev)\<rparr>)"
      using data_change [OF below] ok
      by (intro device_ok_change_capability [OF ok, where cf = cf])
         (auto simp: device_ok_def intro: filed_capability)
    show "wf_map (capabilities (dev\<lparr>capabilities := AList.update cf impl' (capabilities dev)\<rparr>))"
      using table_wfD(3) [OF mirrorsD(1) [OF assms(1)] assms(2)] by simp
  qed
qed

lemma mirrors_callDetach:
  assumes "mirrors h C z" "getDevice d z = Some dev" "map_of (capabilities dev) cf = Some impl"
    and "callDetach C t d cf impl z = (err, impl', z')"
  shows "mirrors h C z'" "c_Capability C impl' = c_Capability C impl"
    "getDevice d z' = Some (dev\<lparr>capabilities := AList.update cf impl' (capabilities dev)\<rparr>)"
    "\<And>d'. d' \<noteq> d \<Longrightarrow> getDevice d' z' = getDevice d' z" "\<And>a. (getNode a z' = None) = (getNode a z = None)"
proof -
  from assms(4) obtain e where e: "c_Detach C t impl (env z) = (err, impl', e)"
    and z': "z' = updDevice d (\<lambda>dev. dev\<lparr>capabilities := AList.update cf impl' (capabilities dev)\<rparr>) (z\<lparr>env := e\<rparr>)"
    by (auto simp: callDetach_def split: prod.splits)
  show "mirrors h C z'"
    unfolding z' using detach_same [OF e] detach_env [OF e] by (intro mirrors_call [OF assms(1-3)]) simp_all
  show "c_Capability C impl' = c_Capability C impl" using detach_same [OF e] by simp
qed (use assms in \<open>auto simp: callDetach_def split: prod.splits\<close>)

lemma detachCapability_device [simp]:
  "getDevice d' (detachCapabilityFromDevice h C d c z) =
     (if d' = d then map_option (\<lambda>dev. dev\<lparr>capabilities := AList.delete (c_Capability C c) (capabilities dev)\<rparr>)
         (getDevice d z)
      else getDevice d' z)"
  by (auto simp: detachCapabilityFromDevice_def Let_def delete_id map_of_eq_None_keys option.map_id
      split: option.split)

end

end
