(* ===== verification/Implementations.thy ===== *)
theory Implementations
  imports Generic_Capabilities Identify Power_Supply Table_Mirror
begin

text \<open>
  \<open>implcaps/factory\<close>: the seven implementations as one type, their dispatch as a
  \<open>zdaCapability\<close>, and the proof that they keep its contract, so that everything proved of
  the table and the enumeration under the contract holds of the program as it is.
\<close>

section \<open>Dispatch\<close>

datatype implementation =
    ImplProduct productInformation
  | ImplTemperature sensor
  | ImplHumidity sensor
  | ImplPressure sensor
  | ImplIdentify identify
  | ImplPower powerSupply
  | ImplWorkaround deviceWorkaround

definition Create :: "string \<Rightarrow> implementation option" where
  "Create name =
     (if name = GenericProductInformation then Some (ImplProduct NewProductInformation)
      else if name = ZCLTemperatureSensor then Some (ImplTemperature newSensor)
      else if name = ZCLHumiditySensor then Some (ImplHumidity newSensor)
      else if name = ZCLPressureSensor then Some (ImplPressure newSensor)
      else if name = ZCLIdentify then Some (ImplIdentify NewIdentify)
      else if name = ZCLPowerSupply then Some (ImplPower NewPowerSupply)
      else if name = GenericDeviceWorkarounds then Some (ImplWorkaround NewDeviceWorkaround)
      else None)"

fun implCapability :: "implementation \<Rightarrow> Capability" where
  "implCapability (ImplProduct _) = ProductInformationFlag"
| "implCapability (ImplTemperature _) = TemperatureSensorFlag"
| "implCapability (ImplHumidity _) = RelativeHumiditySensorFlag"
| "implCapability (ImplPressure _) = PressureSensorFlag"
| "implCapability (ImplIdentify _) = IdentifyFlag"
| "implCapability (ImplPower _) = PowerSupplyFlag"
| "implCapability (ImplWorkaround _) = DeviceWorkaroundsFlag"

fun implName :: "implementation \<Rightarrow> string" where
  "implName (ImplProduct _) = ''GenericProductInformation''"
| "implName (ImplTemperature _) = ''ZCLTemperatureSensor''"
| "implName (ImplHumidity _) = ''ZCLHumiditySensor''"
| "implName (ImplPressure _) = ''ZCLPressureSensor''"
| "implName (ImplIdentify _) = ''ZCLIdentify''"
| "implName (ImplPower _) = ''ZCLPowerSupply''"
| "implName (ImplWorkaround _) = ''GenericDeviceWorkarounds''"

text \<open>The section everything an implementation stores lies under: the one \<open>Init\<close> was given,
  under which it has put its monitors. For a value \<open>Init\<close> has not set up that is the root.\<close>

definition sectionOf :: "path \<Rightarrow> zclMonitor list \<Rightarrow> path" where
  "sectionOf p ms = (if list_all (\<lambda>m. prefix p (m_config m)) ms then p else [])"

definition powerMonitors :: "powerSupply \<Rightarrow> zclMonitor list" where
  "powerMonitors i =
     mainsVoltageMonitor i # mainsFrequencyMonitor i # batteryVoltageMonitor i @ batteryPercentageMonitor i"

definition powerSection :: "powerSupply \<Rightarrow> path" where
  "powerSection i =
     (if length (batteryVoltageMonitor i) = 3 \<and> length (batteryPercentageMonitor i) = 3
      then sectionOf (ps_section i) (powerMonitors i) else [])"

fun implSection :: "implementation \<Rightarrow> path" where
  "implSection (ImplProduct g) = pi_section g"
| "implSection (ImplTemperature i) = sectionOf (s_section i) [s_monitor i]"
| "implSection (ImplHumidity i) = sectionOf (s_section i) [s_monitor i]"
| "implSection (ImplPressure i) = sectionOf (s_section i) [s_monitor i]"
| "implSection (ImplIdentify i) = sectionOf (id_section i) [id_monitor i]"
| "implSection (ImplPower i) = powerSection i"
| "implSection (ImplWorkaround i) = dw_section i"

fun implInit ::
  "('s, 'x) zdaInterface \<Rightarrow> address \<Rightarrow> path \<Rightarrow> implementation \<Rightarrow> ('s, 'x) env \<Rightarrow> implementation \<times> ('s, 'x) env" where
  "implInit I d p (ImplProduct g) e = (ImplProduct (productInit d p g), e)"
| "implInit I d p (ImplTemperature i) e = map_prod ImplTemperature id (temperatureInit I d p i e)"
| "implInit I d p (ImplHumidity i) e = map_prod ImplHumidity id (humidityInit I d p i e)"
| "implInit I d p (ImplPressure i) e = map_prod ImplPressure id (pressureInit I d p i e)"
| "implInit I d p (ImplIdentify i) e = map_prod ImplIdentify id (identifyInit I d p i e)"
| "implInit I d p (ImplPower i) e = map_prod ImplPower id (powerInit I d p i e)"
| "implInit I d p (ImplWorkaround i) e = (ImplWorkaround (workaroundInit d p i), e)"

abbreviation mapImpl :: "('i \<Rightarrow> implementation) \<Rightarrow> 'r \<times> 'i \<times> 'e \<Rightarrow> 'r \<times> implementation \<times> 'e" where
  "mapImpl f \<equiv> map_prod id (map_prod f id)"

fun implLoad ::
  "('s, 'x) zdaInterface \<Rightarrow> implementation \<Rightarrow> ('s, 'x) env
    \<Rightarrow> (bool \<times> goerr option) \<times> implementation \<times> ('s, 'x) env" where
  "implLoad I (ImplProduct g) e = mapImpl ImplProduct (productLoad I g e)"
| "implLoad I (ImplTemperature i) e = mapImpl ImplTemperature (temperatureLoad I i e)"
| "implLoad I (ImplHumidity i) e = mapImpl ImplHumidity (humidityLoad I i e)"
| "implLoad I (ImplPressure i) e = mapImpl ImplPressure (pressureLoad I i e)"
| "implLoad I (ImplIdentify i) e = mapImpl ImplIdentify (identifyLoad I i e)"
| "implLoad I (ImplPower i) e = mapImpl ImplPower (powerLoad I i e)"
| "implLoad I (ImplWorkaround i) e = mapImpl ImplWorkaround (workaroundLoad I i e)"

fun implEnumerate ::
  "('s, 'x) zdaInterface \<Rightarrow> Settings \<Rightarrow> implementation \<Rightarrow> ('s, 'x) env
    \<Rightarrow> (bool \<times> goerr option) outcome \<times> implementation \<times> ('s, 'x) env" where
  "implEnumerate I m (ImplProduct g) e = mapImpl ImplProduct (productEnumerate I m g e)"
| "implEnumerate I m (ImplTemperature i) e = mapImpl ImplTemperature (temperatureEnumerate I m i e)"
| "implEnumerate I m (ImplHumidity i) e = mapImpl ImplHumidity (humidityEnumerate I m i e)"
| "implEnumerate I m (ImplPressure i) e = mapImpl ImplPressure (pressureEnumerate I m i e)"
| "implEnumerate I m (ImplIdentify i) e = mapImpl ImplIdentify (identifyEnumerate I m i e)"
| "implEnumerate I m (ImplPower i) e = mapImpl ImplPower (powerEnumerate I m i e)"
| "implEnumerate I m (ImplWorkaround i) e = mapImpl ImplWorkaround (workaroundEnumerate I m i e)"

fun implDetach ::
  "('s, 'x) zdaInterface \<Rightarrow> DetachType \<Rightarrow> implementation \<Rightarrow> ('s, 'x) env
    \<Rightarrow> goerr option \<times> implementation \<times> ('s, 'x) env" where
  "implDetach I t (ImplProduct g) e = mapImpl ImplProduct (productDetach t g e)"
| "implDetach I t (ImplTemperature i) e = mapImpl ImplTemperature (temperatureDetach I t i e)"
| "implDetach I t (ImplHumidity i) e = mapImpl ImplHumidity (humidityDetach I t i e)"
| "implDetach I t (ImplPressure i) e = mapImpl ImplPressure (pressureDetach I t i e)"
| "implDetach I t (ImplIdentify i) e = mapImpl ImplIdentify (identifyDetach I t i e)"
| "implDetach I t (ImplPower i) e = mapImpl ImplPower (powerDetach I t i e)"
| "implDetach I t (ImplWorkaround i) e = mapImpl ImplWorkaround (workaroundDetach t i e)"

definition Implementations :: "('s, 'x) zdaInterface \<Rightarrow> (implementation, 's, 'x) zdaCapability" where
  "Implementations I =
     \<lparr>c_Create = (\<lambda>name e. (Create name, e)), c_Capability = implCapability, c_ImplName = implName,
      c_Section = implSection, c_Init = implInit I, c_Load = implLoad I,
      c_Enumerate = implEnumerate I, c_Detach = implDetach I\<rparr>"

text \<open>A value of the monitored attribute arriving: the callback \<open>update\<close> of the implementation.\<close>

fun implUpdate ::
  "('s, 'x) zdaInterface \<Rightarrow> AttributeID \<times> AttributeDataTypeValue \<Rightarrow> implementation \<Rightarrow> ('s, 'x) env
    \<Rightarrow> implementation \<times> ('s, 'x) env" where
  "implUpdate I v (ImplTemperature i) e = (ImplTemperature i, temperatureUpdate I v i e)"
| "implUpdate I v (ImplHumidity i) e = (ImplHumidity i, humidityUpdate I v i e)"
| "implUpdate I v (ImplPressure i) e = (ImplPressure i, pressureUpdate I v i e)"
| "implUpdate I v (ImplIdentify i) e = map_prod ImplIdentify id (identifyUpdate I v i e)"
| "implUpdate I v (ImplPower i) e = (ImplPower i, powerUpdate I v i e)"
| "implUpdate I v c e = (c, e)"

section \<open>What stays\<close>

lemma sectionOf_same:
  assumes "list_all2 same_monitor ms ms'"
  shows "sectionOf p ms' = sectionOf p ms"
proof -
  have "list_all (\<lambda>m. prefix p (m_config m)) ms' = list_all (\<lambda>m. prefix p (m_config m)) ms"
    using assms by (induction rule: list_all2_induct) (auto simp: same_monitor_def)
  then show ?thesis by (simp add: sectionOf_def)
qed

lemma crashOn_same [simp]: "same_monitor m (crashOn r m') = same_monitor m m'"
  by (simp add: crashOn_def same_monitor_def split: outcome.split)

text \<open>Two states of a power supply with the same section and the same places of its monitors.\<close>

definition same_power :: "powerSupply \<Rightarrow> powerSupply \<Rightarrow> bool" where
  "same_power i i' \<longleftrightarrow> ps_section i' = ps_section i \<and> ps_device i' = ps_device i \<and>
     list_all2 same_monitor (batteryVoltageMonitor i) (batteryVoltageMonitor i') \<and>
     list_all2 same_monitor (batteryPercentageMonitor i) (batteryPercentageMonitor i') \<and>
     same_monitor (mainsVoltageMonitor i) (mainsVoltageMonitor i') \<and>
     same_monitor (mainsFrequencyMonitor i) (mainsFrequencyMonitor i')"

lemma same_power_refl [simp, intro]: "same_power i i"
  by (simp add: same_power_def list_all2_refl)

lemma same_power_trans: "same_power i i' \<Longrightarrow> same_power i' i'' \<Longrightarrow> same_power i i''"
  unfolding same_power_def
  by (auto elim: list_all2_trans [rotated -2] intro: same_monitor_trans)

lemma same_power_section: "same_power i i' \<Longrightarrow> powerSection i' = powerSection i"
  unfolding powerSection_def same_power_def powerMonitors_def
  by (auto dest: list_all2_lengthD intro!: sectionOf_same list_all2_appendI)

lemma same_power_setMonitor:
  assumes "same_power i0 i" "same_monitor (getMonitor sl i) m"
  shows "same_power i0 (setMonitor sl m i)"
proof -
  have "list_all2 same_monitor ms (ms[n := m])" if "same_monitor (ms ! n) m" for ms n
    using that by (cases "n < length ms") (auto simp: list_all2_conv_all_nth nth_list_update list_all2_refl)
  then have "same_power i (setMonitor sl m i)"
    using assms(2) by (cases sl) (auto simp: same_power_def list_all2_refl)
  with assms(1) show ?thesis by (rule same_power_trans)
qed

section \<open>Effects of the simple implementations\<close>

lemma sectionOf_below: "prefix (sectionOf p [m]) p" "prefix (sectionOf p [m]) (m_config m)"
  by (auto simp: sectionOf_def)

lemma productLoop_effect:
  "productLoop I q m np a e = (r, e') \<Longrightarrow> section_store (sections I) \<Longrightarrow> prefix p q \<Longrightarrow>
     cap_effect (sections I) p e0 e \<Longrightarrow> cap_effect (sections I) p e0 e'"
proof (induction I q m np a e arbitrary: r e' rule: productLoop.induct)
  case (2 I q k v m newPI attach e)
  show ?case
  proof (cases "castString v")
    case None
    with 2(3,6) show ?thesis by simp
  next
    case (Some t)
    let ?new = "if 0 < length t then setProductInfo k t newPI else None"
    show ?thesis
    proof (cases ?new)
      case None
      from 2(3) Some None have "productLoop I q m newPI attach e = (r, e')" by simp
      from 2(1) [OF Some None this 2(4-6)] show ?thesis .
    next
      case new: (Some newPI')
      from 2(3) Some new have "productLoop I q m newPI' True (putKey I q k (PString t) e) = (r, e')" by simp
      from 2(2) [OF Some new this 2(4,5) effect_putKey [OF 2(4-6)]] show ?thesis .
    qed
  qed
qed simp

lemma effect_removeSection [effect_rules]:
  "section_store (sections I) \<Longrightarrow> prefix p q \<Longrightarrow> cap_effect (sections I) p e0 e \<Longrightarrow>
     cap_effect (sections I) p e0 (e\<lparr>store := snd (p_remove (sections I) q k (store e))\<rparr>)"
  by (rule cap_effect_store) (auto intro: section_store.remove_only_below)

lemma keepAlive_effect:
  "enumerateZCLReportingKeepAlive I m i e = (r, i', e') \<Longrightarrow> section_store (sections I) \<Longrightarrow>
     cap_effect (sections I) (dw_section i) e0 e \<Longrightarrow>
     cap_effect (sections I) (dw_section i) e0 e' \<and> dw_section i' = dw_section i \<and> dw_device i' = dw_device i"
  unfolding enumerateZCLReportingKeepAlive_def Let_def
  by (auto split: prod.splits sum.splits intro!: effect_rules elim!: effect_elims)

lemma workaroundLoop_effect:
  "workaroundLoop I m ks i e = (r, i', e') \<Longrightarrow> section_store (sections I) \<Longrightarrow>
     cap_effect (sections I) (dw_section i) e0 e \<Longrightarrow>
     cap_effect (sections I) (dw_section i) e0 e' \<and> dw_section i' = dw_section i \<and> dw_device i' = dw_device i"
proof (induction I m ks i e arbitrary: r i' e' rule: workaroundLoop.induct)
  case (2 I m w ks i e)
  show ?case
  proof (cases "HasPrefix w ''Enable''")
    case True
    obtain r1 i1 e1 where one: "enumerateWorkaround I m w i e = (r1, i1, e1)" by (metis prod.exhaust)
    have step: "cap_effect (sections I) (dw_section i) e0 e1 \<and> dw_section i1 = dw_section i \<and> dw_device i1 = dw_device i"
      using one keepAlive_effect [of I m i e r1 i1 e1 e0] 2(4,5)
      by (auto simp: enumerateWorkaround_def split: if_splits)
    show ?thesis
    proof (cases r1)
      case None
      with True one 2(3) have "workaroundLoop I m ks i1 e1 = (r, i', e')" by simp
      from 2(1) [OF True one [symmetric] None refl this 2(4)] step show ?thesis by simp
    qed (use True one 2(3) step in auto)
  next
    case False
    with 2(3) have "workaroundLoop I m ks i e = (r, i', e')" by simp
    from 2(2) [OF False this 2(4,5)] show ?thesis .
  qed
qed simp

lemma identifySendEvent_effect [effect_elims]:
  "identifySendEvent I i e = (r, e') \<Longrightarrow> cap_effect P p e0 e \<Longrightarrow> cap_effect P p e0 e'"
  unfolding identifySendEvent_def Let_def by (auto split: prod.splits intro!: effect_rules elim!: effect_elims)

lemma periodicSendEvent_effect:
  "periodicSendEvent I i e = (i', e') \<Longrightarrow> cap_effect P p e0 e \<Longrightarrow>
     cap_effect P p e0 e' \<and> id_section i' = id_section i \<and> id_monitor i' = id_monitor i \<and> id_device i' = id_device i"
  unfolding periodicSendEvent_def by (auto split: prod.splits if_splits elim!: effect_elims)

lemma updateDuration_effect:
  assumes "updateDuration I d i e = (i', e')" "section_store (sections I)" "prefix p (id_section i)"
    and "cap_effect (sections I) p e0 e"
  shows "cap_effect (sections I) p e0 e' \<and> id_section i' = id_section i \<and> id_monitor i' = id_monitor i \<and>
    id_device i' = id_device i"
proof -
  have eff: "cap_effect (sections I) p e0 e1" if "periodicSendEvent I i e = (i1, e1)" "cap_effect (sections I) p e0 e"
    for e i1 e1 using periodicSendEvent_effect [OF that] by simp
  have same: "id_section i1 = id_section i \<and> id_monitor i1 = id_monitor i \<and> id_device i1 = id_device i"
    if "periodicSendEvent I i e = (i1, e1)" for e i1 e1
    using that periodicSendEvent_effect [OF that, of P p] by (auto simp: periodicSendEvent_def split: prod.splits)
  show ?thesis
    using assms unfolding updateDuration_def Let_def
    by (auto split: prod.splits if_splits intro!: effect_rules elim!: effect_elims eff dest: same)
qed

lemma sensor_effects:
  assumes "section_store (sections I)" "prefix p (m_config (s_monitor i))" "cap_effect (sections I) p e0 e"
  shows "sensorLoad I i e = (r, i', e') \<Longrightarrow> cap_effect (sections I) p e0 e'"
    "sensorEnumerate k I m i e = (r', i', e') \<Longrightarrow> cap_effect (sections I) p e0 e'"
    "sensorDetach I t i e = (r'', i', e') \<Longrightarrow> cap_effect (sections I) p e0 e'"
    "prefix p (s_section i) \<Longrightarrow> (\<And>d x. \<not> table_event (k_event k d x)) \<Longrightarrow>
       cap_effect (sections I) p e0 (sensorUpdate k I v i e)"
  using assms
  by (auto simp: sensorLoad_def sensorEnumerate_def sensorDetach_def sensorUpdate_def Let_def
      split: prod.splits option.split intro!: effect_rules elim!: effect_elims)

lemma sensor_same:
  "sensorLoad I i e = (r, i', e') \<Longrightarrow> s_section i' = s_section i \<and> same_monitor (s_monitor i) (s_monitor i')"
  "sensorEnumerate k I m i e = (r', i', e') \<Longrightarrow> s_section i' = s_section i \<and> same_monitor (s_monitor i) (s_monitor i')"
  "sensorDetach I t i e = (r'', i', e') \<Longrightarrow> s_section i' = s_section i \<and> same_monitor (s_monitor i) (s_monitor i')"
  by (auto simp: sensorLoad_def sensorEnumerate_def sensorDetach_def Let_def split: prod.splits
      dest: monitorLoad_same monitorAttach_same monitorDetach_same)

lemma identify_effects:
  assumes "section_store (sections I)" "prefix p (m_config (id_monitor i))" "prefix p (id_section i)"
    "cap_effect (sections I) p e0 e"
  shows "identifyLoad I i e = (r, i', e') \<Longrightarrow> cap_effect (sections I) p e0 e'"
    "identifyEnumerate I m i e = (r', i', e') \<Longrightarrow> cap_effect (sections I) p e0 e'"
    "identifyDetach I t i e = (r'', i', e') \<Longrightarrow> cap_effect (sections I) p e0 e'"
  using assms
  by (auto simp: identifyLoad_def identifyEnumerate_def identifyDetach_def Let_def
      split: prod.splits option.splits intro!: effect_rules elim!: effect_elims)

lemma identify_same:
  "identifyLoad I i e = (r, i', e') \<Longrightarrow> id_section i' = id_section i \<and> same_monitor (id_monitor i) (id_monitor i')"
  "identifyEnumerate I m i e = (r', i', e') \<Longrightarrow> id_section i' = id_section i \<and> same_monitor (id_monitor i) (id_monitor i')"
  "identifyDetach I t i e = (r'', i', e') \<Longrightarrow> id_section i' = id_section i \<and> same_monitor (id_monitor i) (id_monitor i')"
  by (auto simp: identifyLoad_def identifyEnumerate_def identifyDetach_def Let_def split: prod.splits option.splits
      dest: monitorLoad_same monitorAttach_same monitorDetach_same)

section \<open>Effects of the power supply\<close>

fun slot_ok :: "slot \<Rightarrow> bool" where
  "slot_ok (SBatteryVoltage n) = (n < 3)"
| "slot_ok (SBatteryPercentage n) = (n < 3)"
| "slot_ok _ = True"

lemma powerSection_below:
  "prefix (powerSection i) (ps_section i)" "slot_ok sl \<Longrightarrow> prefix (powerSection i) (m_config (getMonitor sl i))"
proof -
  show "prefix (powerSection i) (ps_section i)" by (simp add: powerSection_def sectionOf_def)
  show "slot_ok sl \<Longrightarrow> prefix (powerSection i) (m_config (getMonitor sl i))"
    by (cases sl) (auto simp: powerSection_def sectionOf_def powerMonitors_def list_all_iff)
qed

text \<open>The invariant of every step: the monitors are where they were, and what has happened to
  the environment so far is within the section. \<open>st\<close> is any triple of a result, the state and
  the environment.\<close>

definition pinv :: "('s, 'x) zdaInterface \<Rightarrow> powerSupply \<Rightarrow> ('s, 'x) env \<Rightarrow> 'r \<times> powerSupply \<times> ('s, 'x) env \<Rightarrow> bool" where
  "pinv I i0 e0 st \<longleftrightarrow>
     same_power i0 (fst (snd st)) \<and> cap_effect (sections I) (powerSection i0) e0 (snd (snd st))"

lemma pinv_triple [simp]:
  "pinv I i0 e0 (r, i, e) \<longleftrightarrow> same_power i0 i \<and> cap_effect (sections I) (powerSection i0) e0 e"
  by (simp add: pinv_def)

lemma pinv_result [simp]:
  "pinv I i0 e0 (case st of (r, i, e) \<Rightarrow> (f r, i, e)) \<longleftrightarrow> pinv I i0 e0 st"
  "pinv I i0 e0 (case st of (r, x) \<Rightarrow> (f r, x)) \<longleftrightarrow> pinv I i0 e0 st"
  by (simp_all add: pinv_def split: prod.split)

lemma pinv_init: "pinv I i e (r, i, e)"
  by simp

lemma pinv_fold:
  assumes "\<And>n st. n \<in> set ns \<Longrightarrow> pinv I i0 e0 st \<Longrightarrow> pinv I i0 e0 (f n st)" "pinv I i0 e0 st"
  shows "pinv I i0 e0 (fold f ns st)"
  using assms by (induction ns arbitrary: st) simp_all

lemma same_power_below:
  assumes "same_power i0 i"
  shows "prefix (powerSection i0) (ps_section i)"
    "slot_ok sl \<Longrightarrow> prefix (powerSection i0) (m_config (getMonitor sl i))"
  using powerSection_below [where i = i] same_power_section [OF assms] by simp_all

text \<open>Setting one of the flags does not move a monitor.\<close>

lemma same_power_update [simp]:
  "same_power i0 (i\<lparr>mainsPresent := b\<rparr>) = same_power i0 i"
  "same_power i0 (i\<lparr>mainsVoltagePresent := b\<rparr>) = same_power i0 i"
  "same_power i0 (i\<lparr>mainsFrequencyPresent := b\<rparr>) = same_power i0 i"
  "same_power i0 (i\<lparr>batteryPresent := bs\<rparr>) = same_power i0 i"
  "same_power i0 (i\<lparr>batteryVoltagePresent := bs\<rparr>) = same_power i0 i"
  "same_power i0 (i\<lparr>batteryPercentagePresent := bs\<rparr>) = same_power i0 i"
  "same_power i0 (i\<lparr>ps_remote := ep\<rparr>) = same_power i0 i"
  by (simp_all add: same_power_def)

lemma same_power_apply:
  "same_power i0 (applyPowerSource v i) = same_power i0 i"
  "same_power i0 (snd (fold (applyMains Z) resp (a, i))) = same_power i0 i"
  "same_power i0 (snd (fold (applyBattery Z n) resp (a, i))) = same_power i0 i"
proof -
  show "same_power i0 (applyPowerSource v i) = same_power i0 i"
    by (simp add: applyPowerSource_def Let_def)
  show "same_power i0 (snd (fold (applyMains Z) resp (a, i))) = same_power i0 i"
    by (induction resp arbitrary: a i) (simp_all add: applyMains_def)
  show "same_power i0 (snd (fold (applyBattery Z n) resp (a, i))) = same_power i0 i"
    by (induction resp arbitrary: a i) (simp_all add: applyBattery_def)
qed

lemma loadMonitor_pinv:
  assumes "section_store (sections I)" "pinv I i0 e0 st" "slot_ok sl"
  shows "pinv I i0 e0 (loadMonitor I sl b t st)"
proof -
  obtain r i e where st: "st = (r, i, e)" by (metis prod.exhaust)
  obtain r1 m e1 where load: "monitorLoad I (getMonitor sl i) e = (r1, m, e1)" by (metis prod.exhaust)
  have "same_power i0 (setMonitor sl (crashOn r1 m) i)"
    using assms(2) monitorLoad_same [OF load] by (intro same_power_setMonitor) (simp_all add: st)
  moreover have "cap_effect (sections I) (powerSection i0) e0 e1"
    using effect_monitorLoad [OF load] assms(2) by (simp add: st)
  ultimately show ?thesis using assms(2) by (simp add: loadMonitor_def st load)
qed

lemma loadBattery_pinv:
  assumes "section_store (sections I)" "n < 3" "pinv I i0 e0 st"
  shows "pinv I i0 e0 (loadBattery I n st)"
proof -
  obtain r i e where st: "st = (r, i, e)" by (metis prod.exhaust)
  show ?thesis
    using assms unfolding loadBattery_def st Let_def
    by (auto intro!: loadMonitor_pinv)
qed

lemma powerLoad_pinv:
  assumes "section_store (sections I)"
  shows "pinv I i e (powerLoad I i e)"
  unfolding powerLoad_def Let_def pinv_result
  by (intro pinv_fold loadBattery_pinv loadMonitor_pinv assms) auto

lemma effect_storeBasic [effect_rules]:
  "section_store (sections I) \<Longrightarrow> prefix p (ps_section i) \<Longrightarrow> cap_effect (sections I) p e0 e \<Longrightarrow>
     cap_effect (sections I) p e0 (storeBasic I i e)"
  by (auto simp: storeBasic_def Let_def intro!: effect_rules)

lemma enumerateBasicCluster_pinv:
  assumes S: "section_store (sections I)" and "pinv I i0 e0 (r, i, e)"
  shows "pinv I i0 e0 (enumerateBasicCluster I i e)"
proof -
  from assms(2) have same: "same_power i0 i" and e: "cap_effect (sections I) (powerSection i0) e0 e" by simp_all
  have below: "prefix (powerSection i0) (ps_section i1)" if "same_power i0 i1" for i1
    by (rule same_power_below(1) [OF that])
  show ?thesis
    using same e unfolding enumerateBasicCluster_def readPower_def Let_def
    by (auto split: prod.split sum.split list.split option.split simp: same_power_apply
        intro!: effect_storeBasic [OF S] below elim!: effect_elims)
qed

lemma readMains_pinv:
  assumes "pinv I i0 e0 (r, i, e)"
  shows "pinv I i0 e0 (readMains I ieee lep ack seq i e)"
proof -
  obtain resp e1 where r: "readPower I ieee lep ack seq (PowerConfigurationId (zcl I))
      [AttrMainsVoltage (zcl I), AttrMainsFrequency (zcl I)] i e = (resp, e1)" by (metis prod.exhaust)
  then have "cap_effect (sections I) (powerSection i0) e0 e1"
    using assms unfolding readPower_def by (auto elim: effect_elims)
  then show ?thesis
    using assms same_power_apply(2) [of i0 "zcl I" _ False i]
    by (auto simp: readMains_def r split: sum.split prod.split) (metis snd_conv)
qed

lemma readBattery_pinv:
  assumes "pinv I i0 e0 st"
  shows "pinv I i0 e0 (readBattery I ieee lep ack n st)"
proof -
  obtain a err i e where st: "st = ((a, err), i, e)" by (metis prod.exhaust)
  obtain seq e1 where l: "\<exists>x y z. transmissionLookup (Some (ps_device i)) e = ((x, y, z, seq), e1)"
    by (metis prod.exhaust)
  obtain resp e2 where r: "readPower I ieee lep ack seq (PowerConfigurationId (zcl I))
      [AttrBatteryVoltage (zcl I) ! n, AttrBatteryPercentage (zcl I) ! n] i e1 = (resp, e2)" by (metis prod.exhaust)
  have "cap_effect (sections I) (powerSection i0) e0 e1"
    using l assms by (auto simp: st elim: effect_elims)
  with r have "cap_effect (sections I) (powerSection i0) e0 e2"
    unfolding readPower_def by (auto elim: effect_elims)
  then show ?thesis
    using assms l same_power_apply(3) [of i0 "zcl I" n _ a i]
    by (auto simp: readBattery_def st r split: sum.split prod.split) (metis snd_conv)
qed

lemma attachMonitor_pinv:
  assumes S: "section_store (sections I)" and "pinv I i0 e0 st" "slot_ok sl"
  shows "pinv I i0 e0 (attachMonitor I sl b key a dt change st)"
proof -
  obtain r i e where st: "st = (r, i, e)" by (metis prod.exhaust)
  let ?rc = "\<lparr>reportMode = AttemptConfigureReporting, MinimumInterval = 1 * minute,
      MaximumInterval = 5 * minute, ReportableChange = change\<rparr>"
  let ?pc = "\<lparr>pollMode = PollIfReportingFailed, Interval = 5 * minute\<rparr>"
  obtain r1 m e1 where at: "monitorAttach I (ps_remote i) (PowerConfigurationId (zcl I)) a dt ?rc ?pc
      (getMonitor sl i) (putKey I (ps_section i) key (PBool True) e) = (r1, m, e1)" by (metis prod.exhaust)
  have i: "same_power i0 i" and e: "cap_effect (sections I) (powerSection i0) e0 e" using assms(2) by (simp_all add: st)
  have "cap_effect (sections I) (powerSection i0) e0 e1"
    by (rule effect_monitorAttach [OF at S same_power_below(2) [OF i assms(3)]
          effect_putKey [OF S same_power_below(1) [OF i] e]])
  moreover have "same_power i0 (setMonitor sl m i)"
    by (rule same_power_setMonitor [OF i monitorAttach_same [OF at]])
  ultimately show ?thesis
    using i e by (simp add: attachMonitor_def st at [simplified] split: outcome.split prod.split option.split)
qed

lemma onPowerEnv_put_pinv:
  assumes "section_store (sections I)" "pinv I i0 e0 st"
  shows "pinv I i0 e0 (onPowerEnv (\<lambda>i. putKey I (ps_section i) key (v i)) st)"
  using assms by (auto simp: onPowerEnv_def split: prod.split outcome.split intro!: effect_rules same_power_below)

lemma enumeratePowerConfigurationCluster_pinv:
  assumes S: "section_store (sections I)" and "pinv I i0 e0 (r, i, e)"
  shows "pinv I i0 e0 (enumeratePowerConfigurationCluster I i e)"
proof -
  obtain ieee lep ack seq e1 where l: "transmissionLookup (Some (ps_device i)) e = ((ieee, lep, ack, seq), e1)"
    by (metis prod.exhaust)
  have e1: "pinv I i0 e0 (r, i, e1)" using assms(2) l by (auto elim: effect_elims)
  obtain r2 i2 e2 where st2: "fold (readBattery I ieee lep ack) [0, 1, 2] (readMains I ieee lep ack seq i e1) = (r2, i2, e2)"
    by (metis prod.exhaust)
  have "pinv I i0 e0 (fold (readBattery I ieee lep ack) [0, 1, 2] (readMains I ieee lep ack seq i e1))"
    by (intro pinv_fold readBattery_pinv readMains_pinv [OF e1])
  then have "pinv I i0 e0 (Returns r2, i2, e2)" by (simp only: st2 pinv_triple)
  then have "pinv I i0 e0 (fold (attachBattery I) [0, 1, 2] (attachMains I (onPowerEnv
      (\<lambda>i. putKey I (ps_section i) MainsPresentKey (PBool (mainsPresent i))) (Returns r2, i2, e2))))"
    unfolding attachMains_def attachBattery_def Let_def
    by (intro pinv_fold attachMonitor_pinv onPowerEnv_put_pinv S) auto
  then show ?thesis unfolding enumeratePowerConfigurationCluster_def l prod.case st2 .
qed

lemma powerEnumerate_pinv:
  assumes S: "section_store (sections I)"
  shows "pinv I i e (powerEnumerate I m i e)"
proof -
  let ?remote = "Get castEndpoint m ''ZigbeeEndpoint'' 1"
  let ?i = "i\<lparr>ps_remote := ?remote\<rparr>"
  let ?e = "putKey I (ps_section i) RemoteEndpointKey (PInt (uint ?remote)) e"
  have e: "pinv I i e (r, ?i, ?e)" for r
    by (auto intro!: effect_rules S powerSection_below)
  define st where "st = (if Get castBool m ''ZigbeeBasicClusterPresent'' False then
      (case enumerateBasicCluster I ?i ?e of
         (r, i2, e2) \<Rightarrow> (mergeCluster ''enumerating basic cluster'' (False, None) r, i2, e2))
      else (Returns (False, None), ?i, ?e))"
  have st: "pinv I i e st"
    using enumerateBasicCluster_pinv [OF S e] e unfolding st_def by (auto simp del: pinv_triple)
  obtain r2 i2 e2 where r2: "st = (r2, i2, e2)" by (metis prod.exhaust)
  have two: "pinv I i e (enumeratePowerConfigurationCluster I i2 e2)"
    by (rule enumeratePowerConfigurationCluster_pinv [OF S]) (use st in \<open>simp add: r2\<close>)
  show ?thesis
    using st two unfolding powerEnumerate_def Let_def st_def [symmetric] r2
    by (cases r2) (auto simp del: pinv_triple)
qed

lemma detachMonitor_pinv:
  assumes S: "section_store (sections I)" and "pinv I i0 e0 st" "slot_ok sl"
  shows "pinv I i0 e0 (detachMonitor I t sl b st)"
proof -
  obtain r i e where st: "st = (r, i, e)" by (metis prod.exhaust)
  obtain r1 m e1 where d: "monitorDetach I (t = NoLongerEnumerated) (getMonitor sl i) e = (r1, m, e1)"
    by (metis prod.exhaust)
  have i: "same_power i0 i" and e: "cap_effect (sections I) (powerSection i0) e0 e" using assms(2) by (simp_all add: st)
  have "cap_effect (sections I) (powerSection i0) e0 e1"
    by (rule effect_monitorDetach [OF d S same_power_below(2) [OF i assms(3)] e])
  moreover have "same_power i0 (setMonitor sl m i)"
    by (rule same_power_setMonitor [OF i monitorDetach_same [OF d]])
  ultimately show ?thesis using i e by (simp add: detachMonitor_def st d)
qed

lemma powerDetach_pinv:
  assumes "section_store (sections I)"
  shows "pinv I i e (powerDetach I t i e)"
  unfolding powerDetach_def by (intro pinv_fold detachMonitor_pinv assms) auto

lemma powerInit_effect:
  assumes "section_store (sections I)"
  shows "cap_effect (sections I) p e (snd (powerInit I d p i e))"
    "powerSection (fst (powerInit I d p i e)) = p"
  using assms
  by (auto simp: powerInit_def Let_def monitorPath_def powerSection_def sectionOf_def powerMonitors_def
      monitorInit_def intro!: effect_rules)

lemma powerUpdate_effect:
  "section_store (sections I) \<Longrightarrow> prefix p (ps_section i) \<Longrightarrow> cap_effect (sections I) p e0 e \<Longrightarrow>
     cap_effect (sections I) p e0 (powerUpdate I v i e)"
  unfolding powerUpdate_def Let_def
  by (auto split: option.split prod.split intro!: effect_rules)

section \<open>The contract holds\<close>

lemma Implementations_simps [simp]:
  "c_Create (Implementations I) name e = (Create name, e)"
  "c_Capability (Implementations I) = implCapability" "c_ImplName (Implementations I) = implName"
  "c_Section (Implementations I) = implSection" "c_Init (Implementations I) = implInit I"
  "c_Load (Implementations I) = implLoad I" "c_Enumerate (Implementations I) = implEnumerate I"
  "c_Detach (Implementations I) = implDetach I"
  by (simp_all add: Implementations_def)

lemma Create_name:
  "Create name = Some c \<Longrightarrow> implName c = name \<and> map_of Mapping name = Some (implCapability c)"
  by (auto simp: Create_def Mapping_def implementation_names split: if_splits)

text \<open>Every name the rules can use has an implementation, and no other.\<close>

lemma Create_complete: "(Create name = None) = (map_of Mapping name = None)"
  by (auto simp: Create_def Mapping_def implementation_names)

lemma implInit_contract:
  assumes "section_store (sections I)"
  shows "implSection (fst (implInit I d p c e)) = p"
    "implCapability (fst (implInit I d p c e)) = implCapability c"
    "implName (fst (implInit I d p c e)) = implName c"
    "cap_effect (sections I) p e (snd (implInit I d p c e))"
  using assms
  by (cases c; auto simp: productInit_def workaroundInit_def sensor_instances sensorInit_def identifyInit_def
      monitorInit_def sectionOf_def Let_def powerInit_effect intro!: effect_rules)+

lemma map_prod_eq3: "mapImpl f x = (r, c, e) \<longleftrightarrow> (\<exists>i. x = (r, i, e) \<and> c = f i)"
  by (cases x) auto

lemma pinv_power:
  assumes "pinv I i e st" "st = (r, i', e')"
  shows "powerSection i' = powerSection i" "cap_effect (sections I) (powerSection i) e e'"
  using assms by (auto intro: same_power_section)

lemma sectionOf_single: "same_monitor m m' \<Longrightarrow> sectionOf p [m'] = sectionOf p [m]"
  by (rule sectionOf_same) simp

lemma implLoad_contract:
  assumes S: "section_store (sections I)" and load: "implLoad I c e = (r, c', e')"
  shows "implCapability c' = implCapability c \<and> implName c' = implName c \<and> implSection c' = implSection c \<and>
    cap_effect (sections I) (implSection c) e e'"
proof (cases c)
  case (ImplPower i)
  with load show ?thesis
    by (auto simp: map_prod_eq3 dest: pinv_power [OF powerLoad_pinv [OF S]])
next
  case (ImplIdentify i)
  with load show ?thesis
    by (auto simp: map_prod_eq3 intro!: sectionOf_single dest: identify_same(1)
        identify_effects(1) [OF S sectionOf_below(2) sectionOf_below(1) cap_effect_refl])
qed (use load S in
    \<open>auto simp: map_prod_eq3 sensor_instances productLoad_def workaroundLoad_def Let_def
       dest: sensor_same(1) sensor_effects(1) [OF S sectionOf_below(2) cap_effect_refl] intro!: sectionOf_single effect_rules\<close>)

lemma implEnumerate_contract:
  assumes S: "section_store (sections I)" and enum: "implEnumerate I m c e = (r, c', e')"
  shows "implCapability c' = implCapability c \<and> implName c' = implName c \<and> implSection c' = implSection c \<and>
    cap_effect (sections I) (implSection c) e e'"
proof (cases c)
  case (ImplPower i)
  with enum show ?thesis
    by (auto simp: map_prod_eq3 dest: pinv_power [OF powerEnumerate_pinv [OF S]])
next
  case (ImplIdentify i)
  with enum show ?thesis
    by (auto simp: map_prod_eq3 intro!: sectionOf_single dest: identify_same(2)
        identify_effects(2) [OF S sectionOf_below(2) sectionOf_below(1) cap_effect_refl])
next
  case (ImplProduct g)
  with enum show ?thesis
    by (auto simp: map_prod_eq3 productEnumerate_def split: prod.splits sum.splits if_splits
        elim!: productLoop_effect [OF _ S])
next
  case (ImplWorkaround i)
  obtain r1 i1 where one: "workaroundEnumerate I m i e = (r1, i1, e')" and c': "c' = ImplWorkaround i1"
    using enum ImplWorkaround by (auto simp: map_prod_eq3)
  from one obtain r2 where two: "workaroundLoop I m (map fst m) (i\<lparr>dw_enabled := []\<rparr>)
      (e\<lparr>store := snd (p_remove (sections I) (dw_section i) ''Workarounds'' (store e))\<rparr>) = (r2, i1, e')"
    by (auto simp: workaroundEnumerate_def Let_def split: prod.splits)
  have "cap_effect (sections I) (dw_section i) e
      (e\<lparr>store := snd (p_remove (sections I) (dw_section i) ''Workarounds'' (store e))\<rparr>)"
    by (intro effect_rules S) simp_all
  with workaroundLoop_effect [OF two S, of e] c' ImplWorkaround show ?thesis by simp
qed (use enum S in
    \<open>auto simp: map_prod_eq3 sensor_instances dest: sensor_same(2) sensor_effects(2) [OF S sectionOf_below(2) cap_effect_refl] intro!: sectionOf_single\<close>)

lemma implDetach_contract:
  assumes S: "section_store (sections I)" and det: "implDetach I t c e = (r, c', e')"
  shows "implCapability c' = implCapability c \<and> implName c' = implName c \<and> implSection c' = implSection c \<and>
    cap_effect (sections I) (implSection c) e e'"
proof (cases c)
  case (ImplPower i)
  with det show ?thesis
    by (auto simp: map_prod_eq3 dest: pinv_power [OF powerDetach_pinv [OF S]])
next
  case (ImplIdentify i)
  with det show ?thesis
    by (auto simp: map_prod_eq3 intro!: sectionOf_single dest: identify_same(3)
        identify_effects(3) [OF S sectionOf_below(2) sectionOf_below(1) cap_effect_refl])
qed (use det S in
    \<open>auto simp: map_prod_eq3 sensor_instances productDetach_def workaroundDetach_def
       dest: sensor_same(3) sensor_effects(3) [OF S sectionOf_below(2) cap_effect_refl] intro!: sectionOf_single\<close>)

lemma Implementations_contract:
  assumes "section_store (sections I)"
  shows "zda_capability (sections I) (Implementations I)"
proof
  fix name n d p c m t e r r' r'' c' e'
  show "quiet e (snd (c_Create (Implementations I) n e))" by simp
  show "fst (c_Create (Implementations I) n e) = Some c \<Longrightarrow>
      c_ImplName (Implementations I) c = n \<and> map_of Mapping n = Some (c_Capability (Implementations I) c)"
    using Create_name by simp
qed (simp_all add: implInit_contract [OF assms], (blast dest: implLoad_contract [OF assms]
    implEnumerate_contract [OF assms] implDetach_contract [OF assms])+)

text \<open>The gateway with its own implementations, on any host as documented.\<close>

locale zda =
  fixes h :: "'s host" and I :: "('s, 'x) zdaInterface"
  assumes documented: "host_ok h" and same_store: "sections I = persist h"

lemma zda_gateway:
  assumes "zda h I"
  shows "gateway h (Implementations I)"
proof -
  have "section_store (sections I)"
    using assms host_okD(1) by (metis zda.documented zda.same_store)
  from Implementations_contract [OF this] show ?thesis
    using assms by (simp add: gateway_def gateway_axioms_def zda_def)
qed

sublocale zda \<subseteq> gateway h "Implementations I"
  by (rule zda_gateway) (rule zda_axioms)

text \<open>An interface over the in-memory store, whose network accepts everything.\<close>

definition exampleInterface :: "(memory, unit) zdaInterface" where
  "exampleInterface =
     \<lparr>sections = memory_store, zcl = zclStandard,
      encEndpoint = (\<lambda>v. PInt (uint v)), decEndpoint = (\<lambda>v. case v of PInt i \<Rightarrow> Some (word_of_int i) | _ \<Rightarrow> None),
      encClusterID = (\<lambda>v. PInt (uint v)), decClusterID = (\<lambda>v. case v of PInt i \<Rightarrow> Some (word_of_int i) | _ \<Rightarrow> None),
      encAttributeID = (\<lambda>v. PInt (uint v)), decAttributeID = (\<lambda>v. case v of PInt i \<Rightarrow> Some (word_of_int i) | _ \<Rightarrow> None),
      encDataType = (\<lambda>v. PInt (uint v)), decDataType = (\<lambda>v. case v of PInt i \<Rightarrow> Some (word_of_int i) | _ \<Rightarrow> None),
      encDuration = PInt, decDuration = (\<lambda>v. case v of PInt i \<Rightarrow> Some i | _ \<Rightarrow> None),
      encTime = PInt, decTime = (\<lambda>v. case v of PInt i \<Rightarrow> Some i | _ \<Rightarrow> None),
      BindNodeToController = (\<lambda>_ _ _ _ x. (Inr (), x)), ConfigureReporting = (\<lambda>_ x. (Inr (), x)),
      ReadOnce = (\<lambda>_ x. (Inr [], x)), RequestIdentify = (\<lambda>_ x. (Inr (), x)), Now = (\<lambda>x. (0, x))\<rparr>"

lemma exampleInterface_ok: "converters_ok exampleInterface" "sections exampleInterface = persist memoryHost"
  by (simp_all add: converters_ok_def exampleInterface_def memoryHost_def)

interpretation example: zda memoryHost exampleInterface
  by unfold_locales (simp_all add: memoryHost_ok exampleInterface_ok)

end
