(* ===== verification/Table_Events.thy ===== *)
theory Table_Events
  imports Table_Mirror
begin

text \<open>
  What a consumer of the event channel can rely on, and the invariant of the whole table:
  the store mirrors it (\<open>mirrors\<close>), the events sent so far replay to it (\<open>announced\<close>), and
  no node's sequence channel ever runs empty (\<open>sequences_full\<close>).
\<close>

section \<open>Replaying the events\<close>

text \<open>What a consumer knows: the devices it was told of, each with its capabilities.\<close>

type_synonym view = "address \<Rightarrow> Capability set option"

fun replayEvent :: "event \<Rightarrow> view \<Rightarrow> view" where
  "replayEvent (EvDeviceAdded d) v = v(d := Some {})"
| "replayEvent (EvDeviceRemoved d) v = v(d := None)"
| "replayEvent (EvCapabilityAdded d c) v = v(d := map_option (insert c) (v d))"
| "replayEvent (EvCapabilityRemoved d c) v = v(d := map_option (\<lambda>s. s - {c}) (v d))"
| "replayEvent _ v = v"

definition replay :: "event list \<Rightarrow> view" where
  "replay evs = fold replayEvent evs (\<lambda>_. None)"

definition tableView :: "('c, 's, 'x) ZDA \<Rightarrow> view" where
  "tableView z d = map_option (\<lambda>dev. set (deviceCapabilities dev)) (getDevice d z)"

definition announced :: "('c, 's, 'x) ZDA \<Rightarrow> bool" where
  "announced z \<longleftrightarrow> replay (events (env z)) = tableView z"

definition sequences_full :: "('c, 's, 'x) ZDA \<Rightarrow> bool" where
  "sequences_full z \<longleftrightarrow> (\<forall>a. getNode a z \<noteq> None \<longrightarrow>
     mset (sequence (nodeTx (env z) a)) = mset makeTransactionSequence)"

definition gateway_ok :: "'s host \<Rightarrow> ('c, 's, 'x) zdaCapability \<Rightarrow> ('c, 's, 'x) ZDA \<Rightarrow> bool" where
  "gateway_ok h C z \<longleftrightarrow> mirrors h C z \<and> announced z \<and> sequences_full z"

named_theorems gateway_intros "operations that keep gateway_ok"

lemma replay_append [simp]: "replay (evs @ evs') = fold replayEvent evs' (replay evs)"
  by (simp add: replay_def)

lemma replay_other: "\<forall>ev \<in> set evs. \<not> table_event ev \<Longrightarrow> fold replayEvent evs v = v"
proof (induction evs arbitrary: v)
  case (Cons ev evs)
  then have "replayEvent ev v = v" by (cases ev) simp_all
  with Cons show ?case by simp
qed simp

text \<open>No capability in a table hides one of the two attachments every device has.\<close>

lemma Mapping_flags: "map_of Mapping n = Some cf \<Longrightarrow> cf \<noteq> EnumerateDeviceFlag \<and> cf \<noteq> DeviceRemovalFlag"
  by (auto simp: Mapping_def split: if_splits)

lemma capability_ok_flag: "capability_ok h C d s cf c \<Longrightarrow> cf \<noteq> EnumerateDeviceFlag \<and> cf \<noteq> DeviceRemovalFlag"
  by (auto simp: capability_ok_def dest: Mapping_flags)

lemma set_deviceCapabilities:
  "set (deviceCapabilities dev) = insert EnumerateDeviceFlag (insert DeviceRemovalFlag (keys (capabilities dev)))"
  by (auto simp: deviceCapabilities_def)

lemma announcedI:
  "replay (events (env z)) = tableView z0 \<Longrightarrow> tableView z0 = tableView z \<Longrightarrow> announced z"
  by (simp add: announced_def)

lemma tableView_cong: "(\<And>d. getDevice d z = getDevice d z') \<Longrightarrow> tableView z = tableView z'"
  by (rule ext) (simp add: tableView_def)

lemma sequences_fullD:
  assumes "sequences_full z" "getNode a z \<noteq> None"
  shows "length (sequence (nodeTx (env z) a)) = 255"
proof -
  have "mset (sequence (nodeTx (env z) a)) = mset makeTransactionSequence"
    using assms by (simp add: sequences_full_def)
  from mset_eq_length [OF this] show ?thesis by simp
qed

lemma sequences_full_cong:
  "(\<And>a. (getNode a z' = None) = (getNode a z = None)) \<Longrightarrow> nodeTx (env z') = nodeTx (env z) \<Longrightarrow>
     sequences_full z' = sequences_full z"
  by (simp add: sequences_full_def)

lemma sequences_full_effect:
  "cap_effect P p (env z) (env z') \<Longrightarrow> (\<And>a. (getNode a z' = None) = (getNode a z = None)) \<Longrightarrow>
     sequences_full z \<Longrightarrow> sequences_full z'"
  by (simp add: sequences_full_def cap_effect_def)

lemma announced_effect:
  "cap_effect P p (env z) (env z') \<Longrightarrow> tableView z' = tableView z \<Longrightarrow> announced z \<Longrightarrow> announced z'"
  by (auto simp: announced_def cap_effect_def replay_other)

lemma gateway_okD:
  assumes "gateway_ok h C z"
  shows "mirrors h C z" "announced z" "sequences_full z"
  using assms by (auto simp: gateway_ok_def)

text \<open>Events that are not about the table may be sent at any time.\<close>

lemma gateway_ok_sendEvent [gateway_intros]:
  assumes "gateway_ok h C z" "\<not> table_event ev"
  shows "gateway_ok h C (zSendEvent ev z)"
proof -
  have "announced (zSendEvent ev z)"
    using assms replay_other [of "[ev]"]
    by (simp add: gateway_ok_def announced_def tableView_def fun_eq_iff)
  moreover have "sequences_full (zSendEvent ev z)"
    using assms by (simp add: gateway_ok_def sequences_full_def)
  ultimately show ?thesis
    using assms by (simp add: gateway_ok_def mirrors_def)
qed

section \<open>The operations keep the invariant\<close>

context gateway begin

lemma gateway_ok_createNode [gateway_intros]:
  assumes "gateway_ok h C z"
  shows "gateway_ok h C (snd (createNode h a z))"
proof (cases "map_of (node z) a")
  case (Some n)
  with assms show ?thesis by (simp add: createNode_def)
next
  case None
  let ?z = "snd (createNode h a z)"
  have node: "getNode b ?z = (if b = a then Some newNode else getNode b z)" for b
    using None by (simp add: createNode_def getNode_def)
  have "tableView ?z = tableView z"
    using None by (intro tableView_cong, simp add: getDevice_def node newNode_def) (simp add: getNode_def)
  moreover have "events (env ?z) = events (env z)" using None by (simp add: createNode_def)
  ultimately have "announced ?z" using gateway_okD(2) [OF assms] by (simp add: announced_def)
  moreover have "sequences_full ?z"
    unfolding sequences_full_def node
    using gateway_okD(3) [OF assms] None by (simp add: sequences_full_def createNode_def)
  ultimately show ?thesis
    using mirrors_createNode [OF gateway_okD(1) [OF assms]] by (simp add: gateway_ok_def)
qed

lemma createSpecificDevice_devices:
  assumes "getNode a z \<noteq> None"
  shows "getDevice d (snd (createSpecificDevice h a i z)) =
      (if d = addressOf a i then Some newDevice else getDevice d z)"
    "(getNode b (snd (createSpecificDevice h a i z)) = None) = (getNode b z = None)"
  using assms by (auto simp: createSpecificDevice_def Let_def getNode_updNode getDevice_def address_eq_iff)

lemma gateway_ok_createSpecificDevice [gateway_intros]:
  assumes "gateway_ok h C z" "getNode a z \<noteq> None" "getDevice (addressOf a i) z = None"
  shows "gateway_ok h C (snd (createSpecificDevice h a i z))"
proof -
  let ?z = "snd (createSpecificDevice h a i z)"
  note dev = createSpecificDevice_devices [OF assms(2)]
  have "announced ?z"
    using gateway_okD(2) [OF assms(1)] unfolding announced_def
    by (intro ext, simp add: tableView_def dev)
       (auto simp: tableView_def createSpecificDevice_def Let_def newDevice_def deviceCapabilities_def)
  moreover have "sequences_full ?z"
    using gateway_okD(3) [OF assms(1)]
    by (subst sequences_full_cong [of _ z]) (simp_all add: dev, simp add: createSpecificDevice_def Let_def)
  ultimately show ?thesis
    using mirrors_createSpecificDevice [OF gateway_okD(1) [OF assms(1)] assms(2,3)]
    by (simp add: gateway_ok_def)
qed

lemma createNextDevice_specific:
  assumes "getNode a z = Some n"
  shows "createNextDevice h a z = createSpecificDevice h a (nextDeviceSubIdentifier (device n)) z"
  using assms by (simp add: createNextDevice_def)

lemma createNextDevice_free:
  assumes "getNode a z = Some n" "card (keys (device n)) < 256"
  shows "getDevice (addressOf a (nextDeviceSubIdentifier (device n))) z = None"
  using assms nextDeviceSubIdentifier_fresh [OF assms(2)] by (simp add: getDevice_def)

lemma gateway_ok_createNextDevice [gateway_intros]:
  assumes "gateway_ok h C z" "getNode a z = Some n" "card (keys (device n)) < 256"
  shows "gateway_ok h C (snd (createNextDevice h a z))"
  unfolding createNextDevice_specific [OF assms(2)]
  using assms(1,2) createNextDevice_free [OF assms(2,3)] by (intro gateway_ok_createSpecificDevice) auto

lemma setDeviceUniqueId_devices [simp]:
  "getDevice d' (setDeviceUniqueId h d i z) =
     (if d' = d then map_option (\<lambda>dev. dev\<lparr>deviceId := i, deviceIdSet := True\<rparr>) (getDevice d z)
      else getDevice d' z)"
  "getNode a (setDeviceUniqueId h d i z) = None \<longleftrightarrow> getNode a z = None"
  "events (env (setDeviceUniqueId h d i z)) = events (env z)"
  "nodeTx (env (setDeviceUniqueId h d i z)) = nodeTx (env z)"
  by (simp_all add: setDeviceUniqueId_def)

lemma gateway_ok_setDeviceUniqueId [gateway_intros]:
  assumes "gateway_ok h C z" "getDevice d z \<noteq> None"
  shows "gateway_ok h C (setDeviceUniqueId h d i z)"
proof -
  have "tableView (setDeviceUniqueId h d i z) = tableView z"
    by (rule ext) (simp add: tableView_def deviceCapabilities_def option.map_comp comp_def)
  then have "announced (setDeviceUniqueId h d i z)"
    using gateway_okD(2) [OF assms(1)] by (simp add: announced_def)
  moreover have "sequences_full (setDeviceUniqueId h d i z)"
    using gateway_okD(3) [OF assms(1)] by (subst sequences_full_cong [of _ z]) simp_all
  ultimately show ?thesis
    using mirrors_setDeviceUniqueId [OF gateway_okD(1) [OF assms(1)] assms(2)] by (simp add: gateway_ok_def)
qed

lemma attachCapability_devices [simp]:
  "getDevice d' (attachCapabilityToDevice h C d c z) =
     (if d' = d then map_option (\<lambda>dev. dev\<lparr>capabilities :=
           AList.update (c_Capability C c) c (capabilities dev)\<rparr>) (getDevice d z)
      else getDevice d' z)"
  "getNode a (attachCapabilityToDevice h C d c z) = None \<longleftrightarrow> getNode a z = None"
  "events (env (attachCapabilityToDevice h C d c z)) = events (env z) @ [EvCapabilityAdded d (c_Capability C c)]"
  "nodeTx (env (attachCapabilityToDevice h C d c z)) = nodeTx (env z)"
  by (simp_all add: attachCapabilityToDevice_def Let_def)

lemma announced_attach:
  "announced z \<Longrightarrow> getDevice d z \<noteq> None \<Longrightarrow> announced (attachCapabilityToDevice h C d c z)"
  by (auto simp: announced_def tableView_def fun_eq_iff set_deviceCapabilities)

lemma gateway_ok_attach [gateway_intros]:
  assumes "gateway_ok h C z" "getDevice d z \<noteq> None"
    and "capability_ok h C d (store (env z)) (c_Capability C c) c"
  shows "gateway_ok h C (attachCapabilityToDevice h C d c z)"
proof -
  have "announced (attachCapabilityToDevice h C d c z)"
    by (rule announced_attach [OF gateway_okD(2) [OF assms(1)] assms(2)])
  moreover have "sequences_full (attachCapabilityToDevice h C d c z)"
    using gateway_okD(3) [OF assms(1)] by (subst sequences_full_cong [of _ z]) simp_all
  ultimately show ?thesis
    using mirrors_attach [OF gateway_okD(1) [OF assms(1)] assms(2,3)] by (simp add: gateway_ok_def)
qed

lemma detachCapability_env:
  "getNode a (detachCapabilityFromDevice h C d c z) = None \<longleftrightarrow> getNode a z = None"
  "nodeTx (env (detachCapabilityFromDevice h C d c z)) = nodeTx (env z)"
  "events (env (detachCapabilityFromDevice h C d c z)) =
     (if Option.bind (getDevice d z) (\<lambda>dev. map_of (capabilities dev) (c_Capability C c)) = None
      then events (env z) else events (env z) @ [EvCapabilityRemoved d (c_Capability C c)])"
  by (simp_all add: detachCapabilityFromDevice_def Let_def split: option.split)

lemma gateway_ok_detach [gateway_intros]:
  assumes "gateway_ok h C z" "\<exists>n. map_of Mapping n = Some (c_Capability C c)"
  shows "gateway_ok h C (detachCapabilityFromDevice h C d c z)"
proof -
  have "c_Capability C c \<noteq> EnumerateDeviceFlag" "c_Capability C c \<noteq> DeviceRemovalFlag"
    using assms(2) Mapping_flags by auto
  then have "announced (detachCapabilityFromDevice h C d c z)"
    using gateway_okD(2) [OF assms(1)]
    by (auto simp: announced_def tableView_def fun_eq_iff set_deviceCapabilities detachCapability_env
        map_of_eq_None_keys split: option.splits bind_splits)
  moreover have "sequences_full (detachCapabilityFromDevice h C d c z)"
    using gateway_okD(3) [OF assms(1)] by (subst sequences_full_cong [of _ z]) (simp_all add: detachCapability_env)
  ultimately show ?thesis
    using mirrors_detach [OF gateway_okD(1) [OF assms(1)]] by (simp add: gateway_ok_def)
qed

lemma gateway_ok_callDetach:
  assumes "gateway_ok h C z" "getDevice d z = Some dev" "map_of (capabilities dev) cf = Some impl"
    and "callDetach C t d cf impl z = (err, impl', z')"
  shows "gateway_ok h C z'"
proof -
  note call = mirrors_callDetach [OF gateway_okD(1) [OF assms(1)] assms(2-4)]
  from assms(4) obtain e where "c_Detach C t impl (env z) = (err, impl', e)" "env z' = e"
    by (auto simp: callDetach_def split: prod.splits)
  then have eff: "cap_effect (persist h) (c_Section C impl) (env z) (env z')" using detach_env by blast
  have "tableView z' = tableView z"
  proof
    fix d'
    show "tableView z' d' = tableView z d'"
      using call(3,4) assms(2,3) map_of_SomeD_keys [OF assms(3)]
      by (cases "d' = d") (auto simp: tableView_def set_deviceCapabilities)
  qed
  then have "announced z'" using announced_effect [OF eff] gateway_okD(2) [OF assms(1)] by blast
  moreover have "sequences_full z'"
    using sequences_full_effect [OF eff call(5)] gateway_okD(3) [OF assms(1)] by blast
  ultimately show ?thesis using call(1) by (simp add: gateway_ok_def)
qed

text \<open>Removing a device: its capabilities are detached first, one by one.\<close>

lemma detachAll_ok:
  assumes "gateway_ok h C z" "getDevice d z = Some dev"
  shows "gateway_ok h C (detachAll h C d cfs z) \<and>
    (\<exists>dev'. getDevice d (detachAll h C d cfs z) = Some dev' \<and>
       keys (capabilities dev') = keys (capabilities dev) - set (cfs)) \<and>
    (\<forall>d'. d' \<noteq> d \<longrightarrow> getDevice d' (detachAll h C d cfs z) = getDevice d' z) \<and>
    (\<forall>a. (getNode a (detachAll h C d cfs z) = None) = (getNode a z = None))"
  using assms
proof (induction cfs arbitrary: z dev)
  case (Cons cf cfs)
  show ?case
  proof (cases "map_of (capabilities dev) cf")
    case None
    then have "keys (capabilities dev) - set (cf # cfs) = keys (capabilities dev) - set cfs"
      using map_of_eq_None_keys [of "capabilities dev" cf] by auto
    moreover have "detachAll h C d (cf # cfs) z = detachAll h C d cfs z"
      using None Cons.prems(2) by simp
    ultimately show ?thesis
      using Cons.IH [OF Cons.prems] by (simp del: detachAll.simps set_simps)
  next
    case (Some impl)
    obtain err impl' z1 where call: "callDetach C DeviceRemoved d cf impl z = (err, impl', z1)"
      by (cases "callDetach C DeviceRemoved d cf impl z")
    note one = mirrors_callDetach [OF gateway_okD(1) [OF Cons.prems(1)] Cons.prems(2) Some call]
    have cap: "capability_ok h C d (store (env z)) cf impl"
      using mirrorsD(6) [OF gateway_okD(1) [OF Cons.prems(1)] Cons.prems(2)] Some by (simp add: device_ok_def)
    let ?z2 = "detachCapabilityFromDevice h C d impl' z1"
    let ?dev = "dev\<lparr>capabilities := AList.delete cf (AList.update cf impl' (capabilities dev))\<rparr>"
    have cf: "c_Capability C impl' = cf" using one(2) cap by (simp add: capability_ok_def)
    have dev2: "getDevice d ?z2 = Some ?dev" using one(3) cf by simp
    have "map_of Mapping (c_ImplName C impl) = Some (c_Capability C impl')"
      using cap cf by (simp add: capability_ok_def)
    then have ok2: "gateway_ok h C ?z2"
      by (intro exI gateway_ok_detach [OF gateway_ok_callDetach [OF Cons.prems Some call]])
    have step: "detachAll h C d (cf # cfs) z = detachAll h C d cfs ?z2"
      using Some Cons.prems(2) call by simp
    have "insert cf K - {cf} - B = K - insert cf B" for K B by blast
    then have keys: "keys (capabilities ?dev) - set cfs = keys (capabilities dev) - set (cf # cfs)"
      by simp
    note IH = Cons.IH [OF ok2 dev2]
    then obtain dev' where dev': "getDevice d (detachAll h C d cfs ?z2) = Some dev'"
      "keys (capabilities dev') = keys (capabilities dev) - set (cf # cfs)" unfolding keys by blast
    have others: "getDevice d' (detachAll h C d cfs ?z2) = getDevice d' z" if "d' \<noteq> d" for d'
    proof -
      have "getDevice d' (detachAll h C d cfs ?z2) = getDevice d' ?z2" using IH that by blast
      also have "\<dots> = getDevice d' z" using one(4) that by simp
      finally show ?thesis .
    qed
    have nodes: "(getNode a (detachAll h C d cfs ?z2) = None) = (getNode a z = None)" for a
    proof -
      have "(getNode a (detachAll h C d cfs ?z2) = None) = (getNode a ?z2 = None)" using IH by simp
      also have "\<dots> = (getNode a z = None)" by (simp only: detachCapability_env(1) one(5))
      finally show ?thesis .
    qed
    show ?thesis
      unfolding step
    proof (intro conjI allI impI exI [of _ dev'] dev' others nodes)
      show "gateway_ok h C (detachAll h C d cfs ?z2)" using IH by blast
    qed
  qed
qed auto

lemma removeDevice_ok:
  assumes "gateway_ok h C z" "getDevice d z = Some dev"
  shows "fst (removeDevice h C d z)" "gateway_ok h C (snd (removeDevice h C d z))"
    "getDevice d' (snd (removeDevice h C d z)) = (if d' = d then None else getDevice d' z)"
    "(getNode a (snd (removeDevice h C d z)) = None) = (getNode a z = None)"
proof -
  let ?z1 = "detachAll h C d (map fst (capabilities dev)) z"
  let ?z4 = "zSendEvent (EvDeviceRemoved d) (zSendEvent (EvCapabilityRemoved d DeviceRemovalFlag)
      (zSendEvent (EvCapabilityRemoved d EnumerateDeviceFlag) ?z1))"
  let ?z = "snd (removeDevice h C d z)"
  note all = detachAll_ok [OF assms, of "map fst (capabilities dev)"]
  then obtain dev' where dev': "getDevice d ?z1 = Some dev'" by auto
  have z: "?z = onStore (\<lambda>s. snd (sectionRemoveDevice h d s))
      (updNode (IEEEAddress d) (\<lambda>n. n\<lparr>device := AList.delete (SubIdentifier d) (device n)\<rparr>) ?z4)"
    using assms(2) by (simp add: removeDevice_def Let_def)
  have mir: "mirrors h C ?z"
    unfolding z using all dev' by (intro mirrors_deleteDevice mirrors_sendEvent) (auto dest: gateway_okD)
  have dev: "getDevice d' ?z = (if d' = d then None else getDevice d' z)" for d'
  proof -
    have "getDevice d' ?z = (if d' = d then None else getDevice d' ?z1)"
      using dev' unfolding z
      by (auto simp: getDevice_def getNode_updNode address_eq_iff split: option.splits)
    with all show ?thesis by simp
  qed
  have node: "(getNode a ?z = None) = (getNode a z = None)" for a
    using all unfolding z by (simp add: getNode_updNode)
  have "announced ?z"
  proof -
    have "replay (events (env ?z1)) = tableView ?z1" using all by (auto dest!: gateway_okD(2) simp: announced_def)
    then have "replay (events (env ?z)) = (tableView ?z1)(d := None)"
      unfolding z by (simp add: fun_eq_iff)
    also have "\<dots> = tableView ?z"
      using all dev by (auto simp: tableView_def fun_eq_iff)
    finally show ?thesis by (simp add: announced_def)
  qed
  moreover have "sequences_full ?z"
  proof -
    have "sequences_full ?z1" using all by (auto dest: gateway_okD)
    then show ?thesis using node all by (subst sequences_full_cong [of _ ?z1]) (simp_all, simp add: z)
  qed
  ultimately show "gateway_ok h C ?z" using mir by (simp add: gateway_ok_def)
  show "fst (removeDevice h C d z)" using assms(2) by (simp add: removeDevice_def Let_def)
  show "getDevice d' ?z = (if d' = d then None else getDevice d' z)" by (rule dev)
  show "(getNode a ?z = None) = (getNode a z = None)" by (rule node)
qed

lemma removeDevice_absent: "getDevice d z = None \<Longrightarrow> removeDevice h C d z = (False, z)"
  by (simp add: removeDevice_def)

lemma gateway_ok_removeDevice [gateway_intros]:
  "gateway_ok h C z \<Longrightarrow> gateway_ok h C (snd (removeDevice h C d z))"
  by (cases "getDevice d z") (simp_all add: removeDevice_absent removeDevice_ok)

text \<open>A node is removed once its devices are gone.\<close>

lemma gateway_ok_removeNode [gateway_intros]:
  assumes "gateway_ok h C z" "\<And>d. IEEEAddress d = a \<Longrightarrow> getDevice d z = None"
  shows "gateway_ok h C (snd (removeNode h a z))"
proof (cases "map_of (node z) a")
  case None
  with assms show ?thesis by (simp add: removeNode_def)
next
  case (Some n)
  let ?z = "snd (removeNode h a z)"
  have node: "getNode b ?z = (if b = a then None else getNode b z)" for b
    using Some by (simp add: removeNode_def getNode_def)
  have "getDevice d ?z = getDevice d z" for d
    using assms(2) [of d] by (cases "IEEEAddress d = a") (simp_all add: getDevice_def node)
  then have "tableView ?z = tableView z" by (rule tableView_cong)
  moreover have "events (env ?z) = events (env z)" "nodeTx (env ?z) = nodeTx (env z)"
    using Some by (simp_all add: removeNode_def)
  ultimately have "announced ?z" "sequences_full ?z"
    using gateway_okD(2,3) [OF assms(1)] unfolding announced_def sequences_full_def node by simp_all
  then show ?thesis
    using mirrors_removeNode [OF gateway_okD(1) [OF assms(1)]] by (simp add: gateway_ok_def)
qed

end

end
