(* ===== verification/Enumerate.thy ===== *)
theory Enumerate
  imports Table_Events Zigbee_Interface
begin

text \<open>
  \<open>enumerate_device.go\<close>: interrogating a node, running the rules on its inventory, bringing
  the table of devices in line with it, and attaching the capabilities the rules ask for.
\<close>

section \<open>Interrogating a node\<close>

text \<open>One attempt of each query. The read of the Basic cluster takes a transaction sequence
  number each time it is attempted.\<close>

definition readBasic ::
  "('s, 'x) network \<Rightarrow> zclConstants \<Rightarrow> IEEEAddress \<Rightarrow> Endpoint \<Rightarrow> (ReadAttributeResponseRecord list, 's, 'x) attempt" where
  "readBasic N Z a ep e =
     (case takeSequence a e of
        (seq, e') \<Rightarrow>
          onWorld (ReadAttributes N
            \<lparr>readAddress = a, readAck = False, readCluster = BasicId Z,
             readSource = DefaultGatewayHomeAutomationEndpoint, readDestination = ep,
             readSequence = seq,
             readAttributes = [ManufacturerName Z, ModelIdentifier Z, ManufacturerVersionDetails Z,
               SerialNumber Z]\<rparr>) e')"

text \<open>The loop over the response. \<open>r.DataTypeValue.Value.(string)\<close> panics when the value is
  missing or not a string.\<close>

definition setProductData :: "zclConstants \<Rightarrow> AttributeID \<Rightarrow> string \<Rightarrow> productData \<Rightarrow> productData" where
  "setProductData Z i v p =
     (if i = ManufacturerName Z then p\<lparr>manufacturer := v\<rparr>
      else if i = ModelIdentifier Z then p\<lparr>product := v\<rparr>
      else if i = ManufacturerVersionDetails Z then p\<lparr>version := v\<rparr>
      else if i = SerialNumber Z then p\<lparr>serial := v\<rparr>
      else p)"

fun readProductData ::
  "zclConstants \<Rightarrow> ReadAttributeResponseRecord list \<Rightarrow> productData \<Rightarrow> productData outcome" where
  "readProductData Z [] p = Returns p"
| "readProductData Z (r # resp) p =
     (if RecordStatus r \<noteq> 0 then readProductData Z resp p
      else
        (case DataTypeValue r of
           None \<Rightarrow> Panics
         | Some dv \<Rightarrow>
             (case Value dv of
                ZString v \<Rightarrow> readProductData Z resp (setProductData Z (Identifier r) v p)
              | _ \<Rightarrow> Panics)))"

fun queryEndpoints ::
  "('s, 'x) network \<Rightarrow> IEEEAddress \<Rightarrow> Endpoint list \<Rightarrow> (Endpoint, endpointDetails) gomap
    \<Rightarrow> ((Endpoint, endpointDetails) gomap, 's, 'x) attempt" where
  "queryEndpoints N a [] m e = (Inr m, e)"
| "queryEndpoints N a (ep # eps) m e =
     (case retryEndpointDescription N (onWorld (QueryNodeEndpointDescription N a ep)) e of
        (Inl err, e1) \<Rightarrow> (Inl err, e1)
      | (Inr ed, e1) \<Rightarrow>
          queryEndpoints N a eps
            (AList.update ep \<lparr>description = ed, productInformation = noProductData,
               rulesOutput = \<lparr>OutputCapabilities = []\<rparr>\<rparr> m) e1)"

text \<open>The loop over the endpoints found; \<open>todo\<close> is what the range still has to visit.\<close>

fun queryProducts ::
  "('s, 'x) network \<Rightarrow> zclConstants \<Rightarrow> IEEEAddress \<Rightarrow> (Endpoint, endpointDetails) gomap
    \<Rightarrow> (Endpoint, endpointDetails) gomap \<Rightarrow> ('s, 'x) env
    \<Rightarrow> (Endpoint, endpointDetails) gomap outcome \<times> ('s, 'x) env" where
  "queryProducts N Z a [] m e = (Returns m, e)"
| "queryProducts N Z a ((ep, desc) # todo) m e =
     (if BasicId Z \<in> set (InClusterList (description desc)) then
        (case retryReadAttributes N (readBasic N Z a ep) e of
           (Inl err, e1) \<Rightarrow> queryProducts N Z a todo m e1
         | (Inr resp, e1) \<Rightarrow>
             (case readProductData Z resp (productInformation desc) of
                Panics \<Rightarrow> (Panics, e1)
              | Returns p \<Rightarrow>
                  queryProducts N Z a todo (AList.update ep (desc\<lparr>productInformation := p\<rparr>) m) e1))
      else queryProducts N Z a todo m e)"

definition interrogateNode ::
  "('s, 'x) network \<Rightarrow> zclConstants \<Rightarrow> IEEEAddress \<Rightarrow> ('s, 'x) env
    \<Rightarrow> (goerr + inventory) outcome \<times> ('s, 'x) env" where
  "interrogateNode N Z a e =
     (case retryNodeDescription N (onWorld (QueryNodeDescription N a)) e of
        (Inl err, e1) \<Rightarrow> (Returns (Inl err), e1)
      | (Inr nd, e1) \<Rightarrow>
          (case retryEndpoints N (onWorld (QueryNodeEndpoints N a)) e1 of
             (Inl err, e2) \<Rightarrow> (Returns (Inl err), e2)
           | (Inr eps, e2) \<Rightarrow>
               (case queryEndpoints N a eps [] e2 of
                  (Inl err, e3) \<Rightarrow> (Returns (Inl err), e3)
                | (Inr m, e3) \<Rightarrow>
                    (case queryProducts N Z a m m e3 of
                       (Panics, e4) \<Rightarrow> (Panics, e4)
                     | (Returns m', e4) \<Rightarrow>
                         (Returns (Inr \<lparr>nodeDescription = nd, endpoints = m'\<rparr>), e4)))))"

section \<open>Running the rules\<close>

definition runRules ::
  "(LogicalType \<Rightarrow> string) \<Rightarrow> (Input \<Rightarrow> 'e + Output) \<Rightarrow> inventory \<Rightarrow> 'e + inventory" where
  "runRules typeString runRulesFn inven =
     (let input = toRulesInput typeString inven in
      case mapM_kv (\<lambda>i ep.
             case runRulesFn (input\<lparr>Self := uint i\<rparr>) of
               Inl err \<Rightarrow> Inl err
             | Inr out \<Rightarrow> Inr (ep\<lparr>rulesOutput := out\<rparr>)) (endpoints inven) of
        Inl err \<Rightarrow> Inl err
      | Inr eps \<Rightarrow> Inr (inven\<lparr>endpoints := eps\<rparr>))"

section \<open>Grouping the inventory\<close>

record inventoryDevice =
  uniqueId :: int
  invEndpoints :: "endpointDetails list"

text \<open>The map the first loop fills, and the devices in the order of the sorted keys.\<close>

definition inventoryMap :: "inventory \<Rightarrow> (int, inventoryDevice) gomap" where
  "inventoryMap inven =
     map (\<lambda>(eid, ep). (uint eid, \<lparr>uniqueId = uint eid, invEndpoints = [ep]\<rparr>)) (endpoints inven)"

definition groupInventoryDevices :: "inventory \<Rightarrow> inventoryDevice list" where
  "groupInventoryDevices inven =
     map (\<lambda>ep. the (map_of (inventoryMap inven) ep)) (sort (map fst (inventoryMap inven)))"

section \<open>The table of the node\<close>

text \<open>The devices of a node, in the order a range over its map visits them.\<close>

definition devicesOf :: "IEEEAddress \<Rightarrow> ('c, 's, 'x) ZDA \<Rightarrow> (8 word \<times> 'c device) list" where
  "devicesOf a z = (case getNode a z of None \<Rightarrow> [] | Some n \<Rightarrow> device n)"

definition findUnset :: "IEEEAddress \<Rightarrow> ('c, 's, 'x) ZDA \<Rightarrow> address list" where
  "findUnset a z = map (\<lambda>(i, d). addressOf a i) (filter (\<lambda>(i, d). \<not> deviceIdSet d) (devicesOf a z))"

definition findExisting ::
  "IEEEAddress \<Rightarrow> ('c, 's, 'x) ZDA \<Rightarrow> inventoryDevice list \<Rightarrow> (int, address) gomap" where
  "findExisting a z inventoryDevices =
     fold (\<lambda>i m.
       case find (\<lambda>(_, d). deviceId d = uniqueId i) (devicesOf a z) of
         None \<Rightarrow> m
       | Some (sub, _) \<Rightarrow> AList.update (uniqueId i) (addressOf a sub) m) inventoryDevices []"

fun createMissing ::
  "'s host \<Rightarrow> IEEEAddress \<Rightarrow> inventoryDevice list \<Rightarrow> address list \<Rightarrow> (int, address) gomap
    \<Rightarrow> ('c, 's, 'x) ZDA \<Rightarrow> (int, address) gomap \<times> ('c, 's, 'x) ZDA" where
  "createMissing h a [] unset m z = (m, z)"
| "createMissing h a (i # is) unset m z =
     (if map_of m (uniqueId i) \<noteq> None then createMissing h a is unset m z
      else
        (case (case unset of d # unset' \<Rightarrow> (d, unset', z)
               | [] \<Rightarrow> (case createNextDevice h a z of (d, z1) \<Rightarrow> (d, [], z1))) of
           (d, unset', z1) \<Rightarrow>
             createMissing h a is unset' (AList.update (uniqueId i) d m)
               (setDeviceUniqueId h d (uniqueId i) z1)))"

definition devicesToRemove ::
  "IEEEAddress \<Rightarrow> (int, address) gomap \<Rightarrow> ('c, 's, 'x) ZDA \<Rightarrow> address list" where
  "devicesToRemove a m z =
     map (\<lambda>(i, d). addressOf a i) (filter (\<lambda>(i, d). map_of m (deviceId d) = None) (devicesOf a z))"

definition removeDevices ::
  "'s host \<Rightarrow> ('c, 's, 'x) zdaCapability \<Rightarrow> address list \<Rightarrow> ('c, 's, 'x) ZDA \<Rightarrow> ('c, 's, 'x) ZDA" where
  "removeDevices h C ds z = fold (\<lambda>d z. snd (removeDevice h C d z)) ds z"

definition updateNodeTable ::
  "'s host \<Rightarrow> ('c, 's, 'x) zdaCapability \<Rightarrow> IEEEAddress \<Rightarrow> inventoryDevice list \<Rightarrow> ('c, 's, 'x) ZDA
    \<Rightarrow> (int, address) gomap \<times> ('c, 's, 'x) ZDA" where
  "updateNodeTable h C a inventoryDevices z =
     (case createMissing h a inventoryDevices (findUnset a z) (findExisting a z inventoryDevices) z of
        (m, z1) \<Rightarrow> (m, removeDevices h C (devicesToRemove a m z1) z1))"

section \<open>The capabilities of a device\<close>

definition deviceCaps :: "address \<Rightarrow> ('c, 's, 'x) ZDA \<Rightarrow> (Capability, 'c) gomap" where
  "deviceCaps d z = (case getDevice d z of None \<Rightarrow> [] | Some dev \<Rightarrow> capabilities dev)"

text \<open>A new implementation: made by the factory, its name stored, and given its section.\<close>

definition newImplementation ::
  "'s host \<Rightarrow> ('c, 's, 'x) zdaCapability \<Rightarrow> address \<Rightarrow> string \<Rightarrow> Capability \<Rightarrow> ('c, 's, 'x) ZDA
    \<Rightarrow> 'c option \<times> ('c, 's, 'x) ZDA" where
  "newImplementation h C d capImplName cF z =
     (case c_Create C capImplName (env z) of
        (None, e) \<Rightarrow> (None, z\<lparr>env := e\<rparr>)
      | (Some c, e) \<Rightarrow>
          (let p = capabilityPath h d cF;
               s1 = p_section (persist h) p (sectionForDevice h d (store e));
               s2 = p_set (persist h) p ''Implementation'' (PString capImplName) s1;
               s3 = p_section (persist h) (p @ [''Data'']) s2
           in case c_Init C d (p @ [''Data'']) c (e\<lparr>store := s3\<rparr>) of
                (c', e') \<Rightarrow> (Some c', z\<lparr>env := e'\<rparr>)))"

text \<open>Writing back what a call changed in an implementation the table holds.\<close>

definition writeBack :: "address \<Rightarrow> Capability \<Rightarrow> 'c \<Rightarrow> ('c, 's, 'x) ZDA \<Rightarrow> ('c, 's, 'x) ZDA" where
  "writeBack d cF c = updDevice d (\<lambda>dev. dev\<lparr>capabilities := AList.update cF c (capabilities dev)\<rparr>)"

text \<open>The call of \<open>Enumerate\<close> and what follows it. \<open>found\<close>: the implementation is the one in
  the table. A panic is recovered, and the function then returns its zero values.\<close>

definition callEnumerate ::
  "'s host \<Rightarrow> ('c, 's, 'x) zdaCapability \<Rightarrow> address \<Rightarrow> string \<Rightarrow> Capability \<Rightarrow> Settings
    \<Rightarrow> bool \<Rightarrow> 'c \<Rightarrow> goerr list \<Rightarrow> ('c, 's, 'x) ZDA \<Rightarrow> (bool \<times> goerr list) \<times> ('c, 's, 'x) ZDA" where
  "callEnumerate h C d capImplName cF settings found c errs z =
     (case c_Enumerate C settings c (env z) of
        (r, c1, e1) \<Rightarrow>
          (let z1 = (if found then writeBack d cF c1 else id) (z\<lparr>env := e1\<rparr>) in
           case r of
             Panics \<Rightarrow> ((False, []), z1)
           | Returns (attached, err) \<Rightarrow>
               (let errs1 = (case err of None \<Rightarrow> errs
                               | Some x \<Rightarrow> errs @ [Errorf (''error while attaching: '' @ capImplName) x])
                in if \<not> attached then
                     (case c_Detach C FailedAttach c1 (env z1) of
                        (derr, c2, e2) \<Rightarrow>
                          (let z2 = (if found then writeBack d cF c2 else id) (z1\<lparr>env := e2\<rparr>);
                               errs2 = (case derr of None \<Rightarrow> errs1
                                 | Some x \<Rightarrow> errs1 @
                                     [Errorf (''failed to detach failed attach on capabiltiy: '' @ capImplName) x])
                           in ((False, errs2), detachCapabilityFromDevice h C d c2 z2)))
                   else ((True, errs1), attachCapabilityToDevice h C d c1 z1))))"

definition enumerateCapabilityOnDevice ::
  "'s host \<Rightarrow> ('c, 's, 'x) zdaCapability \<Rightarrow> address \<Rightarrow> string \<Rightarrow> Capability \<Rightarrow> Capability list \<Rightarrow> Settings
    \<Rightarrow> ('c, 's, 'x) ZDA \<Rightarrow> (bool \<times> goerr list) \<times> ('c, 's, 'x) ZDA" where
  "enumerateCapabilityOnDevice h C d capImplName cF activeCapabilities settings z =
     (if cF \<in> set activeCapabilities then
        ((False, [Err (''multiple implementations of same category, last attempted: '' @ capImplName)]), z)
      else
        (case map_of (deviceCaps d z) cF of
           Some c \<Rightarrow>
             if c_ImplName C c = capImplName then
               callEnumerate h C d capImplName cF settings True c [] z
             else
               (case callDetach C NoLongerEnumerated d cF c z of
                  (err, c', z1) \<Rightarrow>
                    (let errs = (case err of None \<Rightarrow> []
                                   | Some x \<Rightarrow> [Errorf ''failed to detach conflicting capabiltiy'' x]);
                         z2 = detachCapabilityFromDevice h C d c' z1
                     in case newImplementation h C d capImplName cF z2 of
                          (None, z3) \<Rightarrow>
                            ((False, [Err (''failed to find concrete implementation: '' @ capImplName)]), z3)
                        | (Some c2, z3) \<Rightarrow>
                            callEnumerate h C d capImplName cF settings False c2 errs z3))
         | None \<Rightarrow>
             (case newImplementation h C d capImplName cF z of
                (None, z3) \<Rightarrow>
                  ((False, [Err (''failed to find concrete implementation: '' @ capImplName)]), z3)
              | (Some c2, z3) \<Rightarrow> callEnumerate h C d capImplName cF settings False c2 [] z3)))"

text \<open>The results of an enumeration: \<open>errs[cf]\<close> is a pointer the code creates when missing.\<close>

type_synonym enumerationResults = "(Capability, EnumerationCapability) gomap"

definition noResult :: EnumerationCapability where
  "noResult = \<lparr>Attached = False, Errors = []\<rparr>"

definition addErrors :: "Capability \<Rightarrow> goerr list \<Rightarrow> enumerationResults \<Rightarrow> enumerationResults" where
  "addErrors cf es r =
     (case map_of r cf of
        None \<Rightarrow> r
      | Some c \<Rightarrow> AList.update cf (c\<lparr>Errors := Errors c @ es\<rparr>) r)"

definition setAttached :: "Capability \<Rightarrow> bool \<Rightarrow> enumerationResults \<Rightarrow> enumerationResults" where
  "setAttached cf b r =
     (case map_of r cf of
        None \<Rightarrow> r
      | Some c \<Rightarrow> AList.update cf (c\<lparr>Attached := b\<rparr>) r)"

text \<open>The loop over the capabilities the rules put out for one endpoint.\<close>

type_synonym ('c, 's, 'x) capLoop = "enumerationResults \<times> Capability list \<times> ('c, 's, 'x) ZDA"

fun offerCapability ::
  "'s host \<Rightarrow> ('c, 's, 'x) zdaCapability \<Rightarrow> address \<Rightarrow> string \<times> Settings
    \<Rightarrow> ('c, 's, 'x) capLoop \<Rightarrow> ('c, 's, 'x) capLoop" where
  "offerCapability h C d (capImplName, settings) (errs, activeCapabilities, z) =
     (case map_of Mapping capImplName of
        None \<Rightarrow>
          (addErrors EnumerateDeviceFlag
             [Err (''could not find capability in rule output: '' @ capImplName)] errs,
           activeCapabilities, z)
      | Some cF \<Rightarrow>
          (let errs1 = (if map_of errs cF = None then AList.update cF noResult errs else errs) in
           case enumerateCapabilityOnDevice h C d capImplName cF activeCapabilities settings z of
             ((attached, es), z1) \<Rightarrow>
               (setAttached cF attached (addErrors cF es errs1),
                (if attached then activeCapabilities @ [cF] else activeCapabilities), z1)))"

definition enumerateCapabilities ::
  "'s host \<Rightarrow> ('c, 's, 'x) zdaCapability \<Rightarrow> address \<Rightarrow> (string, Settings) gomap
    \<Rightarrow> ('c, 's, 'x) capLoop \<Rightarrow> ('c, 's, 'x) capLoop" where
  "enumerateCapabilities h C d m st = fold (offerCapability h C d) m st"

text \<open>The loop that detaches what no endpoint asked for; an entry deleted before the loop
  reaches it is not visited.\<close>

fun detachRedundant ::
  "'s host \<Rightarrow> ('c, 's, 'x) zdaCapability \<Rightarrow> address \<Rightarrow> Capability list \<Rightarrow> Capability list
    \<Rightarrow> enumerationResults \<times> ('c, 's, 'x) ZDA \<Rightarrow> enumerationResults \<times> ('c, 's, 'x) ZDA" where
  "detachRedundant h C d activeCapabilities [] (errs, z) = (errs, z)"
| "detachRedundant h C d activeCapabilities (cf # cfs) (errs, z) =
     (case map_of (deviceCaps d z) cf of
        None \<Rightarrow> detachRedundant h C d activeCapabilities cfs (errs, z)
      | Some impl \<Rightarrow>
          if cf \<in> set activeCapabilities then
            detachRedundant h C d activeCapabilities cfs (errs, z)
          else
            (case callDetach C NoLongerEnumerated d cf impl z of
               (err, impl', z1) \<Rightarrow>
                 detachRedundant h C d activeCapabilities cfs
                   (addErrors cf (case err of None \<Rightarrow> []
                        | Some x \<Rightarrow> [Errorf ''failed to detach redundant capabiltiy'' x])
                      (AList.update cf noResult errs),
                    detachCapabilityFromDevice h C d impl' z1)))"

definition updateCapabilitiesOnDevice ::
  "'s host \<Rightarrow> ('c, 's, 'x) zdaCapability \<Rightarrow> address \<Rightarrow> inventoryDevice \<Rightarrow> ('c, 's, 'x) ZDA
    \<Rightarrow> enumerationResults \<times> ('c, 's, 'x) ZDA" where
  "updateCapabilitiesOnDevice h C d i z =
     (case fold (\<lambda>ep. enumerateCapabilities h C d (OutputCapabilities (rulesOutput ep))) (invEndpoints i)
             ([(EnumerateDeviceFlag, \<lparr>Attached = True, Errors = []\<rparr>)], [], z) of
        (errs, activeCapabilities, z1) \<Rightarrow>
          detachRedundant h C d activeCapabilities (map fst (deviceCaps d z1)) (errs, z1))"

section \<open>Enumerating a node\<close>

definition Status :: "bool \<Rightarrow> 'c device \<Rightarrow> EnumerationStatus" where
  "Status enumerating d = \<lparr>Enumerating = enumerating, CapabilityStatus = results d\<rparr>"

text \<open>\<open>startEnumeration\<close>: \<open>TryAcquire\<close> of the node's semaphore, then a goroutine runs
  \<open>enumerate\<close>. The result is the error; without one the goroutine has been started.\<close>

definition startEnumeration :: "IEEEAddress \<Rightarrow> ('c, 's, 'x) ZDA \<Rightarrow> goerr option \<times> ('c, 's, 'x) ZDA" where
  "startEnumeration a z =
     (case getNode a z of
        None \<Rightarrow> (Some (Err ''enumeration already in progress''), z)
      | Some n \<Rightarrow>
          if enumerationSem n then (Some (Err ''enumeration already in progress''), z)
          else (None, updNode a (\<lambda>n. n\<lparr>enumerationSem := True\<rparr>) z))"

text \<open>\<open>onNodeJoin\<close> only logs the error.\<close>

definition onNodeJoin :: "IEEEAddress \<Rightarrow> ('c, 's, 'x) ZDA \<Rightarrow> goerr option \<times> ('c, 's, 'x) ZDA" where
  "onNodeJoin a z = (None, snd (startEnumeration a z))"

text \<open>The loop that attaches the capabilities of each device of the inventory and keeps the
  results in the device's attachment.\<close>

definition setResults :: "address \<Rightarrow> enumerationResults \<Rightarrow> ('c, 's, 'x) ZDA \<Rightarrow> ('c, 's, 'x) ZDA" where
  "setResults d errs = updDevice d (\<lambda>dev. dev\<lparr>results := errs\<rparr>)"

fun updateDevices ::
  "'s host \<Rightarrow> ('c, 's, 'x) zdaCapability \<Rightarrow> (int, address) gomap \<Rightarrow> inventoryDevice list
    \<Rightarrow> ('c, 's, 'x) ZDA \<Rightarrow> ('c, 's, 'x) ZDA" where
  "updateDevices h C did [] z = z"
| "updateDevices h C did (i # is) z =
     (case map_of did (uniqueId i) of
        None \<Rightarrow> updateDevices h C did is z
      | Some d \<Rightarrow>
          (case updateCapabilitiesOnDevice h C d i z of
             (errs, z1) \<Rightarrow> updateDevices h C did is (setResults d errs z1)))"

definition sendStarts :: "IEEEAddress \<Rightarrow> ('c, 's, 'x) ZDA \<Rightarrow> ('c, 's, 'x) ZDA" where
  "sendStarts a z =
     fold (\<lambda>(i, _). zSendEvent (EvEnumerateDeviceStart (addressOf a i))) (devicesOf a z) z"

definition sendStops :: "IEEEAddress \<Rightarrow> ('c, 's, 'x) ZDA \<Rightarrow> ('c, 's, 'x) ZDA" where
  "sendStops a z =
     fold (\<lambda>(i, d). zSendEvent (EvEnumerateDeviceStopped (addressOf a i) (Status False d)))
       (devicesOf a z) z"

text \<open>The body between the start events and the deferred function.\<close>

definition enumerateBody ::
  "'s host \<Rightarrow> ('c, 's, 'x) zdaCapability \<Rightarrow> ('s, 'x) network \<Rightarrow> zclConstants \<Rightarrow> (Input \<Rightarrow> 'e + Output)
    \<Rightarrow> IEEEAddress \<Rightarrow> ('c, 's, 'x) ZDA \<Rightarrow> ('c, 's, 'x) ZDA outcome" where
  "enumerateBody h C N Z runRulesFn a z =
     (case interrogateNode N Z a (env z) of
        (Panics, e) \<Rightarrow> Panics
      | (Returns (Inl err), e) \<Rightarrow> Returns (z\<lparr>env := e\<rparr>)
      | (Returns (Inr inven), e) \<Rightarrow>
          (case runRules (LogicalTypeString N) runRulesFn inven of
             Inl err \<Rightarrow> Returns (z\<lparr>env := e\<rparr>)
           | Inr inven' \<Rightarrow>
               (let inventoryDevices = groupInventoryDevices inven' in
                case updateNodeTable h C a inventoryDevices (z\<lparr>env := e\<rparr>) of
                  (did, z1) \<Rightarrow> Returns (updateDevices h C did inventoryDevices z1))))"

text \<open>\<open>enumerate\<close>. A panic that is not recovered ends the process.\<close>

definition enumerate ::
  "'s host \<Rightarrow> ('c, 's, 'x) zdaCapability \<Rightarrow> ('s, 'x) network \<Rightarrow> zclConstants \<Rightarrow> (Input \<Rightarrow> 'e + Output)
    \<Rightarrow> IEEEAddress \<Rightarrow> ('c, 's, 'x) ZDA \<Rightarrow> ('c, 's, 'x) ZDA outcome" where
  "enumerate h C N Z runRulesFn a z =
     (case enumerateBody h C N Z runRulesFn a
             (sendStarts a (updNode a (\<lambda>n. n\<lparr>enumerationState := True\<rparr>) z)) of
        Panics \<Rightarrow> Panics
      | Returns z1 \<Rightarrow>
          Returns (sendStops a
            (updNode a (\<lambda>n. n\<lparr>enumerationState := False, enumerationSem := False\<rparr>) z1)))"

end
