(* ===== verification/Enumerate_Inventory.thy ===== *)
theory Enumerate_Inventory
  imports Enumerate
begin

text \<open>
  What the interrogation of a node, the run of the rules and the grouping of the inventory
  produce.
\<close>

section \<open>Changes the interrogation can make\<close>

lemma nextTransactionSequence_mset:
  "nextTransactionSequence q = Some (x, q') \<Longrightarrow> mset q' = mset q"
  by (cases q) auto

lemma quiet_takeSequence: "quiet e (snd (takeSequence a e))"
  by (auto simp: quiet_def takeSequence_def nextTransactionSequence_mset split: option.split)

lemma quiet_onWorld: "quiet e (snd (onWorld f e))"
  by (simp add: quiet_def onWorld_def split: prod.split)

lemma quiet_readBasic: "quiet e (snd (readBasic N Z a ep e))"
  unfolding readBasic_def
  using quiet_takeSequence [of e a] by (auto split: prod.split intro: quiet_trans quiet_onWorld)

lemma retried_quiet:
  assumes "retried f e r" "\<And>e. quiet e (snd (f e))"
  shows "quiet e (snd r)"
  by (rule retried_invariant [OF assms(1), where I = "quiet e"]) (auto intro: quiet_trans assms(2))

lemma network_okD:
  assumes "network_ok N"
  shows "retried f1 e (retryNodeDescription N f1 e)" "retried f2 e (retryEndpoints N f2 e)"
    "retried f3 e (retryEndpointDescription N f3 e)" "retried f4 e (retryReadAttributes N f4 e)"
  using assms by (simp_all add: network_ok_def retries_def)

lemma quiet_queryEndpoints:
  "network_ok N \<Longrightarrow> quiet e (snd (queryEndpoints N a eps m e))"
proof (induction N a eps m e rule: queryEndpoints.induct)
  case (2 N a ep eps m e)
  have "quiet e (snd (retryEndpointDescription N (onWorld (QueryNodeEndpointDescription N a ep)) e))"
    by (rule retried_quiet [OF network_okD(3) [OF 2(2)]]) (rule quiet_onWorld)
  with 2 show ?case by (auto split: prod.split sum.split intro: quiet_trans)
qed simp

lemma quiet_queryProducts:
  "network_ok N \<Longrightarrow> quiet e (snd (queryProducts N Z a todo m e))"
proof (induction N Z a todo m e rule: queryProducts.induct)
  case (2 N Z a ep desc todo m e)
  have "quiet e (snd (retryReadAttributes N (readBasic N Z a ep) e))"
    by (rule retried_quiet [OF network_okD(4) [OF 2(4)]]) (rule quiet_readBasic)
  with 2 show ?case by (auto split: prod.split sum.split outcome.split intro: quiet_trans)
qed simp

lemma quiet_interrogateNode:
  assumes "network_ok N"
  shows "quiet e (snd (interrogateNode N Z a e))"
proof -
  have nd: "quiet e (snd (retryNodeDescription N (onWorld (QueryNodeDescription N a)) e))" for e
    by (rule retried_quiet [OF network_okD(1) [OF assms]]) (rule quiet_onWorld)
  have eps: "quiet e (snd (retryEndpoints N (onWorld (QueryNodeEndpoints N a)) e))" for e
    by (rule retried_quiet [OF network_okD(2) [OF assms]]) (rule quiet_onWorld)
  note steps = nd eps quiet_queryEndpoints [OF assms] quiet_queryProducts [OF assms]
  show ?thesis
    unfolding interrogateNode_def
    by (auto split: prod.split sum.split outcome.split)
       (metis steps quiet_trans snd_conv)+
qed

section \<open>What an inventory holds\<close>

lemma onWorld_success: "onWorld f e = (Inr v, e') \<Longrightarrow> \<exists>x x'. f x = (Inr v, x')"
  by (auto simp: onWorld_def split: prod.splits)

lemma retried_onWorld:
  "retried (onWorld f) e (Inr v, e') \<Longrightarrow> \<exists>x x'. f x = (Inr v, x')"
  by (drule retried_success) (auto dest: onWorld_success)

text \<open>An endpoint as the first loop leaves it, and as the second may change it.\<close>

definition described :: "('s, 'x) network \<Rightarrow> IEEEAddress \<Rightarrow> Endpoint \<Rightarrow> endpointDetails \<Rightarrow> bool" where
  "described N a ep d \<longleftrightarrow> (\<exists>x x'. QueryNodeEndpointDescription N a ep x = (Inr (description d), x'))"

lemma described_update [simp]:
  "described N a ep (d\<lparr>productInformation := p\<rparr>) = described N a ep d"
  by (simp add: described_def)

lemma queryEndpoints_described:
  assumes "network_ok N" "queryEndpoints N a eps m e = (Inr m', e')" "wf_map m"
    and "\<And>ep d. map_of m ep = Some d \<Longrightarrow> described N a ep d \<and> productInformation d = noProductData"
  shows "wf_map m' \<and> keys m' = keys m \<union> set eps \<and>
     (\<forall>ep d. map_of m' ep = Some d \<longrightarrow> described N a ep d \<and> productInformation d = noProductData)"
  using assms
proof (induction N a eps m e arbitrary: m' e' rule: queryEndpoints.induct)
  case (2 N a ep eps m e)
  from 2(3) obtain ed e1 where
    r: "retryEndpointDescription N (onWorld (QueryNodeEndpointDescription N a ep)) e = (Inr ed, e1)"
    by (auto split: prod.splits sum.splits)
  let ?d = "\<lparr>description = ed, productInformation = noProductData, rulesOutput = \<lparr>OutputCapabilities = []\<rparr>\<rparr>"
  have d: "described N a ep ?d"
    using retried_onWorld network_okD(3) [OF 2(2), of "onWorld (QueryNodeEndpointDescription N a ep)" e]
    by (simp add: described_def r)
  have "wf_map m' \<and> keys m' = keys (AList.update ep ?d m) \<union> set eps \<and>
     (\<forall>ep d. map_of m' ep = Some d \<longrightarrow> described N a ep d \<and> productInformation d = noProductData)"
  proof (rule 2(1) [OF r [symmetric] refl])
    show "queryEndpoints N a eps (AList.update ep ?d m) e1 = (Inr m', e')" using 2(3) r by simp
    show "described N a ep' d' \<and> productInformation d' = noProductData"
      if "map_of (AList.update ep ?d m) ep' = Some d'" for ep' d'
      using that d 2(5) by (auto split: if_splits)
  qed (use 2 in simp_all)
  then show ?case by auto
qed auto

lemma queryProducts_described:
  assumes "queryProducts N Z a todo m e = (Returns m', e')" "wf_map m" "wf_map todo"
    and "\<And>ep d. map_of m ep = Some d \<Longrightarrow> described N a ep d \<and>
           (BasicId Z \<notin> set (InClusterList (description d)) \<longrightarrow> productInformation d = noProductData)"
    and "\<And>ep d. map_of todo ep = Some d \<Longrightarrow> ep \<in> keys m \<and> described N a ep d"
  shows "wf_map m' \<and> keys m' = keys m \<and>
     (\<forall>ep d. map_of m' ep = Some d \<longrightarrow> described N a ep d \<and>
        (BasicId Z \<notin> set (InClusterList (description d)) \<longrightarrow> productInformation d = noProductData))"
  using assms
proof (induction N Z a todo m e arbitrary: m' e' rule: queryProducts.induct)
  case (1 N Z a m e)
  then show ?case by simp
next
  case (2 N Z a ep desc todo m e)
  have todo: "map_of todo ep' = Some d' \<Longrightarrow> ep' \<in> keys m \<and> described N a ep' d'" for ep' d'
    using 2(8) [of ep' d'] 2(6) map_of_SomeD_keys [of todo ep' d'] by (cases "ep' = ep") auto
  have ep: "ep \<in> keys m" "described N a ep desc" using 2(8) [of ep desc] by simp_all
  show ?case
  proof (cases "BasicId Z \<in> set (InClusterList (description desc))")
    case False
    with 2(4) have "queryProducts N Z a todo m e = (Returns m', e')" by simp
    then show ?thesis using 2(5,6) 2(7) todo by (intro 2(3) [OF False]) simp_all
  next
    case True
    obtain r e1 where r: "retryReadAttributes N (readBasic N Z a ep) e = (r, e1)"
      by (cases "retryReadAttributes N (readBasic N Z a ep) e")
    show ?thesis
    proof (cases r)
      case (Inl err)
      with 2(4) True r have "queryProducts N Z a todo m e1 = (Returns m', e')" by simp
      then show ?thesis using 2(5,6) 2(7) todo by (intro 2(1) [OF True r [symmetric] Inl]) simp_all
    next
      case (Inr resp)
      with 2(4) True r obtain p where p: "readProductData Z resp (productInformation desc) = Returns p"
        by (auto split: outcome.splits)
      let ?m = "AList.update ep (desc\<lparr>productInformation := p\<rparr>) m"
      have "wf_map m' \<and> keys m' = keys ?m \<and>
         (\<forall>ep d. map_of m' ep = Some d \<longrightarrow> described N a ep d \<and>
            (BasicId Z \<notin> set (InClusterList (description d)) \<longrightarrow> productInformation d = noProductData))"
      proof (rule 2(2) [OF True r [symmetric] Inr p])
        show "queryProducts N Z a todo ?m e1 = (Returns m', e')" using 2(4) True r Inr p by simp
        show "described N a ep' d' \<and>
           (BasicId Z \<notin> set (InClusterList (description d')) \<longrightarrow> productInformation d' = noProductData)"
          if "map_of ?m ep' = Some d'" for ep' d'
          using that 2(7) ep(2) True by (auto split: if_splits)
        show "ep' \<in> keys ?m \<and> described N a ep' d'" if "map_of todo ep' = Some d'" for ep' d'
          using todo [OF that] by simp
      qed (use 2(5,6) in simp_all)
      moreover have "keys ?m = keys m" using ep(1) by auto
      ultimately show ?thesis by simp
    qed
  qed
qed

section \<open>Grouping\<close>

lemma inventoryMap_keys: "map fst (inventoryMap inven) = map (\<lambda>p. uint (fst p)) (endpoints inven)"
  by (simp add: inventoryMap_def case_prod_beta comp_def)

lemma inventoryMap_entry:
  "(k, i) \<in> set (inventoryMap inven) \<longleftrightarrow>
     (\<exists>ep d. k = uint ep \<and> i = \<lparr>uniqueId = uint ep, invEndpoints = [d]\<rparr> \<and> (ep, d) \<in> set (endpoints inven))"
  by (force simp: inventoryMap_def)

lemma wf_inventoryMap: "wf_map (endpoints inven) \<Longrightarrow> wf_map (inventoryMap inven)"
  unfolding wf_map_def inventoryMap_keys
  by (simp add: distinct_map inj_on_def flip: word_uint_eq_iff)

lemma inventoryMap_uniqueId:
  assumes "k \<in> set (map fst (inventoryMap inven))"
  shows "uniqueId (the (map_of (inventoryMap inven) k)) = k"
proof -
  from assms obtain i where "map_of (inventoryMap inven) k = Some i"
    using map_of_eq_None_iff [of "inventoryMap inven" k] by (cases "map_of (inventoryMap inven) k") auto
  then show ?thesis by (auto dest!: map_of_SomeD simp: inventoryMap_entry)
qed

lemma groupInventoryDevices_ids:
  "map uniqueId (groupInventoryDevices inven) = sort (map fst (inventoryMap inven))"
  unfolding groupInventoryDevices_def map_map comp_def
  by (intro map_idI inventoryMap_uniqueId) simp

lemma groupInventoryDevices_distinct:
  "wf_map (endpoints inven) \<Longrightarrow> distinct (map uniqueId (groupInventoryDevices inven))"
  using wf_inventoryMap by (simp add: groupInventoryDevices_ids wf_map_def)

lemma set_groupInventoryDevices:
  assumes "wf_map (endpoints inven)"
  shows "set (groupInventoryDevices inven) = snd ` set (inventoryMap inven)"
proof -
  have "the (map_of (inventoryMap inven) (fst p)) = snd p" if "p \<in> set (inventoryMap inven)" for p
    using wf_map_map_of [OF wf_inventoryMap [OF assms], of "fst p" "snd p"] that by simp
  then have "(\<lambda>p. the (map_of (inventoryMap inven) (fst p))) ` set (inventoryMap inven) =
      snd ` set (inventoryMap inven)" by (intro image_cong refl)
  then show ?thesis by (simp add: groupInventoryDevices_def image_image)
qed

text \<open>An endpoint for the witnesses.\<close>

definition exampleDetails :: endpointDetails where
  "exampleDetails = \<lparr>description = \<lparr>EndpointNumber = 1, ProfileID = 260, DeviceID = 770,
     InClusterList = [0, 1026], OutClusterList = []\<rparr>, productInformation = noProductData,
     rulesOutput = \<lparr>OutputCapabilities = []\<rparr>\<rparr>"

text \<open>An inventory is split into one device per endpoint, identified by the endpoint's
  number, in strictly increasing order of these numbers whatever order Go visits the map in.\<close>

theorem groupInventoryDevices_sorted:
  assumes "wf_map (endpoints inven)"
  shows "sorted_wrt (<) (map uniqueId (groupInventoryDevices inven)) \<and>
         set (groupInventoryDevices inven) =
           (\<lambda>(ep, d). \<lparr>uniqueId = uint ep, invEndpoints = [d]\<rparr>) ` set (endpoints inven)"
proof
  have "sorted (map uniqueId (groupInventoryDevices inven))" by (simp add: groupInventoryDevices_ids)
  with groupInventoryDevices_distinct [OF assms]
  show "sorted_wrt (<) (map uniqueId (groupInventoryDevices inven))" by (simp add: strict_sorted_iff)
  show "set (groupInventoryDevices inven) =
      (\<lambda>(ep, d). \<lparr>uniqueId = uint ep, invEndpoints = [d]\<rparr>) ` set (endpoints inven)"
    by (simp add: set_groupInventoryDevices [OF assms] inventoryMap_def image_image case_prod_beta)
qed

theorem groupInventoryDevices_sorted_witness:
  "sorted_wrt (<) (map uniqueId (groupInventoryDevices
     \<lparr>nodeDescription = \<lparr>LogicalType = Router, ManufacturerCode = 0\<rparr>,
      endpoints = [(242, exampleDetails), (1, exampleDetails)]\<rparr>))"
  (is "sorted_wrt (<) (map uniqueId (groupInventoryDevices ?inven))")
  using groupInventoryDevices_sorted [of ?inven] by simp

section \<open>The product data of an endpoint\<close>

definition holdsString :: "ReadAttributeResponseRecord \<Rightarrow> bool" where
  "holdsString r = (case DataTypeValue r of
     None \<Rightarrow> False | Some dv \<Rightarrow> (case Value dv of ZString v \<Rightarrow> True | _ \<Rightarrow> False))"

text \<open>C37: reading the Basic cluster of an endpoint panics, and with it the whole process, as
  nothing recovers there, exactly when the device answers some attribute with success and a
  value that is missing or not a string.\<close>

theorem readProductData_panics_iff:
  "(readProductData Z resp p = Panics) = list_ex (\<lambda>r. RecordStatus r = 0 \<and> \<not> holdsString r) resp"
proof (induction Z resp p rule: readProductData.induct)
  case (2 Z r resp p)
  show ?case
  proof (cases "RecordStatus r = 0 \<and> holdsString r")
    case True
    then obtain dv v where dv: "DataTypeValue r = Some dv" "Value dv = ZString v"
      by (auto simp: holdsString_def split: option.splits zclValue.splits)
    with 2(2) [OF _ dv] True show ?thesis by simp
  next
    case False
    with 2(1) show ?thesis by (auto simp: holdsString_def split: option.split zclValue.split)
  qed
qed simp

section \<open>Interrogation as a whole\<close>

lemma interrogateNode_ok:
  assumes "network_ok N" "interrogateNode N Z a e = (Returns (Inr inven), e')"
  shows "(\<exists>eps x x'. QueryNodeEndpoints N a x = (Inr eps, x') \<and> keys (endpoints inven) = set eps) \<and>
         (\<exists>x x'. QueryNodeDescription N a x = (Inr (nodeDescription inven), x')) \<and>
         wf_map (endpoints inven) \<and>
         (\<forall>ep d. map_of (endpoints inven) ep = Some d \<longrightarrow> described N a ep d \<and>
            (BasicId Z \<notin> set (InClusterList (description d)) \<longrightarrow> productInformation d = noProductData)) \<and>
         store e' = store e \<and> events e' = events e"
proof -
  from assms(2) obtain nd e1 eps e2 m e3 m' where
    nd: "retryNodeDescription N (onWorld (QueryNodeDescription N a)) e = (Inr nd, e1)" and
    eps: "retryEndpoints N (onWorld (QueryNodeEndpoints N a)) e1 = (Inr eps, e2)" and
    m: "queryEndpoints N a eps [] e2 = (Inr m, e3)" and
    m': "queryProducts N Z a m m e3 = (Returns m', e')" and
    inven: "inven = \<lparr>nodeDescription = nd, endpoints = m'\<rparr>"
    by (auto simp: interrogateNode_def split: prod.splits sum.splits outcome.splits)
  have node: "\<exists>x x'. QueryNodeDescription N a x = (Inr nd, x')"
    using network_okD(1) [OF assms(1), of "onWorld (QueryNodeDescription N a)" e] unfolding nd
    by (rule retried_onWorld)
  obtain x x' where list: "QueryNodeEndpoints N a x = (Inr eps, x')"
    using network_okD(2) [OF assms(1), of "onWorld (QueryNodeEndpoints N a)" e1] unfolding eps
    by (auto dest: retried_onWorld)
  have one: "wf_map m \<and> keys m = keys ([] :: (Endpoint, endpointDetails) gomap) \<union> set eps \<and>
     (\<forall>ep d. map_of m ep = Some d \<longrightarrow> described N a ep d \<and> productInformation d = noProductData)"
    by (rule queryEndpoints_described [OF assms(1) m]) simp_all
  then have wf: "wf_map m" and eps_keys: "keys m = set eps" by simp_all
  have two: "wf_map m' \<and> keys m' = keys m \<and>
     (\<forall>ep d. map_of m' ep = Some d \<longrightarrow> described N a ep d \<and>
        (BasicId Z \<notin> set (InClusterList (description d)) \<longrightarrow> productInformation d = noProductData))"
  proof (rule queryProducts_described [OF m' wf wf])
    show "described N a ep d \<and>
        (BasicId Z \<notin> set (InClusterList (description d)) \<longrightarrow> productInformation d = noProductData)"
      if "map_of m ep = Some d" for ep d
      using one that by simp
    show "ep \<in> keys m \<and> described N a ep d" if "map_of m ep = Some d" for ep d
      using map_of_SomeD_keys [OF that] one that by simp
  qed
  have quiet: "quiet e e'" using quiet_interrogateNode [OF assms(1), of e Z a] assms(2) by simp
  show ?thesis
  proof (intro conjI)
    have "keys m' = set eps" using two eps_keys by (simp only:)
    with list show "\<exists>eps x x'. QueryNodeEndpoints N a x = (Inr eps, x') \<and> keys (endpoints inven) = set eps"
      unfolding inven inventory.simps by blast
  qed (use node two quiet in \<open>simp_all add: inven quiet_def\<close>)
qed

text \<open>When a node could be interrogated, its inventory has exactly the endpoints the node
  listed in some answer, each with a description the node gave for that endpoint; product
  data is only ever filled in for endpoints with a Basic cluster. Nothing but the outside
  world and the position in the sequence channels has changed.\<close>

theorem interrogateNode_inventory:
  assumes "network_ok N" "interrogateNode N Z a e = (Returns (Inr inven), e')"
  shows "(\<exists>eps x x'. QueryNodeEndpoints N a x = (Inr eps, x') \<and> keys (endpoints inven) = set eps) \<and>
         (\<exists>x x'. QueryNodeDescription N a x = (Inr (nodeDescription inven), x')) \<and>
         wf_map (endpoints inven) \<and>
         (\<forall>ep d. map_of (endpoints inven) ep = Some d \<longrightarrow> described N a ep d \<and>
            (BasicId Z \<notin> set (InClusterList (description d)) \<longrightarrow> productInformation d = noProductData)) \<and>
         store e' = store e \<and> events e' = events e"
  using interrogateNode_ok [OF assms] .

text \<open>A network of one node with one endpoint, on which a witness can run.\<close>

definition exampleNetwork :: "(memory, unit) network" where
  "exampleNetwork =
     \<lparr>QueryNodeDescription = (\<lambda>a x. (Inr \<lparr>LogicalType = Router, ManufacturerCode = 0\<rparr>, x)),
      QueryNodeEndpoints = (\<lambda>a x. (Inr [1], x)),
      QueryNodeEndpointDescription = (\<lambda>a ep x. (Inr (description exampleDetails), x)),
      ReadAttributes = (\<lambda>r x. (Inr [\<lparr>Identifier = 4, RecordStatus = 0,
         DataTypeValue = Some \<lparr>DataType = 0x42, Value = ZString ''ACME''\<rparr>\<rparr>], x)),
      LogicalTypeString = (\<lambda>t. ''router''),
      retryNodeDescription = retryTimes 5, retryEndpoints = retryTimes 5,
      retryEndpointDescription = retryTimes 5, retryReadAttributes = retryTimes 5\<rparr>"

lemma exampleNetwork_ok: "network_ok exampleNetwork"
  by (simp add: network_ok_def exampleNetwork_def retries_retryTimes)

definition exampleEnv :: "(memory, unit) env" where
  "exampleEnv = \<lparr>store = memory_new, events = [],
     nodeTx = (\<lambda>_. \<lparr>sequence = makeTransactionSequence, useAPSAck = False\<rparr>), world = ()\<rparr>"

theorem interrogateNode_inventory_witness:
  "\<exists>inven e'. interrogateNode exampleNetwork zclStandard 0xABCD exampleEnv = (Returns (Inr inven), e') \<and>
     wf_map (endpoints inven) \<and> map_of (endpoints inven) 1 =
       Some (exampleDetails\<lparr>productInformation := noProductData\<lparr>manufacturer := ''ACME''\<rparr>\<rparr>)"
proof -
  let ?d = "exampleDetails\<lparr>productInformation := noProductData\<lparr>manufacturer := ''ACME''\<rparr>\<rparr>"
  let ?inven = "\<lparr>nodeDescription = \<lparr>LogicalType = Router, ManufacturerCode = 0\<rparr>, endpoints = [(1, ?d)]\<rparr>"
  have same: "x\<lparr>world := ()\<rparr> = x" for x :: "(memory, unit) env" by simp
  obtain seq e where seq: "takeSequence 0xABCD exampleEnv = (seq, e)"
    by (cases "takeSequence 0xABCD exampleEnv")
  have "interrogateNode exampleNetwork zclStandard 0xABCD exampleEnv = (Returns (Inr ?inven), e)"
    by (simp add: interrogateNode_def exampleNetwork_def onWorld_def eval_nat_numeral
        readBasic_def same seq zclStandard_def setProductData_def exampleDetails_def)
  with interrogateNode_inventory [OF exampleNetwork_ok this] show ?thesis by auto
qed

end
