(* ===== verification/Enumerate_Table.thy ===== *)
theory Enumerate_Table
  imports Enumerate_Inventory
begin

text \<open>
  \<open>updateNodeTable\<close>: after an enumeration the devices of a node are in one-to-one
  correspondence with the devices of its inventory.
\<close>

section \<open>Looking up the devices of a node\<close>

lemma devicesOf_lookup: "map_of (devicesOf a z) i = getDevice (addressOf a i) z"
  by (simp add: devicesOf_def getDevice_def split: option.split)

lemma devicesOf_wf: "table_wf z \<Longrightarrow> wf_map (devicesOf a z)"
  by (simp add: devicesOf_def table_wfD split: option.split)

lemma devicesOf_set: "table_wf z \<Longrightarrow> (i, d) \<in> set (devicesOf a z) \<longleftrightarrow> getDevice (addressOf a i) z = Some d"
  using devicesOf_wf [of z a] devicesOf_lookup [of a z i] by (auto dest: map_of_SomeD)

text \<open>The sub-identifiers in use.\<close>

definition subIds :: "IEEEAddress \<Rightarrow> ('c, 's, 'x) ZDA \<Rightarrow> 8 word set" where
  "subIds a z = {i. getDevice (addressOf a i) z \<noteq> None}"

lemma subIds_keys: "getNode a z = Some n \<Longrightarrow> keys (device n) = subIds a z"
  by (auto simp: subIds_def getDevice_def map_of_eq_None_iff)

lemma address_of: "IEEEAddress d = a \<Longrightarrow> addressOf a (SubIdentifier d) = d"
  by (simp add: address_eq_iff)

section \<open>The devices found by their unique id\<close>

lemma findExisting_lookup:
  "map_of (findExisting a z is) u =
     (if u \<in> uniqueId ` set is
      then map_option (\<lambda>(sub, _). addressOf a sub) (find (\<lambda>(_, d). deviceId d = u) (devicesOf a z))
      else None)"
proof -
  let ?step = "\<lambda>i m. case find (\<lambda>(_, d). deviceId d = uniqueId i) (devicesOf a z) of
      None \<Rightarrow> m | Some (sub, _) \<Rightarrow> AList.update (uniqueId i) (addressOf a sub) m"
  have "map_of (fold ?step is m) u =
     (if u \<in> uniqueId ` set is \<and> find (\<lambda>(_, d). deviceId d = u) (devicesOf a z) \<noteq> None
      then map_option (\<lambda>(sub, _). addressOf a sub) (find (\<lambda>(_, d). deviceId d = u) (devicesOf a z))
      else map_of m u)" for m
    by (induction "is" arbitrary: m) (auto split: option.splits)
  from this [of "[]"] show ?thesis
    unfolding findExisting_def
    by (cases "find (\<lambda>(_, d). deviceId d = u) (devicesOf a z)") (simp_all only:, simp_all)
qed

lemma findExisting_Some:
  assumes "table_wf z" "map_of (findExisting a z is) u = Some d"
  shows "u \<in> uniqueId ` set is" "IEEEAddress d = a" "\<exists>dev. getDevice d z = Some dev \<and> deviceId dev = u"
proof -
  from assms(2) obtain sub dev where
    f: "u \<in> uniqueId ` set is" "find (\<lambda>(_, d). deviceId d = u) (devicesOf a z) = Some (sub, dev)"
      "d = addressOf a sub"
    by (auto simp: findExisting_lookup split: if_splits)
  then have "(sub, dev) \<in> set (devicesOf a z)" "deviceId dev = u"
    by (auto simp: find_Some_iff in_set_conv_nth)
  with f show "u \<in> uniqueId ` set is" "IEEEAddress d = a" "\<exists>dev. getDevice d z = Some dev \<and> deviceId dev = u"
    by (auto simp: devicesOf_set [OF assms(1)])
qed

lemma findExisting_None:
  assumes "table_wf z" "map_of (findExisting a z is) u = None" "u \<in> uniqueId ` set is"
    and "getDevice d z = Some dev" "IEEEAddress d = a"
  shows "deviceId dev \<noteq> u"
proof -
  have "(SubIdentifier d, dev) \<in> set (devicesOf a z)"
    using assms(4,5) by (simp add: devicesOf_set [OF assms(1)] address_of)
  with assms(2,3) show ?thesis
    by (auto simp: findExisting_lookup find_None_iff)
qed

lemma findUnset_iff:
  assumes "table_wf z"
  shows "d \<in> set (findUnset a z) \<longleftrightarrow>
      IEEEAddress d = a \<and> (\<exists>dev. getDevice d z = Some dev \<and> \<not> deviceIdSet dev)"
proof
  assume "d \<in> set (findUnset a z)"
  then obtain i dev where "(i, dev) \<in> set (devicesOf a z)" "\<not> deviceIdSet dev" "d = addressOf a i"
    by (auto simp: findUnset_def)
  then show "IEEEAddress d = a \<and> (\<exists>dev. getDevice d z = Some dev \<and> \<not> deviceIdSet dev)"
    by (auto simp: devicesOf_set [OF assms])
next
  assume "IEEEAddress d = a \<and> (\<exists>dev. getDevice d z = Some dev \<and> \<not> deviceIdSet dev)"
  then obtain dev where dev: "(SubIdentifier d, dev) \<in> set (devicesOf a z)" "\<not> deviceIdSet dev"
    "IEEEAddress d = a"
    by (auto simp: devicesOf_set [OF assms] address_of)
  then have "(SubIdentifier d, dev) \<in> set (filter (\<lambda>(i, d). \<not> deviceIdSet d) (devicesOf a z))" by simp
  then have "(\<lambda>(i, d). addressOf a i) (SubIdentifier d, dev) \<in> set (findUnset a z)"
    unfolding findUnset_def set_map by (rule imageI)
  with dev(3) show "d \<in> set (findUnset a z)" by (simp add: address_of)
qed

lemma findUnset_distinct:
  assumes "table_wf z"
  shows "distinct (findUnset a z)"
proof -
  let ?xs = "filter (\<lambda>(i, d). \<not> deviceIdSet d) (devicesOf a z)"
  have "distinct (map fst ?xs)"
    using devicesOf_wf [OF assms, of a] by (simp add: wf_map_def distinct_map_filter)
  moreover have "findUnset a z = map (addressOf a) (map fst ?xs)"
    by (simp add: findUnset_def case_prod_beta comp_def)
  moreover have "inj (addressOf a)" by (simp add: inj_def)
  ultimately show ?thesis by (simp only: distinct_map inj_on_subset [OF _ subset_UNIV] simp_thms)
qed

lemma devicesToRemove_iff:
  assumes "table_wf z"
  shows "d \<in> set (devicesToRemove a m z) \<longleftrightarrow>
      IEEEAddress d = a \<and> (\<exists>dev. getDevice d z = Some dev \<and> map_of m (deviceId dev) = None)"
proof
  assume "d \<in> set (devicesToRemove a m z)"
  then obtain i dev where "(i, dev) \<in> set (devicesOf a z)" "map_of m (deviceId dev) = None" "d = addressOf a i"
    by (auto simp: devicesToRemove_def)
  then show "IEEEAddress d = a \<and> (\<exists>dev. getDevice d z = Some dev \<and> map_of m (deviceId dev) = None)"
    by (auto simp: devicesOf_set [OF assms])
next
  assume "IEEEAddress d = a \<and> (\<exists>dev. getDevice d z = Some dev \<and> map_of m (deviceId dev) = None)"
  then obtain dev where dev: "(SubIdentifier d, dev) \<in> set (devicesOf a z)" "map_of m (deviceId dev) = None"
    "IEEEAddress d = a"
    by (auto simp: devicesOf_set [OF assms] address_of)
  then have "(SubIdentifier d, dev) \<in> set (filter (\<lambda>(i, d). map_of m (deviceId d) = None) (devicesOf a z))"
    by simp
  then have "(\<lambda>(i, d). addressOf a i) (SubIdentifier d, dev) \<in> set (devicesToRemove a m z)"
    unfolding devicesToRemove_def set_map by (rule imageI)
  with dev(3) show "d \<in> set (devicesToRemove a m z)" by (simp add: address_of)
qed

section \<open>Creating what is missing\<close>

text \<open>A node whose set unique ids are all different.\<close>

definition unique_ids :: "IEEEAddress \<Rightarrow> ('c, 's, 'x) ZDA \<Rightarrow> bool" where
  "unique_ids a z \<longleftrightarrow>
     (\<forall>d d' dev dev'. IEEEAddress d = a \<and> IEEEAddress d' = a \<and>
        getDevice d z = Some dev \<and> getDevice d' z = Some dev' \<and> deviceIdSet dev \<and> deviceIdSet dev' \<and>
        deviceId dev = deviceId dev' \<longrightarrow> d = d')"

text \<open>The loop's invariant: what is mapped is set and has the id it is mapped from; what is
  unset and not mapped is still in the list; nothing else has changed since \<open>z0\<close>.\<close>

definition loop_inv ::
  "'s host \<Rightarrow> ('c, 's, 'x) zdaCapability \<Rightarrow> IEEEAddress \<Rightarrow> ('c, 's, 'x) ZDA \<Rightarrow> address list
    \<Rightarrow> (int, address) gomap \<Rightarrow> ('c, 's, 'x) ZDA \<Rightarrow> bool" where
  "loop_inv h C a z0 unset m z \<longleftrightarrow>
     gateway_ok h C z \<and>
     (\<forall>b. (getNode b z = None) = (getNode b z0 = None)) \<and>
     (\<forall>u d. map_of m u = Some d \<longrightarrow> IEEEAddress d = a \<and>
        (\<exists>dev. getDevice d z = Some dev \<and> deviceIdSet dev \<and> deviceId dev = u)) \<and>
     distinct unset \<and>
     (\<forall>d. d \<in> set unset \<longleftrightarrow> IEEEAddress d = a \<and> (\<exists>dev. getDevice d z = Some dev \<and> \<not> deviceIdSet dev)) \<and>
     (\<forall>d. IEEEAddress d \<noteq> a \<longrightarrow> getDevice d z = getDevice d z0) \<and>
     (\<forall>d dev. IEEEAddress d = a \<and> getDevice d z0 = Some dev \<and> deviceIdSet dev \<longrightarrow> getDevice d z = Some dev) \<and>
     (\<forall>d dev. IEEEAddress d = a \<and> getDevice d z = Some dev \<and> deviceIdSet dev \<longrightarrow>
        map_of m (deviceId dev) = Some d \<or> getDevice d z0 = Some dev)"

lemma loop_invD:
  assumes "loop_inv h C a z0 unset m z"
  shows "gateway_ok h C z" "(getNode b z = None) = (getNode b z0 = None)"
    "map_of m u = Some d \<Longrightarrow> IEEEAddress d = a"
    "map_of m u = Some d \<Longrightarrow> \<exists>dev. getDevice d z = Some dev \<and> deviceIdSet dev \<and> deviceId dev = u"
    "distinct unset"
    "d \<in> set unset \<longleftrightarrow> IEEEAddress d = a \<and> (\<exists>dev. getDevice d z = Some dev \<and> \<not> deviceIdSet dev)"
    "IEEEAddress d \<noteq> a \<Longrightarrow> getDevice d z = getDevice d z0"
    "IEEEAddress d = a \<Longrightarrow> getDevice d z0 = Some dev \<Longrightarrow> deviceIdSet dev \<Longrightarrow> getDevice d z = Some dev"
    "IEEEAddress d = a \<Longrightarrow> getDevice d z = Some dev \<Longrightarrow> deviceIdSet dev \<Longrightarrow>
       map_of m (deviceId dev) = Some d \<or> getDevice d z0 = Some dev"
  using assms unfolding loop_inv_def by blast+

context gateway begin

text \<open>One round: device \<open>d\<close>, unset until now, gets the id \<open>u\<close>.\<close>

lemma loop_inv_step:
  assumes inv: "loop_inv h C a z0 unset m z"
    and m: "map_of m u = None"
    and d: "IEEEAddress d = a" "getDevice d z1 = Some dev" "\<not> deviceIdSet dev"
    and z1: "gateway_ok h C z1" "\<And>b. (getNode b z1 = None) = (getNode b z = None)"
      "\<And>d'. d' \<noteq> d \<Longrightarrow> getDevice d' z1 = getDevice d' z"
      "\<And>dev. getDevice d z = Some dev \<Longrightarrow> \<not> deviceIdSet dev"
    and unset': "distinct unset'" "\<And>d'. d' \<in> set unset' \<longleftrightarrow> d' \<in> set unset \<and> d' \<noteq> d"
  shows "loop_inv h C a z0 unset' (AList.update u d m) (setDeviceUniqueId h d u z1)" (is "loop_inv _ _ _ _ _ ?m ?z")
proof -
  note i = loop_invD [OF inv]
  have get: "getDevice d' ?z = (if d' = d then Some (dev\<lparr>deviceId := u, deviceIdSet := True\<rparr>) else getDevice d' z)" for d'
    using d(2) z1(3) by simp
  have fresh: "d' \<noteq> d" if "map_of m v = Some d'" for v d'
    using i(4) [OF that] z1(4) by auto
  have "gateway_ok h C ?z" using z1(1) d(2) by (intro gateway_ok_setDeviceUniqueId) simp_all
  moreover have "(getNode b ?z = None) = (getNode b z0 = None)" for b using z1(2) i(2) by simp
  moreover have "IEEEAddress d' = a \<and> (\<exists>dev. getDevice d' ?z = Some dev \<and> deviceIdSet dev \<and> deviceId dev = v)"
    if "map_of ?m v = Some d'" for v d'
    using that i(3,4) [of v d'] fresh d(1) unfolding get by (auto split: if_splits)
  moreover have "d' \<in> set unset' \<longleftrightarrow>
      IEEEAddress d' = a \<and> (\<exists>dev. getDevice d' ?z = Some dev \<and> \<not> deviceIdSet dev)" for d'
    using i(6) [of d'] unset'(2) [of d'] unfolding get by auto
  moreover have "getDevice d' ?z = getDevice d' z0" if "IEEEAddress d' \<noteq> a" for d'
    using i(7) [OF that] that d(1) unfolding get by auto
  moreover have "getDevice d' ?z = Some dev'"
    if "IEEEAddress d' = a" "getDevice d' z0 = Some dev'" "deviceIdSet dev'" for d' dev'
    using i(8) [OF that] z1(4) that(3) unfolding get by auto
  moreover have "map_of ?m (deviceId dev') = Some d' \<or> getDevice d' z0 = Some dev'"
    if "IEEEAddress d' = a" "getDevice d' ?z = Some dev'" "deviceIdSet dev'" for d' dev'
  proof (cases "d' = d")
    case True
    with that(2) show ?thesis unfolding get by auto
  next
    case False
    with that(2) have "getDevice d' z = Some dev'" unfolding get by simp
    with that(1,3) have "map_of m (deviceId dev') = Some d' \<or> getDevice d' z0 = Some dev'"
      by (intro i(9))
    with m show ?thesis by auto
  qed
  ultimately show ?thesis unfolding loop_inv_def using unset'(1) by blast
qed

lemma createNextDevice_new:
  assumes "getNode a z = Some n" "card (subIds a z) < 256" "createNextDevice h a z = (d, z1)"
  shows "IEEEAddress d = a" "getDevice d z = None" "getDevice d z1 = Some newDevice"
    "d' \<noteq> d \<Longrightarrow> getDevice d' z1 = getDevice d' z" "(getNode b z1 = None) = (getNode b z = None)"
    "subIds a z1 = insert (SubIdentifier d) (subIds a z)"
proof -
  let ?i = "nextDeviceSubIdentifier (device n)"
  have d: "d = addressOf a ?i" and z1: "z1 = snd (createSpecificDevice h a ?i z)"
    using assms(1,3) by (auto simp: createNextDevice_specific createSpecificDevice_def Let_def)
  have node: "getNode a z \<noteq> None" using assms(1) by simp
  show "IEEEAddress d = a" by (simp add: d)
  show "getDevice d z = None"
    unfolding d using assms(1,2) by (intro createNextDevice_free) (simp_all add: subIds_keys)
  show "getDevice d z1 = Some newDevice" by (simp add: d z1 createSpecificDevice_devices [OF node])
  show "d' \<noteq> d \<Longrightarrow> getDevice d' z1 = getDevice d' z"
    by (simp add: d z1 createSpecificDevice_devices [OF node])
  show "(getNode b z1 = None) = (getNode b z = None)"
    by (simp add: z1 createSpecificDevice_devices [OF node])
  show "subIds a z1 = insert (SubIdentifier d) (subIds a z)"
    by (auto simp: subIds_def d z1 createSpecificDevice_devices [OF node])
qed

lemma subIds_setDeviceUniqueId [simp]: "subIds a (setDeviceUniqueId h d u z) = subIds a z"
  by (auto simp: subIds_def split: if_splits)

text \<open>A device for one unmapped entry of the inventory: an unset one, or a new one.\<close>

lemma createMissing_step:
  assumes "loop_inv h C a z0 unset m z" "getNode a z0 \<noteq> None" "card (subIds a z) < 256"
    and "map_of m (uniqueId i) = None"
    and choice: "(case unset of d # unset' \<Rightarrow> (d, unset', z)
        | [] \<Rightarrow> (case createNextDevice h a z of (d, z1) \<Rightarrow> (d, [], z1))) = (d, unset1, z1)"
  defines "z2 \<equiv> setDeviceUniqueId h d (uniqueId i) z1"
  shows "loop_inv h C a z0 unset1 (AList.update (uniqueId i) d m) z2 \<and>
    card (subIds a z2) \<le> Suc (card (subIds a z)) \<and> set unset1 \<subseteq> set unset"
proof (cases unset)
  case Nil
  note inv = loop_invD [OF assms(1)]
  have new: "createNextDevice h a z = (d, z1)" "unset1 = []"
    using choice Nil by (auto split: prod.splits)
  obtain n where nxt: "getNode a z = Some n" using assms(2) inv(2) [of a] by auto
  note c = createNextDevice_new [OF nxt assms(3) new(1)]
  have ok: "gateway_ok h C z1"
    using gateway_ok_createNextDevice [OF inv(1) nxt] nxt assms(3) new(1) by (simp add: subIds_keys)
  have "loop_inv h C a z0 unset1 (AList.update (uniqueId i) d m) z2"
    unfolding z2_def by (intro loop_inv_step [OF assms(1,4) c(1) c(3) _ ok])
      (use c new(2) Nil in \<open>simp_all add: newDevice_def\<close>)
  moreover have "subIds a z2 = insert (SubIdentifier d) (subIds a z)" using c(6) by (simp add: z2_def)
  moreover have "card (insert (SubIdentifier d) (subIds a z)) \<le> Suc (card (subIds a z))"
    by (simp add: card_insert_if)
  ultimately show ?thesis using new(2) by simp
next
  case (Cons d0 ds)
  note inv = loop_invD [OF assms(1)]
  have sel: "d0 = d" "unset1 = ds" "z1 = z" using choice Cons by auto
  then have "d \<in> set unset" using Cons by simp
  then obtain dev where dev: "IEEEAddress d = a" "getDevice d z = Some dev" "\<not> deviceIdSet dev"
    using inv(6) [of d] by blast
  have "distinct (d # ds)" using inv(5) Cons sel by simp
  then have "loop_inv h C a z0 unset1 (AList.update (uniqueId i) d m) z2"
    unfolding z2_def by (intro loop_inv_step [OF assms(1,4) dev(1) _ dev(3)])
      (use dev sel Cons inv(1) in auto)
  moreover have "subIds a z2 = subIds a z" using sel(3) by (simp add: z2_def)
  ultimately show ?thesis using sel Cons by auto
qed

lemma createMissing_ok:
  assumes "loop_inv h C a z0 unset m z" "getNode a z0 \<noteq> None"
    and "card (subIds a z) + length is \<le> 256"
    and "createMissing h a is unset m z = (m', z')"
  shows "\<exists>unset'. loop_inv h C a z0 unset' m' z' \<and>
     keys m' = keys m \<union> uniqueId ` set is \<and>
     (\<forall>u d. map_of m u = Some d \<longrightarrow> map_of m' u = Some d) \<and>
     set unset' \<subseteq> set unset"
  using assms
proof (induction "is" arbitrary: unset m z)
  case (Cons i "is")
  show ?case
  proof (cases "map_of m (uniqueId i)")
    case (Some d)
    then have "createMissing h a is unset m z = (m', z')" using Cons.prems(4) by simp
    from Cons.IH [OF Cons.prems(1,2) _ this] Cons.prems(3) map_of_SomeD_keys [OF Some]
    show ?thesis by (auto simp: insert_absorb)
  next
    case None
    obtain d unset1 z1 where choice:
      "(case unset of d # unset' \<Rightarrow> (d, unset', z)
        | [] \<Rightarrow> (case createNextDevice h a z of (d, z1) \<Rightarrow> (d, [], z1))) = (d, unset1, z1)"
      by (metis prod_cases3)
    let ?m = "AList.update (uniqueId i) d m" and ?z = "setDeviceUniqueId h d (uniqueId i) z1"
    have rest: "createMissing h a is unset1 ?m ?z = (m', z')"
      using Cons.prems(4) None choice by simp
    have "card (subIds a z) < 256" using Cons.prems(3) by simp
    note step = createMissing_step [OF Cons.prems(1,2) this None choice]
    have card: "card (subIds a ?z) + length is \<le> 256" using step Cons.prems(3) by simp
    obtain unset' where IH: "loop_inv h C a z0 unset' m' z'" "keys m' = keys ?m \<union> uniqueId ` set is"
        "\<forall>u d. map_of ?m u = Some d \<longrightarrow> map_of m' u = Some d" "set unset' \<subseteq> set unset1"
      using Cons.IH [OF step [THEN conjunct1] Cons.prems(2) card rest] by (elim exE conjE) (rule that)
    have "map_of m' u = Some d'" if "map_of m u = Some d'" for u d'
      using IH(3) [rule_format, of u d'] that None by (cases "u = uniqueId i") auto
    moreover have "set unset' \<subseteq> set unset" using IH(4) step by (blast intro: subset_trans)
    moreover have "keys m' = keys m \<union> uniqueId ` set (i # is)" by (simp only: IH(2) keys_update) simp
    ultimately show ?thesis using IH(1) by blast
  qed
qed auto

section \<open>Removing what is gone\<close>

lemma removeDevices_ok:
  assumes "gateway_ok h C z"
  shows "gateway_ok h C (removeDevices h C ds z) \<and>
    (\<forall>d. getDevice d (removeDevices h C ds z) = (if d \<in> set ds then None else getDevice d z)) \<and>
    (\<forall>b. (getNode b (removeDevices h C ds z) = None) = (getNode b z = None))"
  using assms
proof (induction ds arbitrary: z)
  case (Cons d ds)
  let ?z = "snd (removeDevice h C d z)"
  have ok: "gateway_ok h C ?z" by (rule gateway_ok_removeDevice [OF Cons.prems])
  have get: "getDevice d' ?z = (if d' = d then None else getDevice d' z)" for d'
    using removeDevice_ok(3) [OF Cons.prems] removeDevice_absent [of d z] by (cases "getDevice d z") auto
  have node: "(getNode b ?z = None) = (getNode b z = None)" for b
    using removeDevice_ok(4) [OF Cons.prems] removeDevice_absent [of d z] by (cases "getDevice d z") auto
  have step: "removeDevices h C (d # ds) z = removeDevices h C ds ?z" by (simp add: removeDevices_def)
  show ?case unfolding step using Cons.IH [OF ok] get node by auto
qed (simp add: removeDevices_def)

lemma loop_inv_start:
  assumes "gateway_ok h C z"
    and "\<forall>d dev. IEEEAddress d = a \<and> getDevice d z = Some dev \<and> \<not> deviceIdSet dev \<longrightarrow> 0 \<notin> uniqueId ` set is"
  shows "loop_inv h C a z (findUnset a z) (findExisting a z is) z"
proof -
  have wf: "table_wf z" using assms(1) by (blast dest: gateway_okD mirrorsD)
  have "IEEEAddress d = a \<and> (\<exists>dev. getDevice d z = Some dev \<and> deviceIdSet dev \<and> deviceId dev = u)"
    if m: "map_of (findExisting a z is) u = Some d" for u d
  proof -
    note f = findExisting_Some [OF wf m]
    then obtain dev where dev: "getDevice d z = Some dev" "deviceId dev = u" by blast
    have "deviceIdSet dev"
    proof (rule ccontr)
      assume unset: "\<not> deviceIdSet dev"
      with mirrorsD(6) [OF gateway_okD(1) [OF assms(1)] dev(1)] dev(2) have "u = 0" by (simp add: device_ok_def)
      from assms(2) f(2) dev(1) unset have "0 \<notin> uniqueId ` set is" by blast
      with f(1) \<open>u = 0\<close> show False by simp
    qed
    with f dev show ?thesis by blast
  qed
  then show ?thesis
    unfolding loop_inv_def
    using assms(1) findUnset_distinct [OF wf] findUnset_iff [OF wf] by blast
qed

text \<open>After the new devices are made, a device of the node whose number is mapped is the one it is
  mapped to.\<close>

lemma mapped_is_kept:
  assumes "gateway_ok h C z" "unique_ids a z"
    and "\<forall>d dev. IEEEAddress d = a \<and> getDevice d z = Some dev \<and> \<not> deviceIdSet dev \<longrightarrow> 0 \<notin> uniqueId ` set is"
    and loop: "loop_inv h C a z unset' m z1" and keys: "keys m = uniqueId ` set is"
    and mono: "\<And>u d. map_of (findExisting a z is) u = Some d \<Longrightarrow> map_of m u = Some d"
    and un: "set unset' \<subseteq> set (findUnset a z)"
    and dev: "IEEEAddress d = a" "getDevice d z1 = Some dev" "map_of m (deviceId dev) \<noteq> None"
  shows "map_of m (deviceId dev) = Some d"
proof (cases "deviceIdSet dev")
  case True
  note i = loop_invD [OF loop]
  have wf: "table_wf z" using assms(1) by (blast dest: gateway_okD mirrorsD)
  show ?thesis
  proof (rule ccontr)
    assume no: "map_of m (deviceId dev) \<noteq> Some d"
    with i(9) [OF dev(1,2) True] have z0: "getDevice d z = Some dev" by blast
    from dev(3) have "deviceId dev \<in> uniqueId ` set is"
      using keys map_of_SomeD_keys [of m "deviceId dev"] by auto
    then obtain d0 where d0: "map_of (findExisting a z is) (deviceId dev) = Some d0"
      using findExisting_None [OF wf _ _ z0 dev(1)] by (cases "map_of (findExisting a z is) (deviceId dev)") auto
    from findExisting_Some [OF wf d0] loop_invD(3,4) [OF loop_inv_start [OF assms(1,3)] d0]
    obtain dev0 where "IEEEAddress d0 = a" "getDevice d0 z = Some dev0" "deviceId dev0 = deviceId dev"
      "deviceIdSet dev0" by blast
    with assms(2) dev(1) z0 True have "d0 = d" unfolding unique_ids_def by blast
    with mono [OF d0] no show False by simp
  qed
next
  case False
  note i = loop_invD [OF loop]
  have wf: "table_wf z" using assms(1) by (blast dest: gateway_okD mirrorsD)
  from False have "d \<in> set unset'" using i(6) dev(1,2) by blast
  with un have "d \<in> set (findUnset a z)" by blast
  then have "0 \<notin> uniqueId ` set is" using assms(3) findUnset_iff [OF wf] by blast
  moreover have "deviceId dev = 0"
    using mirrorsD(6) [OF gateway_okD(1) [OF i(1)] dev(2)] False by (simp add: device_ok_def)
  ultimately show ?thesis using dev(3) keys map_of_SomeD_keys [of m 0] by auto
qed

lemma updateNodeTable_ok:
  assumes "gateway_ok h C z" "getNode a z \<noteq> None" "unique_ids a z"
    and "\<forall>d dev. IEEEAddress d = a \<and> getDevice d z = Some dev \<and> \<not> deviceIdSet dev \<longrightarrow> 0 \<notin> uniqueId ` set is"
    and "card (subIds a z) + length is \<le> 256"
    and "updateNodeTable h C a is z = (m, z')"
  shows "gateway_ok h C z'" "keys m = uniqueId ` set is" "unique_ids a z'"
    "\<And>u d. map_of m u = Some d \<Longrightarrow> IEEEAddress d = a \<and>
       (\<exists>dev. getDevice d z' = Some dev \<and> deviceIdSet dev \<and> deviceId dev = u)"
    "\<And>d dev. IEEEAddress d = a \<Longrightarrow> getDevice d z' = Some dev \<Longrightarrow> map_of m (deviceId dev) = Some d"
    "\<And>d dev. IEEEAddress d = a \<Longrightarrow> getDevice d z = Some dev \<Longrightarrow> deviceIdSet dev \<Longrightarrow>
       deviceId dev \<in> uniqueId ` set is \<Longrightarrow> getDevice d z' = Some dev"
    "\<And>d. IEEEAddress d \<noteq> a \<Longrightarrow> getDevice d z' = getDevice d z"
    "\<And>b. (getNode b z' = None) = (getNode b z = None)"
proof -
  let ?m0 = "findExisting a z is"
  have wf: "table_wf z" using assms(1) by (blast dest: gateway_okD mirrorsD)
  obtain z1 where z1: "createMissing h a is (findUnset a z) ?m0 z = (m, z1)"
    and z': "z' = removeDevices h C (devicesToRemove a m z1) z1"
    using assms(6) by (auto simp: updateNodeTable_def split: prod.splits)
  from createMissing_ok [OF loop_inv_start [OF assms(1,4)] assms(2,5) z1] obtain unset' where
    loop: "loop_inv h C a z unset' m z1" and km: "keys m = keys ?m0 \<union> uniqueId ` set is"
    and mono: "\<And>u d. map_of ?m0 u = Some d \<Longrightarrow> map_of m u = Some d" and un: "set unset' \<subseteq> set (findUnset a z)"
    by blast
  note i = loop_invD [OF loop]
  have k0: "keys ?m0 \<subseteq> uniqueId ` set is"
    using findExisting_Some(1) [OF wf] by (meson keys_obtain subsetI)
  with km show keys: "keys m = uniqueId ` set is" by (simp add: Un_absorb1)
  note rem = removeDevices_ok [OF i(1), of "devicesToRemove a m z1"]
  have wf1: "table_wf z1" using i(1) by (blast dest: gateway_okD mirrorsD)
  have get: "getDevice d z' = (if d \<in> set (devicesToRemove a m z1) then None else getDevice d z1)" for d
    using rem unfolding z' by blast
  note kept = mapped_is_kept [OF assms(1,3,4) loop keys mono un]
  show "gateway_ok h C z'" using rem unfolding z' by blast
  show mapped: "IEEEAddress d = a \<and> (\<exists>dev. getDevice d z' = Some dev \<and> deviceIdSet dev \<and> deviceId dev = u)"
    if "map_of m u = Some d" for u d
    using i(3,4) [OF that] that by (auto simp: get devicesToRemove_iff [OF wf1])
  show all: "map_of m (deviceId dev) = Some d" if "IEEEAddress d = a" "getDevice d z' = Some dev" for d dev
  proof -
    from that(2) have "d \<notin> set (devicesToRemove a m z1)" "getDevice d z1 = Some dev"
      by (auto simp: get split: if_splits)
    with kept that(1) show ?thesis by (auto simp: devicesToRemove_iff [OF wf1])
  qed
  show "unique_ids a z'"
    unfolding unique_ids_def
  proof (intro allI impI)
    fix d d' dev dev'
    assume "IEEEAddress d = a \<and> IEEEAddress d' = a \<and> getDevice d z' = Some dev \<and> getDevice d' z' = Some dev' \<and>
      deviceIdSet dev \<and> deviceIdSet dev' \<and> deviceId dev = deviceId dev'"
    with all [of d dev] all [of d' dev'] show "d = d'" by simp
  qed
  show "getDevice d z' = Some dev" if "IEEEAddress d = a" "getDevice d z = Some dev" "deviceIdSet dev"
    "deviceId dev \<in> uniqueId ` set is" for d dev
  proof -
    have "getDevice d z1 = Some dev" by (rule i(8) [OF that(1-3)])
    moreover have "map_of m (deviceId dev) \<noteq> None"
      using that(4) keys map_of_eq_None_keys [of m "deviceId dev"] by simp
    ultimately show ?thesis by (auto simp: get devicesToRemove_iff [OF wf1])
  qed
  show "getDevice d z' = getDevice d z" if "IEEEAddress d \<noteq> a" for d
    using i(7) [OF that] that by (simp add: get devicesToRemove_iff [OF wf1])
  show "(getNode b z' = None) = (getNode b z = None)" for b
    using rem i(2) [of b] unfolding z' by simp
qed

end

end
