(* ===== verification/Enumerate_Capabilities.thy ===== *)
theory Enumerate_Capabilities
  imports Enumerate_Table
begin

text \<open>
  Attaching and detaching capabilities: what \<open>enumerateCapabilityOnDevice\<close> and
  \<open>updateCapabilitiesOnDevice\<close> leave on the device.
\<close>

section \<open>A change of one capability of one device\<close>

definition cap_change :: "address \<Rightarrow> Capability \<Rightarrow> ('c, 's, 'x) ZDA \<Rightarrow> ('c, 's, 'x) ZDA \<Rightarrow> bool" where
  "cap_change d cF z z' \<longleftrightarrow>
     (\<forall>d'. d' \<noteq> d \<longrightarrow> getDevice d' z' = getDevice d' z) \<and>
     (\<forall>b. (getNode b z' = None) = (getNode b z = None)) \<and>
     (\<exists>dev dev'. getDevice d z = Some dev \<and> getDevice d z' = Some dev' \<and>
        deviceId dev' = deviceId dev \<and> deviceIdSet dev' = deviceIdSet dev \<and>
        (\<forall>cf. cf \<noteq> cF \<longrightarrow> map_of (capabilities dev') cf = map_of (capabilities dev) cf))"

lemma cap_changeI:
  assumes "\<And>d'. d' \<noteq> d \<Longrightarrow> getDevice d' z' = getDevice d' z" "\<And>b. (getNode b z' = None) = (getNode b z = None)"
    "getDevice d z = Some dev" "getDevice d z' = Some dev'"
    "deviceId dev' = deviceId dev" "deviceIdSet dev' = deviceIdSet dev"
    "\<And>cf. cf \<noteq> cF \<Longrightarrow> map_of (capabilities dev') cf = map_of (capabilities dev) cf"
  shows "cap_change d cF z z'"
  using assms unfolding cap_change_def by blast

lemma cap_changeD:
  assumes "cap_change d cF z z'"
  shows "d' \<noteq> d \<Longrightarrow> getDevice d' z' = getDevice d' z" "(getNode b z' = None) = (getNode b z = None)"
    "cf \<noteq> cF \<Longrightarrow> map_of (deviceCaps d z') cf = map_of (deviceCaps d z) cf"
    "getDevice d z \<noteq> None" "getDevice d z' \<noteq> None"
  using assms unfolding cap_change_def deviceCaps_def by auto

lemma cap_change_same:
  assumes "\<And>d'. getDevice d' z' = getDevice d' z" "\<And>b. (getNode b z' = None) = (getNode b z = None)"
    "getDevice d z \<noteq> None"
  shows "cap_change d cF z z'"
  using assms by (auto intro: cap_changeI)

lemma cap_change_trans:
  assumes "cap_change d cF z z'" "cap_change d cF z' z''"
  shows "cap_change d cF z z''"
proof -
  from assms obtain dev dev' dev'' where
    d: "getDevice d z = Some dev" "getDevice d z' = Some dev'" "getDevice d z'' = Some dev''"
      "deviceId dev'' = deviceId dev" "deviceIdSet dev'' = deviceIdSet dev"
      "\<And>cf. cf \<noteq> cF \<Longrightarrow> map_of (capabilities dev'') cf = map_of (capabilities dev) cf"
    unfolding cap_change_def by (metis option.inject)
  show ?thesis
  proof (rule cap_changeI [OF _ _ d(1,3-6)])
    show "getDevice d' z'' = getDevice d' z" if "d' \<noteq> d" for d'
      using cap_changeD(1) [OF assms(1) that] cap_changeD(1) [OF assms(2) that] by simp
    show "(getNode b z'' = None) = (getNode b z = None)" for b
      using cap_changeD(2) [OF assms(1)] cap_changeD(2) [OF assms(2)] by blast
  qed
qed

lemma tableView_env [simp]: "tableView (z\<lparr>env := e\<rparr>) = tableView z"
  by (rule tableView_cong) simp

text \<open>A capability about to be called: the attached one (\<open>found\<close>), or, with nothing attached
  under its flag, a new one whose section is in place.\<close>

definition ready ::
  "'s host \<Rightarrow> ('c, 's, 'x) zdaCapability \<Rightarrow> address \<Rightarrow> Capability \<Rightarrow> bool \<Rightarrow> 'c \<Rightarrow> ('c, 's, 'x) ZDA \<Rightarrow> bool" where
  "ready h C d cF found c z \<longleftrightarrow>
     (if found then map_of (deviceCaps d z) cF = Some c
      else map_of (deviceCaps d z) cF = None \<and> capability_ok h C d (store (env z)) cF c)"

context gateway begin

text \<open>Calls that only have an effect on the environment.\<close>

lemma gateway_ok_env:
  assumes "gateway_ok h C z" "getDevice d z = Some dev" "cap_effect (persist h) p (env z) e"
    and "only_below (persist h) (devicePath h d) (store (env z)) (store e)" "device_ok h C d (store e) dev"
  shows "gateway_ok h C (z\<lparr>env := e\<rparr>)"
proof -
  have "announced (z\<lparr>env := e\<rparr>)"
    by (rule announced_effect [of "persist h" p z]) (use assms(3) gateway_okD(2) [OF assms(1)] in simp_all)
  moreover have "sequences_full (z\<lparr>env := e\<rparr>)"
    by (rule sequences_full_effect [of "persist h" p z]) (use assms(3) gateway_okD(3) [OF assms(1)] in simp_all)
  ultimately show ?thesis
    using mirrors_env [OF gateway_okD(1) [OF assms(1)] assms(2,4,5)] by (simp add: gateway_ok_def)
qed

lemma gateway_ok_quiet:
  assumes "gateway_ok h C z" "quiet (env z) e"
  shows "gateway_ok h C (z\<lparr>env := e\<rparr>)"
proof -
  have "mirrors h C (z\<lparr>env := e\<rparr>)"
    using gateway_okD(1) [OF assms(1)] assms(2) by (simp add: mirrors_def quiet_def)
  moreover have "announced (z\<lparr>env := e\<rparr>)"
    using gateway_okD(2) [OF assms(1)] assms(2) by (simp add: announced_def quiet_def)
  moreover have "sequences_full (z\<lparr>env := e\<rparr>)"
    using gateway_okD(3) [OF assms(1)] assms(2) by (simp add: sequences_full_def quiet_def)
  ultimately show ?thesis by (simp add: gateway_ok_def)
qed

text \<open>A call on a capability whose data section is in place, attached or about to be.\<close>

lemma gateway_ok_data_env:
  assumes "gateway_ok h C z" "getDevice d z = Some dev" "present (persist h) (dataPath h d cF) (store (env z))"
    and "cap_effect (persist h) (dataPath h d cF) (env z) e"
  shows "gateway_ok h C (z\<lparr>env := e\<rparr>)"
    "capability_ok h C d (store (env z)) cF c \<Longrightarrow> capability_ok h C d (store e) cF c"
proof -
  have below: "only_below (persist h) (dataPath h d cF) (store (env z)) (store e)"
    using assms(3,4) by (simp add: cap_effect_def)
  have "device_ok h C d (store (env z)) dev"
    by (rule mirrorsD(6) [OF gateway_okD(1) [OF assms(1)] assms(2)])
  from gateway_ok_env [OF assms(1,2,4) data_change(1) [OF below] device_ok_data_change [OF this below]]
  show "gateway_ok h C (z\<lparr>env := e\<rparr>)" .
  show "capability_ok h C d (store (env z)) cF c \<Longrightarrow> capability_ok h C d (store e) cF c"
    by (rule data_change(4) [OF below])
qed

lemma newImplementation_none:
  assumes "newImplementation h C d name cF z = (None, z')"
  shows "z' = z\<lparr>env := env z'\<rparr>" "quiet (env z) (env z')"
  using assms create_env [of "env z" name]
  by (auto simp: newImplementation_def Let_def split: prod.splits option.splits)

lemma newImplementation_ok:
  assumes z: "gateway_ok h C z" "getDevice d z = Some dev" and new: "map_of (capabilities dev) cF = None"
    and name: "map_of Mapping name = Some cF" "newImplementation h C d name cF z = (Some c, z')"
  shows "gateway_ok h C z'" "getDevice d' z' = getDevice d' z" "(getNode b z' = None) = (getNode b z = None)"
    "capability_ok h C d (store (env z')) cF c" "c_ImplName C c = name"
proof -
  let ?p = "capabilityPath h d cF"
  from name(2) obtain c0 e where create: "c_Create C name (env z) = (Some c0, e)"
    by (auto simp: newImplementation_def Let_def split: prod.splits option.splits)
  let ?s1 = "p_section (persist h) ?p (sectionForDevice h d (store e))"
  let ?s2 = "p_set (persist h) ?p ''Implementation'' (PString name) ?s1"
  let ?s3 = "p_section (persist h) (dataPath h d cF) ?s2"
  let ?e3 = "e\<lparr>store := ?s3\<rparr>"
  obtain e' where init: "c_Init C d (dataPath h d cF) c0 ?e3 = (c, e')" and z': "z' = z\<lparr>env := e'\<rparr>"
    using name(2) create by (auto simp: newImplementation_def Let_def dataPath_def split: prod.splits)
  have quiet: "quiet (env z) e" using create_env [of "env z" name] create by simp
  have ok: "device_ok h C d (store e) dev"
    using mirrorsD(6) [OF gateway_okD(1) [OF z(1)] z(2)] quiet by (simp add: quiet_def)
  have pres: "present (persist h) (devicePath h d) (store e)" using ok by (simp add: device_ok_def)
  have get: "p_get (persist h) q j ?s3 =
      (if q = ?p \<and> j = ''Implementation'' then Some (PString name) else p_get (persist h) q j (store e))" for q j
    by (simp add: P.get_set P.get_section sectionForDevice_get)
  have mono: "present (persist h) q ?s3" if "present (persist h) q (store e)" for q
    using that by (simp add: P.section_present_mono sectionForDevice_mono)
  have data: "present (persist h) (dataPath h d cF) ?s3" by (rule P.section_present)
  have ok3: "device_ok h C d ?s3 dev"
    by (rule device_ok_change_capability [OF ok, where cf = cF])
       (use pres mono new name in \<open>auto simp: get\<close>)
  have "only_below (persist h) (devicePath h d) (sectionForDevice h d (store e)) ?s1"
    by (rule P.section_only_below) (simp_all add: sectionForDevice_present)
  moreover have "only_below (persist h) (devicePath h d) ?s1 ?s2" by (rule P.set_only_below) simp
  moreover have "only_below (persist h) (devicePath h d) ?s2 ?s3"
    by (rule P.section_only_below) (simp_all add: P.section_present_mono sectionForDevice_present)
  ultimately have below: "only_below (persist h) (devicePath h d) (store e) ?s3"
    using sectionForDevice_only_below [OF pres] by (blast intro: only_below_trans)
  have eff: "cap_effect (persist h) [] (env z) ?e3"
    using quiet by (simp add: quiet_def cap_effect_def only_below_def)
  have z3: "gateway_ok h C (z\<lparr>env := ?e3\<rparr>)"
    by (rule gateway_ok_env [OF z eff]) (use below ok3 quiet in \<open>simp_all add: quiet_def\<close>)
  have initeff: "cap_effect (persist h) (dataPath h d cF) ?e3 e'"
    using init_env [of "dataPath h d cF" ?e3 d c0] init by simp
  have "c_Capability C c = cF" "c_Section C c = dataPath h d cF" "c_ImplName C c = name"
    using create_name [of name "env z" c0] create init init_same [of d "dataPath h d cF" c0 ?e3]
      init_section [of d "dataPath h d cF" c0 ?e3] name(1) by simp_all
  then have "capability_ok h C d ?s3 cF c" and "c_ImplName C c = name"
    using name(1) data by (simp_all add: capability_ok_def get)
  then show "capability_ok h C d (store (env z')) cF c" "c_ImplName C c = name" "gateway_ok h C z'"
    using gateway_ok_data_env(1) [OF z3, where dev = dev and cF = cF and e = e' and d = d]
      gateway_ok_data_env(2) [OF z3, where dev = dev and cF = cF and e = e' and c = c and d = d]
      z(2) data initeff z' by simp_all
  show "getDevice d' z' = getDevice d' z" "(getNode b z' = None) = (getNode b z = None)"
    by (simp_all add: z')
qed

text \<open>Writing back what a call changed in an attached implementation.\<close>

lemma gateway_ok_writeBack:
  assumes "gateway_ok h C z" "getDevice d z = Some dev" "map_of (capabilities dev) cF = Some c"
    and "cap_effect (persist h) (c_Section C c) (env z) e"
    and "c_Capability C c' = c_Capability C c" "c_ImplName C c' = c_ImplName C c" "c_Section C c' = c_Section C c"
  shows "gateway_ok h C (writeBack d cF c' (z\<lparr>env := e\<rparr>))" (is "gateway_ok h C ?z")
proof -
  have "tableView ?z = tableView z"
  proof
    fix d'
    show "tableView ?z d' = tableView z d'"
      using assms(2) map_of_SomeD_keys [OF assms(3)]
      by (auto simp: writeBack_def tableView_def set_deviceCapabilities)
  qed
  then have "announced ?z"
    by (rule announced_effect [of "persist h" "c_Section C c" z, rotated])
       (use assms(4) gateway_okD(2) [OF assms(1)] in \<open>simp_all add: writeBack_def\<close>)
  moreover have "sequences_full ?z"
    by (rule sequences_full_effect [of "persist h" "c_Section C c" z])
       (use assms(4) gateway_okD(3) [OF assms(1)] in \<open>simp_all add: writeBack_def\<close>)
  moreover have "mirrors h C ?z"
    unfolding writeBack_def by (rule mirrors_call [OF gateway_okD(1) [OF assms(1)] assms(2-7)])
  ultimately show ?thesis by (simp add: gateway_ok_def)
qed

lemma writeBack_change:
  "getDevice d z \<noteq> None \<Longrightarrow> cap_change d cF z (writeBack d cF c (z\<lparr>env := e\<rparr>))"
  "getDevice d z \<noteq> None \<Longrightarrow>
     map_of (deviceCaps d (writeBack d cF c (z\<lparr>env := e\<rparr>))) cF = Some c"
  by (auto simp: writeBack_def deviceCaps_def cap_change_def)

lemma attach_change:
  "getDevice d z \<noteq> None \<Longrightarrow> cap_change d (c_Capability C c) z (attachCapabilityToDevice h C d c z)"
  "getDevice d z \<noteq> None \<Longrightarrow>
     map_of (deviceCaps d (attachCapabilityToDevice h C d c z)) (c_Capability C c) = Some c"
  by (auto simp: deviceCaps_def cap_change_def)

lemma detach_change:
  "getDevice d z \<noteq> None \<Longrightarrow> cap_change d (c_Capability C c) z (detachCapabilityFromDevice h C d c z)"
  "getDevice d z \<noteq> None \<Longrightarrow>
     map_of (deviceCaps d (detachCapabilityFromDevice h C d c z)) (c_Capability C c) = None"
  by (auto simp: deviceCaps_def cap_change_def detachCapability_env)

lemma callDetach_change:
  assumes "gateway_ok h C z" "getDevice d z = Some dev" "map_of (capabilities dev) cF = Some c"
    and "callDetach C t d cF c z = (err, c', z')"
  shows "gateway_ok h C z'" "cap_change d cF z z'" "map_of (deviceCaps d z') cF = Some c'"
    "c_Capability C c' = c_Capability C c" "c_ImplName C c' = c_ImplName C c"
proof -
  from assms(4) obtain e where e: "c_Detach C t c (env z) = (err, c', e)"
    and z': "z' = writeBack d cF c' (z\<lparr>env := e\<rparr>)"
    by (auto simp: callDetach_def writeBack_def split: prod.splits)
  note same = detach_same [OF e]
  then show "c_Capability C c' = c_Capability C c" "c_ImplName C c' = c_ImplName C c" by simp_all
  show "gateway_ok h C z'"
    unfolding z' using same by (intro gateway_ok_writeBack [OF assms(1-3) detach_env [OF e]]) simp_all
  show "cap_change d cF z z'" "map_of (deviceCaps d z') cF = Some c'"
    unfolding z' using assms(2) by (simp_all add: writeBack_change)
qed

lemma ready_ok:
  assumes "gateway_ok h C z" "getDevice d z \<noteq> None" "ready h C d cF found c z"
  shows "capability_ok h C d (store (env z)) cF c"
proof (cases found)
  case True
  from assms(2) obtain dev where dev: "getDevice d z = Some dev" by auto
  with True assms(3) have "map_of (capabilities dev) cF = Some c" by (simp add: ready_def deviceCaps_def)
  with mirrorsD(6) [OF gateway_okD(1) [OF assms(1)] dev] show ?thesis by (simp add: device_ok_def)
next
  case False
  with assms(3) show ?thesis by (simp add: ready_def)
qed

lemma ready_call:
  assumes "gateway_ok h C z" "getDevice d z \<noteq> None" "ready h C d cF found c z"
    and "cap_effect (persist h) (c_Section C c) (env z) e"
    and "c_Capability C c' = c_Capability C c" "c_ImplName C c' = c_ImplName C c" "c_Section C c' = c_Section C c"
  defines "z1 \<equiv> (if found then writeBack d cF c' else id) (z\<lparr>env := e\<rparr>)"
  shows "gateway_ok h C z1" "cap_change d cF z z1" "ready h C d cF found c' z1" "env z1 = e"
proof -
  from assms(2) obtain dev where dev: "getDevice d z = Some dev" by auto
  have ok: "capability_ok h C d (store (env z)) cF c" by (rule ready_ok [OF assms(1-3)])
  show "env z1 = e" by (simp add: z1_def writeBack_def)
  show "gateway_ok h C z1" "cap_change d cF z z1" "ready h C d cF found c' z1"
  proof (atomize (full), cases found)
    case True
    then have "map_of (capabilities dev) cF = Some c" using assms(3) dev by (simp add: ready_def deviceCaps_def)
    with True gateway_ok_writeBack [OF assms(1) dev _ assms(4-7)] writeBack_change [OF assms(2)]
    show "gateway_ok h C z1 \<and> cap_change d cF z z1 \<and> ready h C d cF found c' z1"
      by (simp add: z1_def ready_def)
  next
    case False
    then have none: "map_of (deviceCaps d z) cF = None" using assms(3) by (simp add: ready_def)
    have sec: "c_Section C c = dataPath h d cF" and pres: "present (persist h) (dataPath h d cF) (store (env z))"
      using ok by (simp_all add: capability_ok_def)
    note env = gateway_ok_data_env [OF assms(1) dev pres assms(4) [unfolded sec]]
    have "capability_ok h C d (store e) cF c'"
      using env(2) [OF ok] assms(5-7) by (simp add: capability_ok_def)
    moreover have "cap_change d cF z (z\<lparr>env := e\<rparr>)" using assms(2) by (intro cap_change_same) simp_all
    ultimately show "gateway_ok h C z1 \<and> cap_change d cF z z1 \<and> ready h C d cF found c' z1"
      using False env(1) none by (simp add: z1_def ready_def deviceCaps_def)
  qed
qed

text \<open>After \<open>callEnumerate\<close> the capability is attached when the call says so; otherwise
  nothing is attached under its flag, unless the call panicked in an implementation that was
  attached before.\<close>

text \<open>The two ends of an enumeration: the capability is attached, or detached as failed.\<close>

lemma ready_attach:
  assumes "gateway_ok h C z" "getDevice d z \<noteq> None" "ready h C d cF found c z"
  defines "z' \<equiv> attachCapabilityToDevice h C d c z"
  shows "gateway_ok h C z' \<and> cap_change d cF z z' \<and> map_of (deviceCaps d z') cF = Some c"
proof -
  note ok = ready_ok [OF assms(1-3)]
  then have "c_Capability C c = cF" by (simp add: capability_ok_def)
  with attach_change [OF assms(2), of c] gateway_ok_attach [OF assms(1,2)] ok show ?thesis by (simp add: z'_def)
qed

lemma ready_detach:
  assumes "gateway_ok h C z" "getDevice d z \<noteq> None" "ready h C d cF found c z"
    and e: "c_Detach C FailedAttach c (env z) = (err, c', e)"
  defines "z' \<equiv> detachCapabilityFromDevice h C d c' ((if found then writeBack d cF c' else id) (z\<lparr>env := e\<rparr>))"
  shows "gateway_ok h C z' \<and> cap_change d cF z z' \<and> map_of (deviceCaps d z') cF = None"
proof -
  let ?z = "(if found then writeBack d cF c' else id) (z\<lparr>env := e\<rparr>)"
  have one: "gateway_ok h C ?z" "cap_change d cF z ?z" "ready h C d cF found c' ?z"
    using ready_call [OF assms(1-3) detach_env [OF e], of c'] detach_same [OF e] by simp_all
  have dev: "getDevice d ?z \<noteq> None" by (rule cap_changeD(5) [OF one(2)])
  have ok: "capability_ok h C d (store (env ?z)) cF c'" by (rule ready_ok [OF one(1) dev one(3)])
  have "gateway_ok h C z'"
    unfolding z'_def using ok by (intro gateway_ok_detach [OF one(1)]) (auto simp: capability_ok_def)
  moreover have "cap_change d cF ?z z'" "map_of (deviceCaps d z') cF = None"
    using detach_change [OF dev, of c'] ok by (simp_all add: z'_def capability_ok_def)
  ultimately show ?thesis using cap_change_trans [OF one(2)] by blast
qed

lemma callEnumerate_ok:
  assumes z: "gateway_ok h C z" "getDevice d z \<noteq> None" "ready h C d cF found c z"
    and call: "callEnumerate h C d name cF settings found c errs z = ((attached, es), z')"
  shows "gateway_ok h C z'" "cap_change d cF z z'"
    "attached \<Longrightarrow> \<exists>c'. map_of (deviceCaps d z') cF = Some c' \<and> c_ImplName C c' = c_ImplName C c"
    "\<not> attached \<Longrightarrow> map_of (deviceCaps d z') cF = None \<or>
       found \<and> fst (c_Enumerate C settings c (env z)) = Panics"
proof -
  obtain r c1 e1 where e1: "c_Enumerate C settings c (env z) = (r, c1, e1)"
    by (cases "c_Enumerate C settings c (env z)")
  let ?z1 = "(if found then writeBack d cF c1 else id) (z\<lparr>env := e1\<rparr>)"
  note same1 = enumerate_same [OF e1]
  note one = ready_call [OF z enumerate_env [OF e1], of c1]
  have ok1: "gateway_ok h C ?z1" "cap_change d cF z ?z1" "ready h C d cF found c1 ?z1"
    using one same1 by simp_all
  have dev1: "getDevice d ?z1 \<noteq> None" by (rule cap_changeD(5) [OF ok1(2)])
  have goal: "gateway_ok h C z' \<and> cap_change d cF z z' \<and>
    (attached \<longrightarrow> (\<exists>c'. map_of (deviceCaps d z') cF = Some c' \<and> c_ImplName C c' = c_ImplName C c)) \<and>
    (\<not> attached \<longrightarrow> map_of (deviceCaps d z') cF = None \<or>
       found \<and> fst (c_Enumerate C settings c (env z)) = Panics)"
  proof (cases r)
    case Panics
    then have "z' = ?z1" "\<not> attached" using call e1 by (simp_all add: callEnumerate_def Let_def)
    with ok1 Panics e1 show ?thesis by (auto simp: ready_def)
  next
    case (Returns res)
    obtain att err where res: "res = (att, err)" by (cases res)
    show ?thesis
    proof (cases att)
      case True
      have "z' = attachCapabilityToDevice h C d c1 ?z1" "attached"
        using call e1 Returns res True by (simp_all add: callEnumerate_def Let_def)
      with ready_attach [OF ok1(1) dev1 ok1(3)] cap_change_trans [OF ok1(2)] same1 show ?thesis by blast
    next
      case False
      obtain derr c2 e2 where e2: "c_Detach C FailedAttach c1 (env ?z1) = (derr, c2, e2)"
        by (cases "c_Detach C FailedAttach c1 (env ?z1)")
      have "z' = detachCapabilityFromDevice h C d c2 ((if found then writeBack d cF c2 else id) (?z1\<lparr>env := e2\<rparr>))"
        "\<not> attached"
        using call e1 Returns res False e2 by (simp_all add: callEnumerate_def Let_def)
      with ready_detach [OF ok1(1) dev1 ok1(3) e2] cap_change_trans [OF ok1(2)] show ?thesis by blast
    qed
  qed
  from goal show "gateway_ok h C z'" "cap_change d cF z z'"
    "attached \<Longrightarrow> \<exists>c'. map_of (deviceCaps d z') cF = Some c' \<and> c_ImplName C c' = c_ImplName C c"
    "\<not> attached \<Longrightarrow> map_of (deviceCaps d z') cF = None \<or>
       found \<and> fst (c_Enumerate C settings c (env z)) = Panics"
    by blast+
qed

end

end
