(* ===== verification/Enumerate_Device.thy ===== *)
theory Enumerate_Device
  imports Enumerate_Capabilities
begin

text \<open>
  \<open>updateCapabilitiesOnDevice\<close> and \<open>enumerate\<close> as a whole: what is attached afterwards, what
  the results say, and that the invariant of the gateway is kept.
\<close>

section \<open>What is reported\<close>

lemma addErrors_simps [simp]:
  "map_of (addErrors cf es r) cf' =
     (if cf' = cf then map_option (\<lambda>c. c\<lparr>Errors := Errors c @ es\<rparr>) (map_of r cf) else map_of r cf')"
  by (simp add: addErrors_def split: option.split)

lemma setAttached_simps [simp]:
  "map_of (setAttached cf b r) cf' =
     (if cf' = cf then map_option (\<lambda>c. c\<lparr>Attached := b\<rparr>) (map_of r cf) else map_of r cf')"
  by (simp add: setAttached_def split: option.split)

text \<open>All the capabilities the rules put out for a device, in the order they are visited.\<close>

definition offers :: "inventoryDevice \<Rightarrow> (string \<times> Settings) list" where
  "offers i = concat (map (\<lambda>ep. OutputCapabilities (rulesOutput ep)) (invEndpoints i))"

lemma enumerateCapabilities_fold:
  "fold (\<lambda>ep. enumerateCapabilities h C d (OutputCapabilities (rulesOutput ep))) eps st =
     fold (offerCapability h C d) (concat (map (\<lambda>ep. OutputCapabilities (rulesOutput ep)) eps)) st"
  by (induction eps arbitrary: st) (simp_all add: enumerateCapabilities_def)

definition offeredFlags :: "(string \<times> Settings) list \<Rightarrow> Capability list" where
  "offeredFlags xs = List.map_filter (\<lambda>(n, _). map_of Mapping n) xs"

lemma offeredFlags_simps [simp]:
  "offeredFlags [] = []"
  "offeredFlags ((n, s) # xs) =
     (case map_of Mapping n of None \<Rightarrow> offeredFlags xs | Some cF \<Rightarrow> cF # offeredFlags xs)"
  by (simp_all add: offeredFlags_def map_filter_simps split: option.split)

text \<open>A capability reported as attached is active; with at most one offer for each flag, an
  active one is also reported as attached.\<close>

definition reported :: "enumerationResults \<Rightarrow> Capability \<Rightarrow> bool" where
  "reported errs cf \<longleftrightarrow> (\<exists>r. map_of errs cf = Some r \<and> Attached r)"

lemma reported_simps [simp]:
  "reported (addErrors cf es errs) cf' = reported errs cf'"
  "reported (setAttached cf b errs) cf' =
     (if cf' = cf then b \<and> map_of errs cf \<noteq> None else reported errs cf')"
  "reported (AList.update cf noResult errs) cf' = (cf' \<noteq> cf \<and> reported errs cf')"
  by (auto simp: reported_def noResult_def)

lemma offerCapability_cases:
  assumes "offerCapability h C d (name, settings) (errs, active, z) = (errs', active', z')"
  obtains
    (unknown) "map_of Mapping name = None" "active' = active" "z' = z"
      "\<And>cf. cf \<noteq> EnumerateDeviceFlag \<Longrightarrow> reported errs' cf = reported errs cf"
      "reported errs' EnumerateDeviceFlag = reported errs EnumerateDeviceFlag"
  | (known) cF att es where "map_of Mapping name = Some cF"
      "enumerateCapabilityOnDevice h C d name cF active settings z = ((att, es), z')"
      "active' = (if att then active @ [cF] else active)"
      "\<And>cf. reported errs' cf = (if cf = cF then att else reported errs cf)"
proof (cases "map_of Mapping name")
  case None
  with assms show ?thesis by (intro unknown) auto
next
  case (Some cF)
  obtain att es z1 where e: "enumerateCapabilityOnDevice h C d name cF active settings z = ((att, es), z1)"
    by (metis surj_pair)
  show ?thesis by (rule known [OF Some]) (use assms Some e in \<open>auto simp: Let_def split: if_splits\<close>)
qed

lemma offers_reported:
  assumes "fold (offerCapability h C d) xs (errs, active, z) = (errs', active', z')"
    and "\<And>cf. cf \<noteq> EnumerateDeviceFlag \<Longrightarrow> reported errs cf \<Longrightarrow> cf \<in> set active"
  shows "cf \<noteq> EnumerateDeviceFlag \<Longrightarrow> reported errs' cf \<Longrightarrow> cf \<in> set active'"
  using assms
proof (induction xs arbitrary: errs active z)
  case (Cons x xs)
  obtain name settings where x: "x = (name, settings)" by (cases x)
  obtain errs1 active1 z1 where
    one: "offerCapability h C d (name, settings) (errs, active, z) = (errs1, active1, z1)"
    by (metis prod_cases3)
  have rest: "fold (offerCapability h C d) xs (errs1, active1, z1) = (errs', active', z')"
    using Cons.prems(3) one x by simp
  show ?case
  proof (rule Cons.IH [OF Cons.prems(1,2) rest])
    show "cf \<in> set active1" if "cf \<noteq> EnumerateDeviceFlag" "reported errs1 cf" for cf
      by (rule offerCapability_cases [OF one]) (use that Cons.prems(4) in \<open>auto split: if_splits\<close>)
  qed
qed simp

lemma offers_reports:
  assumes "fold (offerCapability h C d) xs (errs, active, z) = (errs', active', z')"
    and "distinct (offeredFlags xs)" "set active \<inter> set (offeredFlags xs) = {}"
    and "\<And>cf. cf \<in> set active \<Longrightarrow> reported errs cf"
  shows "cf \<in> set active' \<Longrightarrow> reported errs' cf"
  using assms
proof (induction xs arbitrary: errs active z)
  case (Cons x xs)
  obtain name settings where x: "x = (name, settings)" by (cases x)
  obtain errs1 active1 z1 where
    one: "offerCapability h C d (name, settings) (errs, active, z) = (errs1, active1, z1)"
    by (metis prod_cases3)
  have rest: "fold (offerCapability h C d) xs (errs1, active1, z1) = (errs', active', z')"
    using Cons.prems(2) one x by simp
  show ?case
  proof (rule offerCapability_cases [OF one])
    assume u: "map_of Mapping name = None" "active1 = active" "z1 = z"
      "\<And>cf. cf \<noteq> EnumerateDeviceFlag \<Longrightarrow> reported errs1 cf = reported errs cf"
      "reported errs1 EnumerateDeviceFlag = reported errs EnumerateDeviceFlag"
    have "reported errs1 cf" if "cf \<in> set active1" for cf
      using u(2,4,5) Cons.prems(5) that by (cases "cf = EnumerateDeviceFlag") simp_all
    with u(1,2) Cons.prems(3,4) x show ?thesis by (intro Cons.IH [OF Cons.prems(1) rest]) simp_all
  next
    fix cF att es
    assume k: "map_of Mapping name = Some cF" "active1 = (if att then active @ [cF] else active)"
      "\<And>cf. reported errs1 cf = (if cf = cF then att else reported errs cf)"
    have "reported errs1 cf" if "cf \<in> set active1" for cf
      using that k Cons.prems(4,5) x by (auto split: if_splits)
    with k Cons.prems(3,4) x show ?thesis by (intro Cons.IH [OF Cons.prems(1) rest]) (auto split: if_splits)
  qed
qed simp

section \<open>What is attached\<close>

text \<open>Only one device has changed, and neither its place nor its id.\<close>

definition dev_change :: "address \<Rightarrow> ('c, 's, 'x) ZDA \<Rightarrow> ('c, 's, 'x) ZDA \<Rightarrow> bool" where
  "dev_change d z z' \<longleftrightarrow>
     (\<forall>d'. d' \<noteq> d \<longrightarrow> getDevice d' z' = getDevice d' z) \<and>
     (\<forall>b. (getNode b z' = None) = (getNode b z = None)) \<and>
     (\<exists>dev dev'. getDevice d z = Some dev \<and> getDevice d z' = Some dev' \<and>
        deviceId dev' = deviceId dev \<and> deviceIdSet dev' = deviceIdSet dev)"

lemma dev_changeD:
  assumes "dev_change d z z'"
  shows "d' \<noteq> d \<Longrightarrow> getDevice d' z' = getDevice d' z" "(getNode b z' = None) = (getNode b z = None)"
    "getDevice d z' \<noteq> None"
  using assms unfolding dev_change_def by auto

lemma cap_dev_change: "cap_change d cF z z' \<Longrightarrow> dev_change d z z'"
  unfolding cap_change_def dev_change_def by blast

lemma dev_change_refl: "getDevice d z \<noteq> None \<Longrightarrow> dev_change d z z"
  by (auto simp: dev_change_def)

lemma dev_change_trans: "dev_change d z z' \<Longrightarrow> dev_change d z' z'' \<Longrightarrow> dev_change d z z''"
  unfolding dev_change_def by (metis option.inject)

context gateway begin

text \<open>A new implementation, made and enumerated.\<close>

lemma newAttached_ok:
  assumes z0: "gateway_ok h C z0" "getDevice d z0 \<noteq> None" "map_of (deviceCaps d z0) cF = None"
    and name: "map_of Mapping name = Some cF"
    and r: "(case newImplementation h C d name cF z0 of
        (None, z3) \<Rightarrow> ((False, errs0), z3)
      | (Some c2, z3) \<Rightarrow> callEnumerate h C d name cF settings False c2 errs1 z3) = ((attached, es), z')"
  shows "gateway_ok h C z' \<and> cap_change d cF z0 z' \<and>
    (attached \<longrightarrow> (\<exists>c. map_of (deviceCaps d z') cF = Some c \<and> c_ImplName C c = name))"
proof -
  obtain dev0 where dev0: "getDevice d z0 = Some dev0" using z0(2) by auto
  obtain oc z3 where n: "newImplementation h C d name cF z0 = (oc, z3)"
    by (cases "newImplementation h C d name cF z0")
  show ?thesis
  proof (cases oc)
    case None
    with r n have z': "z' = z3" "\<not> attached" by simp_all
    note none = newImplementation_none [OF n [unfolded None]]
    have "gateway_ok h C z3" using gateway_ok_quiet [OF z0(1) none(2)] none(1) by metis
    moreover have "cap_change d cF z0 z3"
      by (subst none(1), intro cap_change_same) (use z0(2) in simp_all)
    ultimately show ?thesis using z' by simp
  next
    case (Some c2)
    have "map_of (capabilities dev0) cF = None" using z0(3) dev0 by (simp add: deviceCaps_def)
    note ok = newImplementation_ok [OF z0(1) dev0 this name n [unfolded Some]]
    have "deviceCaps d z3 = deviceCaps d z0" by (simp add: deviceCaps_def ok(2))
    then have ready: "ready h C d cF False c2 z3" using z0(3) ok(4) by (simp add: ready_def)
    have dev3: "getDevice d z3 \<noteq> None" using z0(2) ok(2) by simp
    have "callEnumerate h C d name cF settings False c2 errs1 z3 = ((attached, es), z')"
      using r n Some by simp
    note ce = callEnumerate_ok [OF ok(1) dev3 ready this]
    have "cap_change d cF z0 z3" using ok(2,3) z0(2) by (intro cap_change_same) simp_all
    from cap_change_trans [OF this ce(2)] show ?thesis using ce(1,3) ok(5) by simp
  qed
qed

lemma enumerateCapabilityOnDevice_ok:
  assumes "gateway_ok h C z" "getDevice d z \<noteq> None" "map_of Mapping name = Some cF"
    and call: "enumerateCapabilityOnDevice h C d name cF active settings z = ((attached, es), z')"
  shows "gateway_ok h C z'" "cap_change d cF z z'"
    "attached \<Longrightarrow> cF \<notin> set active \<and> (\<exists>c. map_of (deviceCaps d z') cF = Some c \<and> c_ImplName C c = name)"
    "cF \<in> set active \<Longrightarrow> z' = z"
proof -
  obtain dev where dev: "getDevice d z = Some dev" using assms(2) by auto
  note new = newAttached_ok [OF _ _ _ assms(3)]
  have goal: "gateway_ok h C z' \<and> cap_change d cF z z' \<and>
      (attached \<longrightarrow> (\<exists>c. map_of (deviceCaps d z') cF = Some c \<and> c_ImplName C c = name))"
    if inactive: "cF \<notin> set active"
  proof (cases "map_of (deviceCaps d z) cF")
    case None
    have "(case newImplementation h C d name cF z of
            (None, z3) \<Rightarrow> ((False, [Err (''failed to find concrete implementation: '' @ name)]), z3)
          | (Some c2, z3) \<Rightarrow> callEnumerate h C d name cF settings False c2 [] z3) = ((attached, es), z')"
      using call inactive None by (simp add: enumerateCapabilityOnDevice_def)
    then show ?thesis by (rule new [OF assms(1,2) None])
  next
    case (Some c)
    show ?thesis
    proof (cases "c_ImplName C c = name")
      case True
      then have "callEnumerate h C d name cF settings True c [] z = ((attached, es), z')"
        using call inactive Some by (simp add: enumerateCapabilityOnDevice_def)
      note ce = callEnumerate_ok [OF assms(1,2) _ this]
      have "ready h C d cF True c z" using Some by (simp add: ready_def)
      then show ?thesis using ce(1-3) True by simp
    next
      case False
      obtain err c' z1 where det: "callDetach C NoLongerEnumerated d cF c z = (err, c', z1)"
        by (cases "callDetach C NoLongerEnumerated d cF c z")
      let ?z2 = "detachCapabilityFromDevice h C d c' z1"
      have c: "map_of (capabilities dev) cF = Some c" using Some dev by (simp add: deviceCaps_def)
      note one = callDetach_change [OF assms(1) dev c det]
      have "capability_ok h C d (store (env z)) cF c"
        using mirrorsD(6) [OF gateway_okD(1) [OF assms(1)] dev] c by (simp add: device_ok_def)
      then have cF: "c_Capability C c' = cF" "map_of Mapping (c_ImplName C c) = Some cF"
        using one(4) by (simp_all add: capability_ok_def)
      have dev1: "getDevice d z1 \<noteq> None" by (rule cap_changeD(5) [OF one(2)])
      have two: "gateway_ok h C ?z2" "cap_change d cF z1 ?z2" "map_of (deviceCaps d ?z2) cF = None"
        using detach_change [OF dev1, of c'] cF by (auto intro: gateway_ok_detach [OF one(1)])
      let ?errs = "case err of None \<Rightarrow> [] | Some x \<Rightarrow> [Errorf ''failed to detach conflicting capabiltiy'' x]"
      have "(case newImplementation h C d name cF ?z2 of
            (None, z3) \<Rightarrow> ((False, [Err (''failed to find concrete implementation: '' @ name)]), z3)
          | (Some c2, z3) \<Rightarrow> callEnumerate h C d name cF settings False c2 ?errs z3) = ((attached, es), z')"
        using call inactive Some False det by (simp add: enumerateCapabilityOnDevice_def Let_def)
      from new [OF two(1) cap_changeD(5) [OF two(2)] two(3) this]
      show ?thesis using cap_change_trans [OF cap_change_trans [OF one(2) two(2)]] by simp
    qed
  qed
  have busy: "z' = z \<and> \<not> attached" if "cF \<in> set active"
    using call that by (simp add: enumerateCapabilityOnDevice_def)
  then show "cF \<in> set active \<Longrightarrow> z' = z" by blast
  show "gateway_ok h C z'" using goal busy assms(1) by (cases "cF \<in> set active") simp_all
  show "cap_change d cF z z'"
    using goal busy cap_change_same [of z z d cF] assms(2) by (cases "cF \<in> set active") simp_all
  show "attached \<Longrightarrow> cF \<notin> set active \<and> (\<exists>c. map_of (deviceCaps d z') cF = Some c \<and> c_ImplName C c = name)"
    using goal busy by blast
qed

lemma offers_ok:
  assumes "fold (offerCapability h C d) xs (errs, active, z) = (errs', active', z')"
    and "gateway_ok h C z" "getDevice d z \<noteq> None" "fst ` set xs \<subseteq> N"
    and "\<And>cf. cf \<in> set active \<Longrightarrow> \<exists>c. map_of (deviceCaps d z) cf = Some c \<and> c_ImplName C c \<in> N"
  shows "gateway_ok h C z' \<and> dev_change d z z' \<and>
    (\<forall>cf \<in> set active'. \<exists>c. map_of (deviceCaps d z') cf = Some c \<and> c_ImplName C c \<in> N)"
  using assms
proof (induction xs arbitrary: errs active z)
  case Nil
  then show ?case by (simp add: dev_change_refl)
next
  case (Cons x xs)
  obtain name settings where x: "x = (name, settings)" by (cases x)
  obtain errs1 active1 z1 where
    one: "offerCapability h C d (name, settings) (errs, active, z) = (errs1, active1, z1)"
    by (metis prod_cases3)
  have rest: "fold (offerCapability h C d) xs (errs1, active1, z1) = (errs', active', z')"
    using Cons.prems(1) one x by simp
  have N: "name \<in> N" "fst ` set xs \<subseteq> N" using Cons.prems(4) x by simp_all
  have step: "gateway_ok h C z1 \<and> dev_change d z z1 \<and>
      (\<forall>cf \<in> set active1. \<exists>c. map_of (deviceCaps d z1) cf = Some c \<and> c_ImplName C c \<in> N)"
  proof (rule offerCapability_cases [OF one])
    assume "active1 = active" "z1 = z"
    with Cons.prems(2,3,5) show ?thesis by (simp add: dev_change_refl)
  next
    fix cF att es
    assume k: "map_of Mapping name = Some cF" "active1 = (if att then active @ [cF] else active)"
      "enumerateCapabilityOnDevice h C d name cF active settings z = ((att, es), z1)"
    note e = enumerateCapabilityOnDevice_ok [OF Cons.prems(2,3) k(1,3)]
    have "\<exists>c. map_of (deviceCaps d z1) cf = Some c \<and> c_ImplName C c \<in> N" if "cf \<in> set active1" for cf
    proof (cases "cf = cF")
      case True
      show ?thesis
      proof (cases att)
        case att: True
        then show ?thesis using e(3) True N(1) by blast
      next
        case False
        then have "cF \<in> set active" using that True k(2) by simp
        then show ?thesis using e(4) Cons.prems(5) True by simp
      qed
    next
      case False
      then have "cf \<in> set active" using that k(2) by (auto split: if_splits)
      then show ?thesis using Cons.prems(5) cap_changeD(3) [OF e(2) False] by simp
    qed
    then show ?thesis using e(1) cap_dev_change [OF e(2)] by blast
  qed
  have "gateway_ok h C z' \<and> dev_change d z1 z' \<and>
    (\<forall>cf \<in> set active'. \<exists>c. map_of (deviceCaps d z') cf = Some c \<and> c_ImplName C c \<in> N)"
    using step dev_changeD(3) by (intro Cons.IH [OF rest _ _ N(2)]) blast+
  with step dev_change_trans show ?case by blast
qed

lemma detachRedundant_ok:
  assumes "detachRedundant h C d active cfs (errs, z) = (errs', z')" "gateway_ok h C z" "getDevice d z \<noteq> None"
  shows "gateway_ok h C z' \<and> dev_change d z z' \<and>
    (\<forall>cf. map_of (deviceCaps d z') cf = (if cf \<in> set cfs - set active then None else map_of (deviceCaps d z) cf)) \<and>
    (\<forall>cf. reported errs' cf \<longrightarrow> reported errs cf) \<and> (\<forall>cf \<in> set active. reported errs' cf = reported errs cf)"
  using assms
proof (induction cfs arbitrary: errs z)
  case Nil
  then show ?case by (simp add: dev_change_refl)
next
  case (Cons cf cfs)
  show ?case
  proof (cases "map_of (deviceCaps d z) cf = None \<or> cf \<in> set active")
    case True
    then have "detachRedundant h C d active cfs (errs, z) = (errs', z')"
      using Cons.prems(1) by (auto split: option.splits)
    from Cons.IH [OF this Cons.prems(2,3)] True show ?thesis by auto
  next
    case False
    then obtain impl where impl: "map_of (deviceCaps d z) cf = Some impl" and inactive: "cf \<notin> set active" by auto
    obtain dev where dev: "getDevice d z = Some dev" using Cons.prems(3) by auto
    have c: "map_of (capabilities dev) cf = Some impl" using impl dev by (simp add: deviceCaps_def)
    obtain err impl' z1 where det: "callDetach C NoLongerEnumerated d cf impl z = (err, impl', z1)"
      by (cases "callDetach C NoLongerEnumerated d cf impl z")
    note one = callDetach_change [OF Cons.prems(2) dev c det]
    have "capability_ok h C d (store (env z)) cf impl"
      using mirrorsD(6) [OF gateway_okD(1) [OF Cons.prems(2)] dev] c by (simp add: device_ok_def)
    then have cF: "c_Capability C impl' = cf" "map_of Mapping (c_ImplName C impl) = Some cf"
      using one(4) by (simp_all add: capability_ok_def)
    let ?z2 = "detachCapabilityFromDevice h C d impl' z1"
    let ?errs = "addErrors cf (case err of None \<Rightarrow> []
        | Some x \<Rightarrow> [Errorf ''failed to detach redundant capabiltiy'' x]) (AList.update cf noResult errs)"
    have dev1: "getDevice d z1 \<noteq> None" by (rule cap_changeD(5) [OF one(2)])
    have two: "gateway_ok h C ?z2" "cap_change d cf z1 ?z2" "map_of (deviceCaps d ?z2) cf = None"
      using detach_change [OF dev1, of impl'] cF by (auto intro: gateway_ok_detach [OF one(1)])
    note ch = cap_change_trans [OF one(2) two(2)]
    have "detachRedundant h C d active cfs (?errs, ?z2) = (errs', z')"
      using Cons.prems(1) impl inactive det by simp
    note IH = Cons.IH [OF this two(1) cap_changeD(5) [OF ch]]
    have "map_of (deviceCaps d z') cf' =
        (if cf' \<in> set (cf # cfs) - set active then None else map_of (deviceCaps d z) cf')" for cf'
      using IH two(3) inactive cap_changeD(3) [OF ch, of cf'] by (cases "cf' = cf") simp_all
    moreover have "dev_change d z z'" using IH dev_change_trans [OF cap_dev_change [OF ch]] by blast
    moreover have "reported errs cf'" if "reported errs' cf'" for cf'
    proof -
      have "reported ?errs cf'" using IH that by blast
      then show ?thesis by simp
    qed
    moreover have "reported errs' cf' = reported errs cf'" if "cf' \<in> set active" for cf'
    proof -
      have "reported errs' cf' = reported ?errs cf'" using IH that by blast
      moreover have "cf' \<noteq> cf" using that inactive by blast
      ultimately show ?thesis by simp
    qed
    ultimately show ?thesis using IH [THEN conjunct1] by blast
  qed
qed

lemma updateCapabilitiesOnDevice_ok:
  assumes "gateway_ok h C z" "getDevice d z \<noteq> None" "updateCapabilitiesOnDevice h C d i z = (errs, z')"
  shows "gateway_ok h C z'" "dev_change d z z'"
    "map_of (deviceCaps d z') cf = Some c \<Longrightarrow> c_ImplName C c \<in> fst ` set (offers i)"
    "cf \<noteq> EnumerateDeviceFlag \<Longrightarrow> reported errs cf \<Longrightarrow> map_of (deviceCaps d z') cf \<noteq> None"
    "distinct (offeredFlags (offers i)) \<Longrightarrow> map_of (deviceCaps d z') cf \<noteq> None \<Longrightarrow> reported errs cf"
proof -
  let ?start = "[(EnumerateDeviceFlag, \<lparr>Attached = True, Errors = []\<rparr>)]"
  obtain errs1 active z1 where
    loop: "fold (offerCapability h C d) (offers i) (?start, [], z) = (errs1, active, z1)"
    by (metis prod_cases3)
  have det: "detachRedundant h C d active (map fst (deviceCaps d z1)) (errs1, z1) = (errs, z')"
    using assms(3) loop by (simp add: updateCapabilitiesOnDevice_def enumerateCapabilities_fold flip: offers_def)
  have one: "gateway_ok h C z1 \<and> dev_change d z z1 \<and>
      (\<forall>cf \<in> set active. \<exists>c. map_of (deviceCaps d z1) cf = Some c \<and> c_ImplName C c \<in> fst ` set (offers i))"
    by (rule offers_ok [OF loop assms(1,2)]) simp_all
  then have dev1: "getDevice d z1 \<noteq> None" using dev_changeD(3) by blast
  note two = detachRedundant_ok [OF det one [THEN conjunct1] dev1]
  have caps: "map_of (deviceCaps d z') cf = (if cf \<in> set active then map_of (deviceCaps d z1) cf else None)" for cf
  proof (cases "cf \<in> set active")
    case True
    with two show ?thesis by simp
  next
    case False
    with two map_of_eq_None_keys [of "deviceCaps d z1" cf] show ?thesis by auto
  qed
  show "gateway_ok h C z'" using two by blast
  show "dev_change d z z'" using one two dev_change_trans by blast
  show "c_ImplName C c \<in> fst ` set (offers i)" if "map_of (deviceCaps d z') cf = Some c"
  proof -
    from that have "cf \<in> set active" "map_of (deviceCaps d z1) cf = Some c"
      unfolding caps by (simp_all split: if_splits)
    with one show ?thesis by (metis option.inject)
  qed
  have start: "reported ?start cf' \<Longrightarrow> cf' = EnumerateDeviceFlag" for cf'
    by (auto simp: reported_def split: if_splits)
  show "map_of (deviceCaps d z') cf \<noteq> None" if "cf \<noteq> EnumerateDeviceFlag" "reported errs cf"
  proof -
    have "reported errs1 cf" using two that(2) by blast
    with that(1) have "cf \<in> set active" by (intro offers_reported [OF loop _ that(1)]) (use start in blast)+
    then show ?thesis using one unfolding caps by auto
  qed
  show "reported errs cf" if "distinct (offeredFlags (offers i))" "map_of (deviceCaps d z') cf \<noteq> None"
  proof -
    from that(2) have act: "cf \<in> set active" unfolding caps by (auto split: if_splits)
    then have "reported errs1 cf" by (intro offers_reports [OF loop that(1)]) simp_all
    with two act show ?thesis by blast
  qed
qed

end

end
