(* ===== verification/Enumerate_Node.thy ===== *)
theory Enumerate_Node
  imports Enumerate_Device
begin

text \<open>
  \<open>enumerate\<close> as a whole: under what a Zigbee network can be relied on for, an enumeration
  keeps the invariant of the gateway, and leaves exactly the devices of the inventory, each
  with capabilities the rules asked for.
\<close>

section \<open>Flags and results\<close>

lemma getDevice_updNode_device:
  assumes "\<And>n. device (f n) = device n"
  shows "getDevice d (updNode a f z) = getDevice d z"
  using assms by (auto simp: getDevice_def getNode_updNode split: option.split)

lemma getNode_updNode_None [simp]: "getNode b (updNode a f z) = None \<longleftrightarrow> getNode b z = None"
  by (simp add: getNode_updNode)

lemma gateway_ok_flags:
  assumes "gateway_ok h C z" "\<And>n. device (f n) = device n"
  shows "gateway_ok h C (updNode a f z)"
proof -
  let ?z = "updNode a f z"
  note dev = getDevice_updNode_device [OF assms(2)]
  note m = mirrorsD [OF gateway_okD(1) [OF assms(1)]]
  have "table_wf ?z"
    using m(1) assms(2) by (intro table_wf_updNode) (auto simp: table_wf_def)
  then have "mirrors h C ?z"
    using m by (intro mirrorsI) (simp_all add: dev)
  moreover have "tableView ?z = tableView z" by (rule tableView_cong) (rule dev)
  then have "announced ?z" using gateway_okD(2) [OF assms(1)] by (simp add: announced_def)
  moreover have "sequences_full ?z"
    using gateway_okD(3) [OF assms(1)] by (subst sequences_full_cong [of _ z]) simp_all
  ultimately show ?thesis by (simp add: gateway_ok_def)
qed

text \<open>What an enumeration leaves of a table: nodes, devices and their identity.\<close>

definition ids :: "address \<Rightarrow> ('c, 's, 'x) ZDA \<Rightarrow> (int \<times> bool) option" where
  "ids d z = map_option (\<lambda>dev. (deviceId dev, deviceIdSet dev)) (getDevice d z)"

lemma ids_simps [simp]:
  "ids d (zSendEvent ev z) = ids d z" "ids d (onStore g z) = ids d z" "ids d (z\<lparr>env := e\<rparr>) = ids d z"
  by (simp_all add: ids_def)

lemma ids_None [simp]: "ids d z = None \<longleftrightarrow> getDevice d z = None"
  by (simp add: ids_def)

lemma ids_flags: "(\<And>n. device (f n) = device n) \<Longrightarrow> ids d (updNode a f z) = ids d z"
  by (simp add: ids_def getDevice_updNode_device)

lemma unique_ids_ids:
  "unique_ids a z \<longleftrightarrow> (\<forall>d d' u. IEEEAddress d = a \<and> IEEEAddress d' = a \<and>
     ids d z = Some (u, True) \<and> ids d' z = Some (u, True) \<longrightarrow> d = d')"
  by (auto simp: unique_ids_def ids_def)

lemma unique_ids_cong: "(\<And>d. IEEEAddress d = a \<Longrightarrow> ids d z' = ids d z) \<Longrightarrow> unique_ids a z' = unique_ids a z"
  unfolding unique_ids_ids by (metis (no_types))

lemma subIds_ids: "subIds a z = {i. ids (addressOf a i) z \<noteq> None}"
  by (simp add: subIds_def)

lemma subIds_cong: "(\<And>d. IEEEAddress d = a \<Longrightarrow> ids d z' = ids d z) \<Longrightarrow> subIds a z' = subIds a z"
  by (simp add: subIds_ids)

lemma finite_subIds [simp]: "finite (subIds a z)"
  by simp

text \<open>The events at the start and the end.\<close>

lemma fold_sendEvent_frame [simp]:
  "getDevice d (fold (\<lambda>x. zSendEvent (g x)) xs z) = getDevice d z"
  "getNode b (fold (\<lambda>x. zSendEvent (g x)) xs z) = getNode b z"
  by (induction xs arbitrary: z) simp_all

lemma gateway_ok_fold_sendEvent:
  "gateway_ok h C z \<Longrightarrow> (\<And>x. \<not> table_event (g x)) \<Longrightarrow> gateway_ok h C (fold (\<lambda>x. zSendEvent (g x)) xs z)"
  by (induction xs arbitrary: z) (simp_all add: gateway_ok_sendEvent)

lemma fold_split: "fold (\<lambda>(i, d). f i d) xs z = fold (\<lambda>x. f (fst x) (snd x)) xs z"
  by (rule fold_cong) auto

lemma sendStarts_fold:
  "sendStarts a z = fold (\<lambda>x. zSendEvent (EvEnumerateDeviceStart (addressOf a (fst x)))) (devicesOf a z) z"
  unfolding sendStarts_def by (rule fold_split)

lemma sendStops_fold:
  "sendStops a z = fold (\<lambda>x. zSendEvent (EvEnumerateDeviceStopped (addressOf a (fst x)) (Status False (snd x))))
     (devicesOf a z) z"
  unfolding sendStops_def by (rule fold_split)

lemma sendStarts_frame [simp]:
  "getDevice d (sendStarts a z) = getDevice d z" "getNode b (sendStarts a z) = getNode b z"
  "ids d (sendStarts a z) = ids d z"
  by (simp_all add: sendStarts_fold ids_def)

lemma sendStops_frame [simp]:
  "getDevice d (sendStops a z) = getDevice d z" "getNode b (sendStops a z) = getNode b z"
  "ids d (sendStops a z) = ids d z"
  by (simp_all add: sendStops_fold ids_def)

lemma gateway_ok_sendStarts: "gateway_ok h C z \<Longrightarrow> gateway_ok h C (sendStarts a z)"
  by (simp add: sendStarts_fold gateway_ok_fold_sendEvent)

lemma gateway_ok_sendStops: "gateway_ok h C z \<Longrightarrow> gateway_ok h C (sendStops a z)"
  by (simp add: sendStops_fold gateway_ok_fold_sendEvent)

section \<open>The network\<close>

text \<open>What the Zigbee specification says of the endpoints a node lists: endpoint 0 belongs to
  the stack itself and is never listed. The bound on their number is half of the 256
  sub-identifiers, as the devices of a new inventory are created before those of the old one
  are removed.\<close>

definition network_endpoints :: "('s, 'x) network \<Rightarrow> bool" where
  "network_endpoints N \<longleftrightarrow>
     (\<forall>a x eps x'. QueryNodeEndpoints N a x = (Inr eps, x') \<longrightarrow> 0 \<notin> set eps \<and> card (set eps) \<le> 128)"

lemma runRules_endpoints:
  assumes "runRules T f inven = Inr inven'"
  shows "map fst (endpoints inven') = map fst (endpoints inven)"
  using assms by (auto simp: runRules_def Let_def split: sum.splits dest: mapM_kv_keys)

lemma uint_eq_0_endpoint: "uint (ep :: Endpoint) = 0 \<longleftrightarrow> ep = 0"
  by (simp add: uint_0_iff)

lemma inventory_listed:
  assumes "network_endpoints N" "QueryNodeEndpoints N a x = (Inr eps, x')" "keys (endpoints inven) = set eps"
    and "wf_map (endpoints inven)" "runRules T f inven = Inr inven'"
  shows "distinct (map uniqueId (groupInventoryDevices inven'))"
    "0 \<notin> uniqueId ` set (groupInventoryDevices inven')" "length (groupInventoryDevices inven') \<le> 128"
proof -
  have eps: "0 \<notin> set eps" "card (set eps) \<le> 128" using assms(1,2) unfolding network_endpoints_def by blast+
  note same = runRules_endpoints [OF assms(5)]
  then have keys': "keys (endpoints inven') = set eps" using assms(3) by (metis list.set_map)
  have wf: "wf_map (endpoints inven')" using assms(4) same by (simp add: wf_map_def)
  show "distinct (map uniqueId (groupInventoryDevices inven'))" by (rule groupInventoryDevices_distinct [OF wf])
  have "uniqueId ` set (groupInventoryDevices inven') = uint ` keys (endpoints inven')"
    by (simp add: set_groupInventoryDevices [OF wf] inventoryMap_def image_image case_prod_beta)
  then show "0 \<notin> uniqueId ` set (groupInventoryDevices inven')"
    using eps keys' by (auto simp: uint_0_iff)
  have "length (groupInventoryDevices inven') = length (endpoints inven')"
    by (simp add: groupInventoryDevices_def inventoryMap_def)
  also have "\<dots> = card (keys (endpoints inven'))"
    using wf by (metis distinct_card length_map list.set_map wf_map_def)
  finally show "length (groupInventoryDevices inven') \<le> 128" using eps keys' by simp
qed

lemma inventory_network:
  assumes "network_ok N" "network_endpoints N" "interrogateNode N Z a e = (Returns (Inr inven), e')"
    and "runRules T f inven = Inr inven'"
  shows "distinct (map uniqueId (groupInventoryDevices inven'))"
    "0 \<notin> uniqueId ` set (groupInventoryDevices inven')" "length (groupInventoryDevices inven') \<le> 128"
proof -
  note inv = interrogateNode_ok [OF assms(1,3)]
  then obtain eps x x' where eps: "QueryNodeEndpoints N a x = (Inr eps, x')" "keys (endpoints inven) = set eps" by blast
  have "wf_map (endpoints inven)" using inv by simp
  from inventory_listed [OF assms(2) eps this assms(4)]
  show "distinct (map uniqueId (groupInventoryDevices inven'))"
    "0 \<notin> uniqueId ` set (groupInventoryDevices inven')" "length (groupInventoryDevices inven') \<le> 128" .
qed

section \<open>Updating the devices\<close>

text \<open>Every capability of a device is one the rules put out for the inventory device.\<close>

definition asked_for ::
  "('c, 's, 'x) zdaCapability \<Rightarrow> address \<Rightarrow> inventoryDevice \<Rightarrow> ('c, 's, 'x) ZDA \<Rightarrow> bool" where
  "asked_for C d i z \<longleftrightarrow>
     (\<forall>cf c. map_of (deviceCaps d z) cf = Some c \<longrightarrow> c_ImplName C c \<in> fst ` set (offers i))"

lemma dev_change_ids: "dev_change d z z' \<Longrightarrow> ids d' z' = ids d' z"
  unfolding dev_change_def ids_def by (cases "d' = d") auto

lemma setResults_frame [simp]:
  "ids d' (setResults d errs z) = ids d' z" "getNode b (setResults d errs z) = None \<longleftrightarrow> getNode b z = None"
  "deviceCaps d' (setResults d errs z) = deviceCaps d' z"
  "d' \<noteq> d \<Longrightarrow> getDevice d' (setResults d errs z) = getDevice d' z"
  by (auto simp: setResults_def ids_def deviceCaps_def option.map_comp comp_def split: option.split)

context gateway begin

lemma gateway_ok_setResults:
  assumes "gateway_ok h C z"
  shows "gateway_ok h C (setResults d errs z)"
proof -
  let ?z = "setResults d errs z"
  note m = mirrorsD [OF gateway_okD(1) [OF assms]]
  have dev: "getDevice d' ?z = (if d' = d then map_option (\<lambda>dev. dev\<lparr>results := errs\<rparr>) (getDevice d z)
      else getDevice d' z)" for d'
    by (simp add: setResults_def)
  have "table_wf ?z"
    using m(1) unfolding setResults_def by (intro table_wf_updDevice) (auto dest: table_wfD(3))
  then have "mirrors h C ?z"
    using m by (intro mirrorsI) (auto simp: dev device_ok_def setResults_def split: if_splits)
  moreover have "tableView ?z = tableView z"
    by (rule ext) (simp add: tableView_def dev deviceCapabilities_def option.map_comp comp_def)
  then have "announced ?z" using gateway_okD(2) [OF assms] by (simp add: announced_def setResults_def)
  moreover have "sequences_full ?z"
    using gateway_okD(3) [OF assms] by (subst sequences_full_cong [of _ z]) (simp_all add: setResults_def)
  ultimately show ?thesis by (simp add: gateway_ok_def)
qed

lemma updateDevices_ok:
  assumes "gateway_ok h C z" "\<forall>u d. map_of did u = Some d \<longrightarrow> getDevice d z \<noteq> None"
    and inj: "\<forall>u u' d. map_of did u = Some d \<and> map_of did u' = Some d \<longrightarrow> u = u'"
    and "distinct (map uniqueId is)"
  shows "gateway_ok h C (updateDevices h C did is z) \<and>
    (\<forall>d. ids d (updateDevices h C did is z) = ids d z) \<and>
    (\<forall>b. (getNode b (updateDevices h C did is z) = None) = (getNode b z = None)) \<and>
    (\<forall>d. (\<forall>i \<in> set is. map_of did (uniqueId i) \<noteq> Some d) \<longrightarrow>
       getDevice d (updateDevices h C did is z) = getDevice d z) \<and>
    (\<forall>i \<in> set is. \<forall>d. map_of did (uniqueId i) = Some d \<longrightarrow> asked_for C d i (updateDevices h C did is z))"
  using assms(1,2,4)
proof (induction "is" arbitrary: z)
  case (Cons i is')
  show ?case
  proof (cases "map_of did (uniqueId i)")
    case None
    then have "updateDevices h C did (i # is') z = updateDevices h C did is' z" by simp
    with None Cons.IH [OF Cons.prems(1,2)] Cons.prems(3) show ?thesis by simp
  next
    case (Some d)
    obtain errs z1 where one: "updateCapabilitiesOnDevice h C d i z = (errs, z1)"
      by (cases "updateCapabilitiesOnDevice h C d i z")
    have here: "getDevice d z \<noteq> None" using Cons.prems(2) Some by blast
    note up = updateCapabilitiesOnDevice_ok [OF Cons.prems(1) here one]
    let ?z = "setResults d errs z1" and ?u = "updateDevices h C did is'"
    have step: "updateDevices h C did (i # is') z = ?u ?z" using Some one by simp
    have ids: "ids d' ?z = ids d' z" for d' using dev_change_ids [OF up(2)] by simp
    have ok: "gateway_ok h C ?z" by (rule gateway_ok_setResults [OF up(1)])
    have "\<forall>u d'. map_of did u = Some d' \<longrightarrow> getDevice d' ?z \<noteq> None"
      using Cons.prems(2) ids by (metis ids_None)
    note IH = Cons.IH [OF ok this]
    have d: "map_of did (uniqueId j) \<noteq> Some d" if "j \<in> set is'" for j
      using inj Some Cons.prems(3) that by fastforce
    then have "deviceCaps d (?u ?z) = deviceCaps d z1"
      using IH Cons.prems(3) by (simp add: deviceCaps_def setResults_def split: option.split)
    then have "asked_for C d i (?u ?z)" using up(3) by (simp add: asked_for_def)
    moreover have "getDevice d' (?u ?z) = getDevice d' z"
      if "\<forall>j \<in> set (i # is'). map_of did (uniqueId j) \<noteq> Some d'" for d'
    proof -
      have "getDevice d' (?u ?z) = getDevice d' ?z" using IH Cons.prems(3) that by simp
      also have "\<dots> = getDevice d' z1" using that Some by (intro setResults_frame(4)) auto
      also have "\<dots> = getDevice d' z" using that Some by (intro dev_changeD(1) [OF up(2)]) auto
      finally show ?thesis .
    qed
    moreover have "(getNode b (?u ?z) = None) = (getNode b z = None)" for b
      using IH Cons.prems(3) dev_changeD(2) [OF up(2)] by simp
    ultimately show ?thesis
      unfolding step using IH Cons.prems(3) Some ids by simp
  qed
qed simp

end

section \<open>The whole enumeration\<close>

text \<open>The invariant between the operations: the gateway's own, and that no node has two
  devices with the same unique id or more than half of the sub-identifiers in use.\<close>

definition sys_ok :: "'s host \<Rightarrow> ('c, 's, 'x) zdaCapability \<Rightarrow> ('c, 's, 'x) ZDA \<Rightarrow> bool" where
  "sys_ok h C z \<longleftrightarrow> gateway_ok h C z \<and> (\<forall>a. unique_ids a z \<and> card (subIds a z) \<le> 128)"

lemma sys_okD:
  assumes "sys_ok h C z"
  shows "gateway_ok h C z" "unique_ids a z" "card (subIds a z) \<le> 128"
  using assms by (auto simp: sys_ok_def)

lemma sys_ok_cong:
  assumes "sys_ok h C z" "gateway_ok h C z'" "\<And>d. ids d z' = ids d z"
  shows "sys_ok h C z'"
  using assms unique_ids_cong [of _ z' z] subIds_cong [of _ z' z] by (auto simp: sys_ok_def)

text \<open>\<open>did\<close> pairs the ids of an inventory with the devices of a node, all of which have one.\<close>

definition mapped ::
  "IEEEAddress \<Rightarrow> (int, address) gomap \<Rightarrow> inventoryDevice list \<Rightarrow> ('c, 's, 'x) ZDA \<Rightarrow> bool" where
  "mapped a did is z \<longleftrightarrow>
     keys did = uniqueId ` set is \<and>
     (\<forall>u d. map_of did u = Some d \<longrightarrow> IEEEAddress d = a \<and> ids d z = Some (u, True)) \<and>
     (\<forall>d u b. IEEEAddress d = a \<and> ids d z = Some (u, b) \<longrightarrow> map_of did u = Some d)"

lemma mapped_cong:
  assumes "mapped a did is z" "\<And>d. IEEEAddress d = a \<Longrightarrow> ids d z' = ids d z"
  shows "mapped a did is z'"
  using assms unfolding mapped_def by metis

lemma mapped_known: "mapped a did is z \<Longrightarrow> \<forall>u d. map_of did u = Some d \<longrightarrow> getDevice d z \<noteq> None"
  unfolding mapped_def by (metis ids_None option.distinct(1))

lemma mapped_address: "mapped a did is z \<Longrightarrow> map_of did u = Some d \<Longrightarrow> IEEEAddress d = a"
  unfolding mapped_def by blast

lemma mapped_inj:
  "mapped a did is z \<Longrightarrow> \<forall>u u' d. map_of did u = Some d \<and> map_of did u' = Some d \<longrightarrow> u = u'"
  unfolding mapped_def by (metis fst_conv option.inject)

lemma mapped_devices:
  assumes "mapped a did is z"
  shows "\<forall>i \<in> set is. \<exists>!d. IEEEAddress d = a \<and> ids d z = Some (uniqueId i, True)"
    "\<forall>d. IEEEAddress d = a \<and> getDevice d z \<noteq> None \<longrightarrow>
       (\<exists>i \<in> set is. map_of did (uniqueId i) = Some d \<and> ids d z = Some (uniqueId i, True))"
proof -
  have forth: "IEEEAddress d = a \<and> ids d z = Some (u, True)" if "map_of did u = Some d" for u d
    using assms that unfolding mapped_def by blast
  have bwd: "map_of did u = Some d" if "IEEEAddress d = a" "ids d z = Some (u, b)" for u d b
    using assms that unfolding mapped_def by blast
  have keys: "keys did = uniqueId ` set is" using assms unfolding mapped_def by blast
  show "\<forall>i \<in> set is. \<exists>!d. IEEEAddress d = a \<and> ids d z = Some (uniqueId i, True)"
  proof
    fix i
    assume "i \<in> set is"
    then have "uniqueId i \<in> keys did" using keys by simp
    then obtain d where d: "map_of did (uniqueId i) = Some d" by (rule keys_obtain)
    show "\<exists>!d. IEEEAddress d = a \<and> ids d z = Some (uniqueId i, True)"
    proof (rule ex1I [of _ d])
      show "IEEEAddress d = a \<and> ids d z = Some (uniqueId i, True)" by (rule forth [OF d])
      fix d'
      assume "IEEEAddress d' = a \<and> ids d' z = Some (uniqueId i, True)"
      then have "map_of did (uniqueId i) = Some d'" using bwd by blast
      with d show "d' = d" by simp
    qed
  qed
  show "\<forall>d. IEEEAddress d = a \<and> getDevice d z \<noteq> None \<longrightarrow>
       (\<exists>i \<in> set is. map_of did (uniqueId i) = Some d \<and> ids d z = Some (uniqueId i, True))"
  proof (intro allI impI, elim conjE)
    fix d
    assume d: "IEEEAddress d = a" "getDevice d z \<noteq> None"
    then obtain u b where u: "ids d z = Some (u, b)" by (cases "ids d z") auto
    have m: "map_of did u = Some d" by (rule bwd [OF d(1) u])
    have "u \<in> uniqueId ` set is" using map_of_SomeD_keys [OF m] keys by (simp only:)
    then obtain i where "i \<in> set is" "uniqueId i = u" by auto
    with m forth [OF m] show "\<exists>i \<in> set is. map_of did (uniqueId i) = Some d \<and> ids d z = Some (uniqueId i, True)"
      by (intro bexI [of _ i]) simp_all
  qed
qed

context gateway begin

text \<open>After \<open>updateNodeTable\<close> the map it returns pairs the ids of the inventory with the devices
  of the node.\<close>

lemma updateNodeTable_sys:
  assumes "sys_ok h C z" "getNode a z \<noteq> None" "0 \<notin> uniqueId ` set is" "length is \<le> 128"
    and "updateNodeTable h C a is z = (did, z1)"
  shows "sys_ok h C z1" "mapped a did is z1" "IEEEAddress d \<noteq> a \<Longrightarrow> getDevice d z1 = getDevice d z"
    "(getNode b z1 = None) = (getNode b z = None)"
proof -
  have room: "card (subIds a z) + length is \<le> 256" using sys_okD(3) [OF assms(1), of a] assms(4) by simp
  have zero: "\<forall>d dev. IEEEAddress d = a \<and> getDevice d z = Some dev \<and> \<not> deviceIdSet dev \<longrightarrow> 0 \<notin> uniqueId ` set is"
    using assms(3) by simp
  note t = updateNodeTable_ok [OF sys_okD(1) [OF assms(1)] assms(2) sys_okD(2) [OF assms(1)] zero room assms(5)]
  have bwd: "map_of did v = Some d" if "IEEEAddress d = a" "ids d z1 = Some (v, b)" for d v b
  proof -
    from that(2) obtain dv where dv: "getDevice d z1 = Some dv" "deviceId dv = v" by (auto simp: ids_def)
    from t(5) [OF that(1) dv(1)] dv(2) show ?thesis by simp
  qed
  have forth: "IEEEAddress d = a \<and> ids d z1 = Some (v, True)" if "map_of did v = Some d" for d v
    using t(4) [OF that] by (auto simp: ids_def)
  show "mapped a did is z1"
    unfolding mapped_def
  proof (intro conjI)
    show "keys did = uniqueId ` set is" by (rule t(2))
    show "\<forall>u d. map_of did u = Some d \<longrightarrow> IEEEAddress d = a \<and> ids d z1 = Some (u, True)"
      by (intro allI impI forth)
    show "\<forall>d u b. IEEEAddress d = a \<and> ids d z1 = Some (u, b) \<longrightarrow> map_of did u = Some d"
      by (intro allI impI, elim conjE) (rule bwd)
  qed
  show other: "getDevice d z1 = getDevice d z" if "IEEEAddress d \<noteq> a" for d by (rule t(7) [OF that])
  show "(getNode b z1 = None) = (getNode b z = None)" for b by (rule t(8))
  have id_card: "card (subIds a z1) \<le> 128"
  proof -
    define g where "g = (\<lambda>i. deviceId (the (getDevice (addressOf a i) z1)))"
    have g: "map_of did (g i) = Some (addressOf a i)" if "i \<in> subIds a z1" for i
      using that t(5) [of "addressOf a i"] by (auto simp: subIds_def g_def)
    have "inj_on g (subIds a z1)"
    proof (rule inj_onI)
      fix i j
      assume i: "i \<in> subIds a z1" and j: "j \<in> subIds a z1" and "g i = g j"
      then have "Some (addressOf a i) = Some (addressOf a j)" by (metis g [OF i] g [OF j])
      then show "i = j" by (simp only: option.inject) simp
    qed
    moreover have "g ` subIds a z1 \<subseteq> uniqueId ` set is"
    proof (rule image_subsetI)
      fix i
      assume "i \<in> subIds a z1"
      from map_of_SomeD_keys [OF g [OF this]] show "g i \<in> uniqueId ` set is" unfolding t(2) .
    qed
    ultimately have "card (subIds a z1) \<le> card (uniqueId ` set is)" by (rule card_inj_on_le) simp
    also have "\<dots> \<le> length is" using card_image_le [of "set is" uniqueId] card_length [of "is"] by simp
    finally show ?thesis using assms(4) by simp
  qed
  have "unique_ids b z1 \<and> card (subIds b z1) \<le> 128" for b
  proof (cases "b = a")
    case False
    then have same: "\<And>d. IEEEAddress d = b \<Longrightarrow> ids d z1 = ids d z" using other by (simp add: ids_def)
    have "unique_ids b z1 = unique_ids b z" "subIds b z1 = subIds b z"
      by (rule unique_ids_cong [OF same] subIds_cong [OF same], assumption)+
    then show ?thesis using sys_okD(2,3) [OF assms(1), of b] by simp
  qed (use t(3) id_card in simp)
  then show "sys_ok h C z1" using t(1) by (simp add: sys_ok_def)
qed

lemma enumerate_inventory_ok:
  assumes "sys_ok h C z" "getNode a z \<noteq> None" "distinct (map uniqueId is)" "0 \<notin> uniqueId ` set is"
    and "length is \<le> 128" "updateNodeTable h C a is z = (did, z1)"
  shows "sys_ok h C (updateDevices h C did is z1) \<and>
    (\<forall>b. (getNode b (updateDevices h C did is z1) = None) = (getNode b z = None)) \<and>
    (\<forall>i \<in> set is. \<exists>!d. IEEEAddress d = a \<and> ids d (updateDevices h C did is z1) = Some (uniqueId i, True)) \<and>
    (\<forall>d. IEEEAddress d = a \<and> getDevice d (updateDevices h C did is z1) \<noteq> None \<longrightarrow>
       (\<exists>i \<in> set is. ids d (updateDevices h C did is z1) = Some (uniqueId i, True) \<and>
          asked_for C d i (updateDevices h C did is z1)))"
proof -
  let ?z = "updateDevices h C did is z1"
  note t = updateNodeTable_sys [OF assms(1,2,4-6)]
  note upd = updateDevices_ok [OF sys_okD(1) [OF t(1)] mapped_known [OF t(2)] mapped_inj [OF t(2)] assms(3)]
  then have ids: "ids d ?z = ids d z1" for d by blast
  have put_out: "\<forall>i \<in> set is. \<forall>d. map_of did (uniqueId i) = Some d \<longrightarrow> asked_for C d i ?z"
    using upd by (elim conjE)
  have nodes: "\<forall>b. (getNode b ?z = None) = (getNode b z1 = None)" using upd by (elim conjE)
  have "mapped a did is ?z" by (rule mapped_cong [OF t(2)]) (rule ids)
  note found = mapped_devices [OF this]
  show ?thesis
  proof (intro conjI)
    show "sys_ok h C ?z" by (rule sys_ok_cong [OF t(1) upd [THEN conjunct1] ids])
    show "\<forall>b. (getNode b ?z = None) = (getNode b z = None)" using nodes t(4) by (simp only:) simp
    show "\<forall>i \<in> set is. \<exists>!d. IEEEAddress d = a \<and> ids d ?z = Some (uniqueId i, True)" by (rule found(1))
    show "\<forall>d. IEEEAddress d = a \<and> getDevice d ?z \<noteq> None \<longrightarrow>
       (\<exists>i \<in> set is. ids d ?z = Some (uniqueId i, True) \<and> asked_for C d i ?z)"
      using found(2) put_out by metis
  qed
qed

text \<open>The body: a failed interrogation or a failed rule leaves the table as it was.\<close>

lemma sys_ok_quiet: "sys_ok h C z \<Longrightarrow> quiet (env z) e \<Longrightarrow> sys_ok h C (z\<lparr>env := e\<rparr>)"
  by (rule sys_ok_cong [of h C z]) (auto intro: gateway_ok_quiet sys_okD(1))

lemma enumerateBody_ok:
  assumes "sys_ok h C z" "getNode a z \<noteq> None" "network_ok N" "network_endpoints N"
    and "enumerateBody h C N Z f a z = Returns z'"
  shows "sys_ok h C z' \<and> (\<forall>b. (getNode b z' = None) = (getNode b z = None)) \<and>
    (case interrogateNode N Z a (env z) of
       (Returns (Inr inven), e) \<Rightarrow>
         (case runRules (LogicalTypeString N) f inven of
            Inl err \<Rightarrow> z' = z\<lparr>env := e\<rparr>
          | Inr inven' \<Rightarrow>
              (\<forall>i \<in> set (groupInventoryDevices inven').
                 \<exists>!d. IEEEAddress d = a \<and> ids d z' = Some (uniqueId i, True)) \<and>
              (\<forall>d. IEEEAddress d = a \<and> getDevice d z' \<noteq> None \<longrightarrow>
                 (\<exists>i \<in> set (groupInventoryDevices inven').
                    ids d z' = Some (uniqueId i, True) \<and> asked_for C d i z')))
     | (_, e) \<Rightarrow> z' = z\<lparr>env := e\<rparr>)"
proof -
  obtain r e where r: "interrogateNode N Z a (env z) = (r, e)" by (cases "interrogateNode N Z a (env z)")
  have q: "quiet (env z) e" using quiet_interrogateNode [OF assms(3), of "env z" Z a] r by simp
  note sys = sys_ok_quiet [OF assms(1) q]
  show ?thesis
  proof (cases "\<exists>inven inven'. r = Returns (Inr inven) \<and> runRules (LogicalTypeString N) f inven = Inr inven'")
    case False
    with r sys assms(5) show ?thesis
      by (auto simp: enumerateBody_def split: outcome.splits sum.splits)
  next
    case True
    then obtain inven inven' where i: "r = Returns (Inr inven)"
      "runRules (LogicalTypeString N) f inven = Inr inven'" by blast
    let ?is = "groupInventoryDevices inven'"
    obtain did z1 where t: "updateNodeTable h C a ?is (z\<lparr>env := e\<rparr>) = (did, z1)"
      by (cases "updateNodeTable h C a ?is (z\<lparr>env := e\<rparr>)")
    have z': "z' = updateDevices h C did ?is z1" using assms(5) r i t by (simp add: enumerateBody_def Let_def)
    note ok = inventory_network [OF assms(3,4) r [unfolded i(1)] i(2)]
    have "getNode a (z\<lparr>env := e\<rparr>) \<noteq> None" using assms(2) by simp
    note u = enumerate_inventory_ok [OF sys this ok t, folded z']
    have "\<forall>b. (getNode b z' = None) = (getNode b z = None)" using u by simp
    with u show ?thesis by (simp add: r i)
  qed
qed

text \<open>The whole function. \<open>enumerated\<close> is what it leaves of node \<open>a\<close>, read off the queries made in
  the environment \<open>e\<close>.\<close>

end

definition enumerated ::
  "('c, 's, 'x) zdaCapability \<Rightarrow> ('s, 'x) network \<Rightarrow> zclConstants \<Rightarrow> (Input \<Rightarrow> 'e + Output)
    \<Rightarrow> IEEEAddress \<Rightarrow> ('s, 'x) env \<Rightarrow> ('c, 's, 'x) ZDA \<Rightarrow> ('c, 's, 'x) ZDA \<Rightarrow> bool" where
  "enumerated C N Z f a e z z' \<longleftrightarrow>
     (case fst (interrogateNode N Z a e) of
        Returns (Inr inven) \<Rightarrow>
          (case runRules (LogicalTypeString N) f inven of
             Inl err \<Rightarrow> \<forall>d. getDevice d z' = getDevice d z
           | Inr inven' \<Rightarrow>
               (\<forall>i \<in> set (groupInventoryDevices inven').
                  \<exists>!d. IEEEAddress d = a \<and> ids d z' = Some (uniqueId i, True)) \<and>
               (\<forall>d. IEEEAddress d = a \<and> getDevice d z' \<noteq> None \<longrightarrow>
                  (\<exists>i \<in> set (groupInventoryDevices inven').
                     ids d z' = Some (uniqueId i, True) \<and> asked_for C d i z')))
      | _ \<Rightarrow> \<forall>d. getDevice d z' = getDevice d z)"

lemma enumerated_cong:
  assumes "enumerated C N Z f a e z0 z1" "\<And>d. getDevice d z0 = getDevice d z" "\<And>d. getDevice d z1 = getDevice d z'"
  shows "enumerated C N Z f a e z z'"
proof -
  have "ids d z1 = ids d z'" "deviceCaps d z1 = deviceCaps d z'" for d
    using assms(3) by (simp_all add: ids_def deviceCaps_def)
  then show ?thesis
    using assms by (simp add: enumerated_def asked_for_def cong: outcome.case_cong sum.case_cong)
qed

lemma enumeratedI:
  assumes "case interrogateNode N Z a e of
       (Returns (Inr inven), e') \<Rightarrow>
         (case runRules (LogicalTypeString N) f inven of
            Inl err \<Rightarrow> z' = z\<lparr>env := e'\<rparr>
          | Inr inven' \<Rightarrow>
              (\<forall>i \<in> set (groupInventoryDevices inven').
                 \<exists>!d. IEEEAddress d = a \<and> ids d z' = Some (uniqueId i, True)) \<and>
              (\<forall>d. IEEEAddress d = a \<and> getDevice d z' \<noteq> None \<longrightarrow>
                 (\<exists>i \<in> set (groupInventoryDevices inven').
                    ids d z' = Some (uniqueId i, True) \<and> asked_for C d i z')))
     | (_, e') \<Rightarrow> z' = z\<lparr>env := e'\<rparr>"
  shows "enumerated C N Z f a e z z'"
proof (cases "interrogateNode N Z a e")
  case (Pair r e')
  have same: "getDevice d (z\<lparr>env := e'\<rparr>) = getDevice d z" for d by simp
  show ?thesis
  proof (cases r)
    case Panics
    with assms same show ?thesis unfolding enumerated_def Pair by simp
  next
    case (Returns x)
    show ?thesis
    proof (cases x)
      case (Inl err)
      with assms same Returns show ?thesis unfolding enumerated_def Pair by simp
    next
      case (Inr inven)
      with assms same Returns show ?thesis
        unfolding enumerated_def Pair by (cases "runRules (LogicalTypeString N) f inven") simp_all
    qed
  qed
qed

lemma env_fold_sendEvent: "env (fold (\<lambda>x. zSendEvent (g x)) xs z) = fold (\<lambda>x. sendEvent (g x)) xs (env z)"
  by (induction xs arbitrary: z) simp_all

lemma env_sendStarts: "env (sendStarts a (updNode a f z)) =
    fold (\<lambda>x. sendEvent (EvEnumerateDeviceStart (addressOf a (fst x)))) (devicesOf a (updNode a f z)) (env z)"
  by (simp add: sendStarts_fold env_fold_sendEvent)

context gateway begin

lemma sys_ok_flags: "sys_ok h C z \<Longrightarrow> (\<And>n. device (f n) = device n) \<Longrightarrow> sys_ok h C (updNode a f z)"
  by (rule sys_ok_cong [of h C z]) (auto intro: gateway_ok_flags sys_okD(1) simp: ids_flags)

lemma enumerate_ok:
  assumes "sys_ok h C z" "getNode a z = Some n" "network_ok N" "network_endpoints N"
    and "enumerate h C N Z f a z = Returns z'"
  shows "sys_ok h C z'" "\<And>b. (getNode b z' = None) = (getNode b z = None)"
    "map_option (\<lambda>n. (enumerationState n, enumerationSem n)) (getNode a z') = Some (False, False)"
    "enumerated C N Z f a (fold (\<lambda>(i, _). sendEvent (EvEnumerateDeviceStart (addressOf a i))) (device n) (env z)) z z'"
proof -
  let ?z = "sendStarts a (updNode a (\<lambda>n. n\<lparr>enumerationState := True\<rparr>) z)"
  let ?g = "\<lambda>n :: 'c node. n\<lparr>enumerationState := False, enumerationSem := False\<rparr>"
  obtain z1 where z1: "enumerateBody h C N Z f a ?z = Returns z1" "z' = sendStops a (updNode a ?g z1)"
    using assms(5) by (auto simp: enumerate_def split: outcome.splits)
  have sys: "sys_ok h C ?z"
    by (rule sys_ok_cong [of h C "updNode a (\<lambda>n. n\<lparr>enumerationState := True\<rparr>) z"])
       (use assms(1) in \<open>auto intro!: sys_ok_flags gateway_ok_sendStarts gateway_ok_flags dest: sys_okD(1)\<close>)
  have dev: "getDevice d ?z = getDevice d z" for d by (simp add: getDevice_updNode_device)
  have node: "getNode a ?z \<noteq> None" using assms(2) by simp
  note body = enumerateBody_ok [OF sys node assms(3,4) z1(1)]
  have dev': "getDevice d z1 = getDevice d z'" for d by (simp add: z1(2) getDevice_updNode_device)
  show "sys_ok h C z'"
    unfolding z1(2)
    by (rule sys_ok_cong [of h C "updNode a ?g z1"])
       (use body in \<open>auto intro!: sys_ok_flags gateway_ok_sendStops gateway_ok_flags dest: sys_okD(1)\<close>)
  show "(getNode b z' = None) = (getNode b z = None)" for b
    using body by (simp add: z1(2))
  show "map_option (\<lambda>n. (enumerationState n, enumerationSem n)) (getNode a z') = Some (False, False)"
  proof -
    have "getNode a z1 \<noteq> None" using body [THEN conjunct2, THEN conjunct1, rule_format, of a] node by metis
    then show ?thesis by (auto simp: z1(2) getNode_updNode)
  qed
  have "devicesOf a (updNode a (\<lambda>n. n\<lparr>enumerationState := True\<rparr>) z) = device n"
    using assms(2) by (simp add: devicesOf_def getNode_updNode)
  then have env: "env ?z = fold (\<lambda>(i, _). sendEvent (EvEnumerateDeviceStart (addressOf a i))) (device n) (env z)"
    unfolding env_sendStarts by (simp, intro fold_cong) auto
  have "enumerated C N Z f a (env ?z) ?z z1"
    by (rule enumeratedI [OF body [THEN conjunct2, THEN conjunct2]])
  from enumerated_cong [OF this dev dev']
  show "enumerated C N Z f a (fold (\<lambda>(i, _). sendEvent (EvEnumerateDeviceStart (addressOf a i))) (device n) (env z)) z z'"
    unfolding env .
qed

lemma startEnumeration_cases:
  "snd (startEnumeration a z) = z \<or> snd (startEnumeration a z) = updNode a (\<lambda>n. n\<lparr>enumerationSem := True\<rparr>) z"
  by (simp add: startEnumeration_def split: option.split)

lemma sys_ok_startEnumeration: "sys_ok h C z \<Longrightarrow> sys_ok h C (snd (startEnumeration a z))"
  using startEnumeration_cases [of a z] sys_ok_flags [of z "\<lambda>n. n\<lparr>enumerationSem := True\<rparr>" a] by auto

lemma getDevice_startEnumeration [simp]: "getDevice d (snd (startEnumeration a z)) = getDevice d z"
  using startEnumeration_cases [of a z]
    getDevice_updNode_device [of "\<lambda>n. n\<lparr>enumerationSem := True\<rparr>" d a z] by auto

lemma getNode_startEnumeration [simp]: "getNode b (snd (startEnumeration a z)) = None \<longleftrightarrow> getNode b z = None"
  using startEnumeration_cases [of a z] by auto

end

end
