(* ===== verification/Provider.thy ===== *)
theory Provider
  imports Enumerate_Node
begin

text \<open>
  \<open>provider_load.go\<close> and \<open>provider_loop.go\<close>: the table is rebuilt from the persistence store
  when the gateway starts, and follows the joins and leaves the Zigbee provider reports.
\<close>

section \<open>Loading\<close>

text \<open>One section below \<open>Capability\<close>. A section without an implementation name, or with a
  name the factory does not know, is skipped; so is a capability whose \<open>Load\<close> declines.\<close>

definition loadCapability ::
  "'s host \<Rightarrow> ('c, 's, 'x) zdaCapability \<Rightarrow> address \<Rightarrow> string \<Rightarrow> ('c, 's, 'x) ZDA \<Rightarrow> ('c, 's, 'x) ZDA" where
  "loadCapability h C d cName z =
     (let p = capabilityRoot h d @ [cName];
          z1 = onStore (p_section (persist h) p) z
      in case sectionString (persist h) p ''Implementation'' (store (env z1)) of
           None \<Rightarrow> z1
         | Some capImpl \<Rightarrow>
             (case c_Create C capImpl (env z1) of
                (None, e2) \<Rightarrow> z1\<lparr>env := e2\<rparr>
              | (Some c, e2) \<Rightarrow>
                  (let e3 = e2\<lparr>store := p_section (persist h) (p @ [''Data'']) (store e2)\<rparr> in
                   case c_Init C d (p @ [''Data'']) c e3 of
                     (c1, e4) \<Rightarrow>
                       (case c_Load C c1 e4 of
                          ((attached, err), c2, e5) \<Rightarrow>
                            (let z2 = z1\<lparr>env := e5\<rparr>
                             in if attached then attachCapabilityToDevice h C d c2 z2 else z2)))))"

definition providerLoadDevice ::
  "'s host \<Rightarrow> ('c, 's, 'x) zdaCapability \<Rightarrow> IEEEAddress \<Rightarrow> address \<Rightarrow> ('c, 's, 'x) ZDA \<Rightarrow> ('c, 's, 'x) ZDA" where
  "providerLoadDevice h C a i z =
     (case createSpecificDevice h a (SubIdentifier i) z of
        (d, z1) \<Rightarrow>
          (let z2 = onStore (sectionForDevice h i) z1;
               z3 = (case sectionInt (persist h) (devicePath h i) ''UniqueId'' (store (env z2)) of
                       None \<Rightarrow> z2
                     | Some n \<Rightarrow> setDeviceUniqueId h d n z2);
               z4 = onStore (p_section (persist h) (capabilityRoot h i)) z3
           in fold (loadCapability h C d) (p_keys (persist h) (capabilityRoot h i) (store (env z4))) z4))"

definition providerLoadNode ::
  "'s host \<Rightarrow> ('c, 's, 'x) zdaCapability \<Rightarrow> IEEEAddress \<Rightarrow> ('c, 's, 'x) ZDA \<Rightarrow> ('c, 's, 'x) ZDA" where
  "providerLoadNode h C a z =
     (case createNode h a z of
        (_, z1) \<Rightarrow>
          (case deviceListFromPersistence h a (store (env z1)) of
             (ds, s) \<Rightarrow> fold (providerLoadDevice h C a) ds (onStore (\<lambda>_. s) z1)))"

definition providerLoad ::
  "'s host \<Rightarrow> ('c, 's, 'x) zdaCapability \<Rightarrow> ('c, 's, 'x) ZDA \<Rightarrow> ('c, 's, 'x) ZDA" where
  "providerLoad h C z =
     (case nodeListFromPersistence h (store (env z)) of
        (as, s) \<Rightarrow> fold (providerLoadNode h C) as (onStore (\<lambda>_. s) z))"

section \<open>Events of the provider\<close>

text \<open>A join is acted on only when the node is new. The callback for it, the only one the
  gateway adds, is \<open>onNodeJoin\<close>.\<close>

definition receiveNodeJoinEvent :: "'s host \<Rightarrow> IEEEAddress \<Rightarrow> ('c, 's, 'x) ZDA \<Rightarrow> ('c, 's, 'x) ZDA" where
  "receiveNodeJoinEvent h a z =
     (case createNode h a z of
        (created, z1) \<Rightarrow> if created then snd (onNodeJoin a (snd (createNextDevice h a z1))) else z1)"

definition receiveNodeLeaveEvent ::
  "'s host \<Rightarrow> ('c, 's, 'x) zdaCapability \<Rightarrow> IEEEAddress \<Rightarrow> ('c, 's, 'x) ZDA \<Rightarrow> ('c, 's, 'x) ZDA" where
  "receiveNodeLeaveEvent h C a z =
     (case getNode a z of
        None \<Rightarrow> z
      | Some n \<Rightarrow> snd (removeNode h a (removeDevices h C (getDevicesOnNode a n) z)))"

text \<open>What the provider's \<open>ReadEvent\<close> returns. Incoming messages go to the ZCL communicator,
  which parses them and calls the handlers registered with it; \<open>process\<close> is that, as a
  function on the gateway (\<open>Messages\<close> gives it). Its errors are only logged; a panic in a
  handler ends the process.\<close>

datatype 'm providerEvent = NodeJoinEvent IEEEAddress | NodeLeaveEvent IEEEAddress
  | NodeIncomingMessageEvent 'm | OtherEvent

definition handleEvent ::
  "'s host \<Rightarrow> ('c, 's, 'x) zdaCapability \<Rightarrow> ('m \<Rightarrow> ('c, 's, 'x) ZDA \<Rightarrow> ('c, 's, 'x) ZDA outcome)
    \<Rightarrow> 'm providerEvent \<Rightarrow> ('c, 's, 'x) ZDA \<Rightarrow> ('c, 's, 'x) ZDA outcome" where
  "handleEvent h C process ev z =
     (case ev of
        NodeJoinEvent a \<Rightarrow> Returns (receiveNodeJoinEvent h a z)
      | NodeLeaveEvent a \<Rightarrow> Returns (receiveNodeLeaveEvent h C a z)
      | NodeIncomingMessageEvent m \<Rightarrow> process m z
      | OtherEvent \<Rightarrow> Returns z)"

text \<open>The loop over the results of \<open>ReadEvent\<close>: an expired deadline is no reason to stop, any
  other error is; with an error the event is nil, which no case of the switch takes. The
  result says whether the loop has returned.\<close>

fun providerLoop ::
  "'s host \<Rightarrow> ('c, 's, 'x) zdaCapability \<Rightarrow> ('m \<Rightarrow> ('c, 's, 'x) ZDA \<Rightarrow> ('c, 's, 'x) ZDA outcome)
    \<Rightarrow> (goerr + 'm providerEvent) list \<Rightarrow> ('c, 's, 'x) ZDA \<Rightarrow> (bool \<times> ('c, 's, 'x) ZDA) outcome" where
  "providerLoop h C process [] z = Returns (False, z)"
| "providerLoop h C process (Inl err # rs) z =
     (if errorsIs err DeadlineExceeded then providerLoop h C process rs z else Returns (True, z))"
| "providerLoop h C process (Inr ev # rs) z =
     (case handleEvent h C process ev z of
        Panics \<Rightarrow> Panics
      | Returns z1 \<Rightarrow> providerLoop h C process rs z1)"

section \<open>Joining and leaving\<close>

lemma sys_ok_subset:
  assumes "sys_ok h C z" "gateway_ok h C z'" "\<And>d. ids d z' \<noteq> None \<Longrightarrow> ids d z' = ids d z"
  shows "sys_ok h C z'"
  unfolding sys_ok_def
proof (intro conjI allI assms(2))
  fix a
  show "unique_ids a z'"
    using sys_okD(2) [OF assms(1), of a] assms(3) unfolding unique_ids_ids by (metis option.distinct(1))
  have "subIds a z' \<subseteq> subIds a z"
  proof
    fix i
    assume "i \<in> subIds a z'"
    then show "i \<in> subIds a z" using assms(3) [of "addressOf a i"] unfolding subIds_ids mem_Collect_eq by metis
  qed
  then have "card (subIds a z') \<le> card (subIds a z)" by (rule card_mono [rotated]) simp
  with sys_okD(3) [OF assms(1), of a] show "card (subIds a z') \<le> 128" by simp
qed

context gateway begin

lemma createNode_table:
  "getNode b (snd (createNode h a z)) = (if b = a \<and> getNode a z = None then Some newNode else getNode b z)"
  "getDevice d (snd (createNode h a z)) = getDevice d z" "fst (createNode h a z) \<longleftrightarrow> getNode a z = None"
  by (auto simp: createNode_def getNode_def getDevice_def newNode_def split: option.split)

lemma removeNode_table:
  "getNode b (snd (removeNode h a z)) = (if b = a then None else getNode b z)"
  "getDevice d (snd (removeNode h a z)) = (if IEEEAddress d = a then None else getDevice d z)"
  by (auto simp: removeNode_def getNode_def getDevice_def split: option.split)

text \<open>A join makes an unknown node known, with one device that has no identity yet, and holds
  its semaphore for the enumeration it starts; for a known node it does nothing.\<close>

text \<open>A node that was not there, with the one device it is given.\<close>

lemma sys_ok_first_device:
  assumes "sys_ok h C z" "gateway_ok h C z2" "getNode a z = None"
    and dev: "\<And>d. getDevice d z2 = (if d = addressOf a 0 then Some newDevice else getDevice d z)"
  shows "sys_ok h C z2"
  unfolding sys_ok_def
proof (intro conjI allI assms(2))
  fix b
  have ids: "ids d z2 = (if d = addressOf a 0 then Some (0, False) else ids d z)" for d
    by (simp add: ids_def dev newDevice_def)
  show "unique_ids b z2"
    using sys_okD(2) [OF assms(1), of b] unfolding unique_ids_ids ids by (auto split: if_splits)
  show "card (subIds b z2) \<le> 128"
  proof (cases "b = a")
    case True
    have "getDevice d z = None" if "IEEEAddress d = a" for d using assms(3) that by (simp add: getDevice_def)
    with True have "subIds b z2 = {0}" by (auto simp: subIds_def dev address_eq_iff split: if_splits)
    then show ?thesis by simp
  next
    case False
    then have "subIds b z2 = subIds b z" by (intro subIds_cong) (auto simp: ids)
    then show ?thesis using sys_okD(3) [OF assms(1), of b] by simp
  qed
qed

lemma join_ok:
  assumes "sys_ok h C z"
  shows "sys_ok h C (receiveNodeJoinEvent h a z) \<and>
    (getNode a z \<noteq> None \<longrightarrow> receiveNodeJoinEvent h a z = z) \<and>
    (getNode a z = None \<longrightarrow>
       (\<exists>n. getNode a (receiveNodeJoinEvent h a z) = Some n \<and> enumerationSem n \<and> \<not> enumerationState n) \<and>
       (\<forall>b. b \<noteq> a \<longrightarrow> (getNode b (receiveNodeJoinEvent h a z) = None) = (getNode b z = None)) \<and>
       (\<forall>d. getDevice d (receiveNodeJoinEvent h a z) =
          (if d = addressOf a 0 then Some newDevice else getDevice d z)))"
proof (cases "getNode a z")
  case (Some n)
  then have "createNode h a z = (False, z)" by (simp add: createNode_def getNode_def)
  with Some assms show ?thesis by (simp add: receiveNodeJoinEvent_def)
next
  case None
  let ?z1 = "snd (createNode h a z)" and ?z = "receiveNodeJoinEvent h a z"
  let ?z2 = "snd (createNextDevice h a ?z1)"
  have node: "getNode a ?z1 = Some newNode" using None by (simp add: createNode_table)
  have ok1: "gateway_ok h C ?z1" by (rule gateway_ok_createNode [OF sys_okD(1) [OF assms]])
  have ok2: "gateway_ok h C ?z2"
    by (rule gateway_ok_createNextDevice [OF ok1 node]) (simp add: newNode_def)
  have "nextDeviceSubIdentifier (device (newNode :: 'c node)) = 0"
    by (simp add: newNode_def nextDeviceSubIdentifier_def upt_conv_Cons)
  then have next0: "createNextDevice h a ?z1 = createSpecificDevice h a 0 ?z1"
    using createNextDevice_specific [OF node] by (simp only:)
  have node': "getNode a ?z1 \<noteq> None" using node by simp
  have dev: "getDevice d ?z2 = (if d = addressOf a 0 then Some newDevice else getDevice d z)" for d
    unfolding next0 createSpecificDevice_devices [OF node'] createNode_table ..
  have z: "?z = snd (startEnumeration a ?z2)"
    using None createNode_table(3) [of a z]
    by (cases "createNode h a z") (simp add: receiveNodeJoinEvent_def onNodeJoin_def)
  have "sys_ok h C ?z2" by (rule sys_ok_first_device [OF assms ok2 None dev])
  then have "sys_ok h C ?z" unfolding z by (rule sys_ok_startEnumeration)
  moreover have "\<exists>n. getNode a ?z = Some n \<and> enumerationSem n \<and> \<not> enumerationState n"
  proof -
    have "\<exists>n. getNode a ?z2 = Some n \<and> \<not> enumerationSem n \<and> \<not> enumerationState n"
      using node unfolding next0
      by (auto simp: createSpecificDevice_def Let_def getNode_updNode newNode_def)
    then show ?thesis unfolding z by (auto simp: startEnumeration_def getNode_updNode)
  qed
  moreover have "(getNode b ?z = None) = (getNode b z = None)" if "b \<noteq> a" for b
    unfolding z getNode_startEnumeration next0 createSpecificDevice_devices [OF node'] createNode_table
    using that by simp
  moreover have "getDevice d ?z = getDevice d ?z2" for d
    unfolding z by simp
  ultimately show ?thesis using None dev by simp
qed

text \<open>A leave removes a node with all its devices.\<close>

lemma leave_ok:
  assumes "sys_ok h C z"
  shows "sys_ok h C (receiveNodeLeaveEvent h C a z) \<and>
    (\<forall>b. (getNode b (receiveNodeLeaveEvent h C a z) = None) = (b = a \<or> getNode b z = None)) \<and>
    (\<forall>d. getDevice d (receiveNodeLeaveEvent h C a z) = (if IEEEAddress d = a then None else getDevice d z))"
proof (cases "getNode a z")
  case None
  with assms show ?thesis by (auto simp: receiveNodeLeaveEvent_def getDevice_def)
next
  case (Some n)
  let ?ds = "getDevicesOnNode a n"
  let ?z1 = "removeDevices h C ?ds z" and ?z = "receiveNodeLeaveEvent h C a z"
  have z: "?z = snd (removeNode h a ?z1)" using Some by (simp add: receiveNodeLeaveEvent_def)
  have wf: "wf_map (device n)"
    using mirrorsD(1) [OF gateway_okD(1) [OF sys_okD(1) [OF assms]]] Some by (auto simp: table_wf_def)
  note r = removeDevices_ok [OF sys_okD(1) [OF assms], of ?ds]
  have all: "d \<in> set ?ds" if "IEEEAddress d = a" "getDevice d z \<noteq> None" for d
  proof -
    from that Some obtain dev where "map_of (device n) (SubIdentifier d) = Some dev" by (auto simp: getDevice_def)
    from map_of_SomeD [OF this] that(1) show ?thesis
      by (auto simp: getDevicesOnNode_def image_iff address_eq_iff intro!: bexI)
  qed
  have on: "IEEEAddress d = a" if "d \<in> set ?ds" for d using that by (auto simp: getDevicesOnNode_def)
  have dev: "getDevice d ?z1 = (if IEEEAddress d = a then None else getDevice d z)" for d
    using r [THEN conjunct2, THEN conjunct1, rule_format, of d] all [of d] on [of d]
    by (cases "IEEEAddress d = a"; cases "d \<in> set ?ds") metis+
  have ok: "gateway_ok h C ?z" unfolding z
  proof (rule gateway_ok_removeNode)
    show "gateway_ok h C ?z1" by (rule r [THEN conjunct1])
  qed (simp add: dev)
  have dev': "getDevice d ?z = (if IEEEAddress d = a then None else getDevice d z)" for d
    unfolding z removeNode_table dev by simp
  then have "sys_ok h C ?z" by (intro sys_ok_subset [OF assms ok]) (auto simp: ids_def split: if_splits)
  moreover have "(getNode b ?z = None) = (b = a \<or> getNode b z = None)" for b
    unfolding z removeNode_table using r by simp
  ultimately show ?thesis using dev' by simp
qed

end

end
