(* ===== verification/Messages.thy ===== *)
theory Messages
  imports Implementations Provider
begin

text \<open>
  Messages from nodes: \<open>receiveNodeIncomingMessageEvent\<close> hands them to the ZCL communicator,
  which parses them and calls the handler of every match registered with it whose filter
  accepts the message. The matches are those of the attribute monitors of the capabilities in
  the table; parsing is a parameter. Handlers run one after the other, in the order of the
  table.
\<close>

section \<open>Delivery to one capability\<close>

fun implMonitors :: "implementation \<Rightarrow> zclMonitor list" where
  "implMonitors (ImplTemperature i) = [s_monitor i]"
| "implMonitors (ImplHumidity i) = [s_monitor i]"
| "implMonitors (ImplPressure i) = [s_monitor i]"
| "implMonitors (ImplIdentify i) = [id_monitor i]"
| "implMonitors (ImplPower i) = powerMonitors i"
| "implMonitors (ImplProduct _) = []"
| "implMonitors (ImplWorkaround _) = []"

text \<open>The matches of an implementation that accept a message, one entry for each.\<close>

definition matching :: "zclMessage \<Rightarrow> implementation \<Rightarrow> zclMonitor list" where
  "matching msg c =
     concat (map (\<lambda>m. replicate (length (m_registered m)) m) (filter (\<lambda>m. zclFilter m msg) (implMonitors c)))"

definition applyUpdates ::
  "('s, 'x) zdaInterface \<Rightarrow> (AttributeID \<times> AttributeDataTypeValue) list \<Rightarrow> implementation \<times> ('s, 'x) env
    \<Rightarrow> implementation \<times> ('s, 'x) env" where
  "applyUpdates I vs = fold (\<lambda>v (c, e). implUpdate I v c e) vs"

definition deliverTo ::
  "('s, 'x) zdaInterface \<Rightarrow> zclMessage \<Rightarrow> implementation \<Rightarrow> ('s, 'x) env
    \<Rightarrow> (implementation \<times> ('s, 'x) env) outcome" where
  "deliverTo I msg c e =
     (if list_ex (\<lambda>m. snd (zclMessageCalls m msg)) (matching msg c) then Panics
      else Returns (applyUpdates I (concat (map (\<lambda>m. fst (zclMessageCalls m msg)) (matching msg c))) (c, e)))"

section \<open>Delivery to the table\<close>

definition capabilitySlots :: "('c, 's, 'x) ZDA \<Rightarrow> (address \<times> Capability) list" where
  "capabilitySlots z = concat (map (\<lambda>d. map (\<lambda>cf. (d, cf)) (map fst (deviceCaps d z))) (getDevices z))"

fun deliverAll ::
  "('s, 'x) zdaInterface \<Rightarrow> zclMessage \<Rightarrow> (address \<times> Capability) list \<Rightarrow> (implementation, 's, 'x) ZDA
    \<Rightarrow> (implementation, 's, 'x) ZDA outcome" where
  "deliverAll I msg [] z = Returns z"
| "deliverAll I msg ((d, cf) # slots) z =
     (case map_of (deviceCaps d z) cf of
        None \<Rightarrow> deliverAll I msg slots z
      | Some c \<Rightarrow>
          (case deliverTo I msg c (env z) of
             Panics \<Rightarrow> Panics
           | Returns (c', e') \<Rightarrow> deliverAll I msg slots (writeBack d cf c' (z\<lparr>env := e'\<rparr>))))"

definition receiveNodeIncomingMessageEvent ::
  "('s, 'x) zdaInterface \<Rightarrow> ('m \<Rightarrow> goerr + zclMessage) \<Rightarrow> 'm \<Rightarrow> (implementation, 's, 'x) ZDA
    \<Rightarrow> (implementation, 's, 'x) ZDA outcome" where
  "receiveNodeIncomingMessageEvent I parse m z =
     (case parse m of
        Inl err \<Rightarrow> Returns z
      | Inr msg \<Rightarrow> deliverAll I msg (capabilitySlots z) z)"

section \<open>What a delivery changes\<close>

lemma sensor_events:
  "\<not> table_event (k_event (temperatureSensor I) d x)" "\<not> table_event (k_event (humiditySensor I) d x)"
  "\<not> table_event (k_event (pressureSensor I) d x)"
  by (simp_all add: temperatureSensor_def humiditySensor_def pressureSensor_def)

lemma implUpdate_contract:
  assumes S: "section_store (sections I)" and up: "implUpdate I v c e = (c', e')"
  shows "implCapability c' = implCapability c \<and> implName c' = implName c \<and> implSection c' = implSection c \<and>
    cap_effect (sections I) (implSection c) e e'"
proof (cases c)
  case (ImplIdentify i)
  with up obtain i' where i': "identifyUpdate I v i e = (i', e')" "c' = ImplIdentify i'"
    by (auto simp: map_prod_def split: prod.splits)
  show ?thesis
  proof (cases "i' = i \<and> e' = e")
    case False
    with i'(1) obtain w where "updateDuration I w i e = (i', e')"
      by (auto simp: identifyUpdate_def split: if_splits option.splits)
    from updateDuration_effect [OF this S sectionOf_below(1) cap_effect_refl]
    show ?thesis using ImplIdentify i'(2) by simp
  qed (use ImplIdentify i'(2) in simp)
next
  case (ImplPower i)
  with up powerUpdate_effect [OF S powerSection_below(1) cap_effect_refl] show ?thesis by (cases v) auto
next
  case (ImplTemperature i)
  with up show ?thesis
    by (auto simp: sensor_instances
        intro!: sensor_effects(4) [OF S sectionOf_below(2) cap_effect_refl sectionOf_below(1)] sensor_events)
next
  case (ImplHumidity i)
  with up show ?thesis
    by (auto simp: sensor_instances
        intro!: sensor_effects(4) [OF S sectionOf_below(2) cap_effect_refl sectionOf_below(1)] sensor_events)
next
  case (ImplPressure i)
  with up show ?thesis
    by (auto simp: sensor_instances
        intro!: sensor_effects(4) [OF S sectionOf_below(2) cap_effect_refl sectionOf_below(1)] sensor_events)
qed (use up in auto)

lemma applyUpdates_contract:
  assumes "section_store (sections I)" "applyUpdates I vs (c, e) = (c', e')"
  shows "implCapability c' = implCapability c \<and> implName c' = implName c \<and> implSection c' = implSection c \<and>
    cap_effect (sections I) (implSection c) e e'"
  using assms(2)
proof (induction vs arbitrary: c e)
  case (Cons v vs)
  obtain c1 e1 where one: "implUpdate I v c e = (c1, e1)" by (cases "implUpdate I v c e")
  with Cons.prems have "applyUpdates I vs (c1, e1) = (c', e')" by (simp add: applyUpdates_def)
  from Cons.IH [OF this] implUpdate_contract [OF assms(1) one] show ?case
    by (auto intro: cap_effect_trans)
qed (simp add: applyUpdates_def)

lemma deliverTo_contract:
  assumes "section_store (sections I)" "deliverTo I msg c e = Returns (c', e')"
  shows "implCapability c' = implCapability c \<and> implName c' = implName c \<and> implSection c' = implSection c \<and>
    cap_effect (sections I) (implSection c) e e'"
  using assms applyUpdates_contract [OF assms(1), of _ c e c' e']
  by (simp add: deliverTo_def split: if_splits)

text \<open>Between two tables: the same nodes, devices and identities, the same implementations.\<close>

definition same_table :: "(implementation, 's, 'x) ZDA \<Rightarrow> (implementation, 's, 'x) ZDA \<Rightarrow> bool" where
  "same_table z z' \<longleftrightarrow>
     (\<forall>a. (getNode a z' = None) = (getNode a z = None)) \<and> (\<forall>d. ids d z' = ids d z) \<and>
     (\<forall>d cf. map_option implName (map_of (deviceCaps d z') cf) = map_option implName (map_of (deviceCaps d z) cf))"

lemma same_table_refl [simp, intro]: "same_table z z"
  by (simp add: same_table_def)

lemma same_table_trans: "same_table z z' \<Longrightarrow> same_table z' z'' \<Longrightarrow> same_table z z''"
  by (simp add: same_table_def)

context zda begin

lemma sections_ok: "section_store (sections I)"
  using host_okD(1) [OF documented] by (simp add: same_store)

text \<open>Anything a capability of the table does within its section keeps the invariant.\<close>

lemma capability_acts:
  assumes "sys_ok h (Implementations I) z" "map_of (deviceCaps d z) cf = Some c"
    and "cap_effect (persist h) (implSection c) (env z) e"
    and "implCapability c' = implCapability c" "implName c' = implName c" "implSection c' = implSection c"
  shows "sys_ok h (Implementations I) (writeBack d cf c' (z\<lparr>env := e\<rparr>))"
    "same_table z (writeBack d cf c' (z\<lparr>env := e\<rparr>))"
proof -
  let ?z = "writeBack d cf c' (z\<lparr>env := e\<rparr>)"
  obtain dev where dev: "getDevice d z = Some dev" "map_of (capabilities dev) cf = Some c"
    using assms(2) by (auto simp: deviceCaps_def split: option.splits)
  have ok: "gateway_ok h (Implementations I) ?z"
    by (rule gateway_ok_writeBack [OF sys_okD(1) [OF assms(1)] dev]) (use assms(3-6) in simp_all)
  have ids: "ids d' ?z = ids d' z" for d'
    by (simp add: ids_def writeBack_def option.map_comp comp_def)
  show "sys_ok h (Implementations I) ?z" by (rule sys_ok_cong [OF assms(1) ok ids])
  show "same_table z ?z"
    using assms(2,5) dev ids by (auto simp: same_table_def writeBack_def deviceCaps_def)
qed

lemma deliverAll_ok:
  assumes "sys_ok h (Implementations I) z" "deliverAll I msg slots z = Returns z'"
  shows "sys_ok h (Implementations I) z' \<and> same_table z z'"
  using assms
proof (induction slots arbitrary: z)
  case (Cons s slots)
  obtain d cf where s: "s = (d, cf)" by (cases s)
  show ?case
  proof (cases "map_of (deviceCaps d z) cf")
    case None
    with Cons s show ?thesis by simp
  next
    case (Some c)
    with Cons.prems(2) s obtain c1 e1 where one: "deliverTo I msg c (env z) = Returns (c1, e1)"
      and rest: "deliverAll I msg slots (writeBack d cf c1 (z\<lparr>env := e1\<rparr>)) = Returns z'"
      by (auto split: outcome.splits)
    note k = deliverTo_contract [OF sections_ok one]
    note act = capability_acts [OF Cons.prems(1) Some, of e1 c1]
    have ok1: "sys_ok h (Implementations I) (writeBack d cf c1 (z\<lparr>env := e1\<rparr>))"
      and t1: "same_table z (writeBack d cf c1 (z\<lparr>env := e1\<rparr>))"
      using act k by (simp_all add: same_store)
    from Cons.IH [OF ok1 rest] t1 show ?thesis by (blast intro: same_table_trans)
  qed
qed simp

lemma message_ok:
  assumes "sys_ok h (Implementations I) z" "receiveNodeIncomingMessageEvent I parse m z = Returns z'"
  shows "sys_ok h (Implementations I) z'" "same_table z z'"
  using deliverAll_ok [OF assms(1)] assms
  by (auto simp: receiveNodeIncomingMessageEvent_def split: sum.splits)

end

end
