(* ===== verification/Capability_Properties.thy ===== *)
theory Capability_Properties
  imports Messages
begin

text \<open>
  What the implementations promise their users: readings that follow the reports within their
  threshold, conversions within a rounding error, and what survives a restart.
\<close>

section \<open>Reading what was stored\<close>

lemma readClock_store [simp]: "store (snd (readClock I e)) = store e"
  by (simp add: readClock_def split: prod.split)

lemma readClock_events [simp]: "events (snd (readClock I e)) = events e"
  by (simp add: readClock_def split: prod.split)

lemma storeNow_store:
  "store (storeNow I p k e) = p_set (sections I) p k (encTime I (fst (readClock I e))) (store e)"
  using readClock_store [of I e] by (cases "readClock I e") (simp add: storeNow_def putKey_def)

lemma storeNow_events [simp]: "events (storeNow I p k e) = events e"
  using readClock_events [of I e] by (cases "readClock I e") (simp add: storeNow_def putKey_def)

lemma putKey_store [simp]:
  "store (putKey I p k v e) = p_set (sections I) p k v (store e)" "events (putKey I p k v e) = events e"
  by (simp_all add: putKey_def)

lemma floatKey_sendEvent [simp]: "floatKey I p k (sendEvent ev e) = floatKey I p k e"
  by (simp add: floatKey_def)

lemma floatKey_putKey:
  "section_store (sections I) \<Longrightarrow> floatKey I p j (putKey I p k (PFloat x) e) = (if j = k then x else floatKey I p j e)"
  by (simp add: floatKey_def sectionFloat_def section_store.get_set)

lemma floatKey_storeNow:
  "section_store (sections I) \<Longrightarrow> j \<noteq> k \<Longrightarrow> floatKey I p j (storeNow I p k e) = floatKey I p j e"
  by (simp add: floatKey_def sectionFloat_def section_store.get_set storeNow_store)

lemma reading_keys [simp]:
  "ReadingKey \<noteq> LastChangedKey" "ReadingKey \<noteq> LastUpdatedKey" "LastChangedKey \<noteq> LastUpdatedKey"
  by (simp_all add: implementation_keys)

section \<open>Sensors\<close>

lemma within_threshold:
  assumes "\<not> float64 t < \<bar>fsub x y\<bar>"
  shows "\<bar>x - y\<bar> \<le> float64 t * (1 + 1 / 2 ^ 52)"
proof -
  have e: "\<bar>float64 (x - y) - (x - y)\<bar> \<le> \<bar>x - y\<bar> / 2 ^ 53" by (rule float64_error)
  have f: "\<bar>float64 (x - y)\<bar> \<le> float64 t" using assms by (simp add: fsub_def)
  then have t: "0 \<le> float64 t" by linarith
  from e have "\<bar>x - y\<bar> \<le> \<bar>float64 (x - y)\<bar> + \<bar>x - y\<bar> / 2 ^ 53" by linarith
  with f have "9007199254740991 * \<bar>x - y\<bar> \<le> 9007199254740992 * float64 t" by simp
  with t show ?thesis by simp
qed

lemma sensorUpdate_report:
  assumes "section_store (sections I)" "DataType (snd v) = k_dataType k" "k_convert k (Value (snd v)) = Some new"
  shows "(sensorReading I i (sensorUpdate k I v i e) = new \<and>
      events (sensorUpdate k I v i e) = events e @ [k_event k (s_device i) new] \<or>
     sensorReading I i (sensorUpdate k I v i e) = sensorReading I i e \<and>
      events (sensorUpdate k I v i e) = events e \<and>
      \<bar>new - sensorReading I i e\<bar> \<le> float64 (k_threshold k) * (1 + 1 / 2 ^ 52)) \<and>
    (\<exists>t. p_get (sections I) (s_section i) LastUpdatedKey (store (sensorUpdate k I v i e)) = Some (encTime I t))"
proof (cases "float64 (k_threshold k) < \<bar>fsub new (sensorReading I i e)\<bar>")
  case True
  let ?e1 = "sendEvent (k_event k (s_device i) new)
    (storeNow I (s_section i) LastChangedKey (putKey I (s_section i) ReadingKey (PFloat new) e))"
  have "sensorUpdate k I v i e = storeNow I (s_section i) LastUpdatedKey ?e1"
    using True assms(2,3) by (simp add: sensorUpdate_def sensorReading_def Let_def)
  then show ?thesis
    using assms(1)
    by (auto simp: sensorReading_def floatKey_storeNow floatKey_putKey storeNow_store section_store.get_set)
next
  case False
  then have "sensorUpdate k I v i e = storeNow I (s_section i) LastUpdatedKey e"
    using assms(2,3) by (simp add: sensorUpdate_def sensorReading_def Let_def)
  then show ?thesis
    using assms(1) within_threshold [OF False]
    by (auto simp: sensorReading_def floatKey_storeNow storeNow_store section_store.get_set)
qed

text \<open>A reported value of a sensor's attribute is either taken as the reading, and announced
  by one event with that value, or, when it is within the threshold of the reading (but for a
  rounding error of one part in 2^52), leaves the reading and announces nothing. In both cases
  the time of the last update is stored.\<close>

theorem sensor_follows_reports:
  assumes "section_store (sections I)" "DataType (snd v) = k_dataType k" "k_convert k (Value (snd v)) = Some new"
  shows "(sensorReading I i (sensorUpdate k I v i e) = new \<and>
      events (sensorUpdate k I v i e) = events e @ [k_event k (s_device i) new] \<or>
     sensorReading I i (sensorUpdate k I v i e) = sensorReading I i e \<and>
      events (sensorUpdate k I v i e) = events e \<and>
      \<bar>new - sensorReading I i e\<bar> \<le> float64 (k_threshold k) * (1 + 1 / 2 ^ 52)) \<and>
    (\<exists>t. p_get (sections I) (s_section i) LastUpdatedKey (store (sensorUpdate k I v i e)) = Some (encTime I t))"
  using sensorUpdate_report [OF assms] .

text \<open>The temperature sensor of the example: 20.00 degrees reported to a new sensor.\<close>

theorem sensor_follows_reports_witness:
  "\<exists>t. p_get memory_store [] LastUpdatedKey
     (store (temperatureUpdate exampleInterface (0, \<lparr>DataType = 0x29, Value = ZInt64 2000\<rparr>) newSensor exampleEnv)) =
       Some (encTime exampleInterface t)"
proof -
  have "section_store (sections exampleInterface)" using host_okD(1) [OF memoryHost_ok] by (simp add: exampleInterface_ok(2))
  from sensor_follows_reports [OF this, where k = "temperatureSensor exampleInterface"
      and v = "(0, \<lparr>DataType = 0x29, Value = ZInt64 2000\<rparr>)" and i = newSensor and e = exampleEnv]
  show ?thesis
    by (auto simp: temperatureSensor_def temperatureUpdate_def exampleInterface_def zclStandard_def newSensor_def)
qed

text \<open>C38: the temperature in kelvin computed from a report in hundredths of a degree Celsius is
  off by less than 2^-42 kelvin, whatever 16-bit value is reported.\<close>

theorem temperature_accuracy:
  "\<bar>tempInK (sint (w :: 16 word)) - (of_int (sint w) / 100 + 27315 / 100)\<bar> \<le> 1 / 2 ^ 42"
proof -
  define n where "n = sint w"
  have n: "- 32768 \<le> n" "n < 32768"
    using sint_greater_eq [of w] sint_less [of w] by (simp_all add: n_def)
  let ?a = "of_int n / 100 :: rat"
  have "of_int n \<le> (of_int 32768 :: rat)" "of_int (- 32768) \<le> (of_int n :: rat)"
    using n by (simp_all only: of_int_le_iff)
  then have a: "\<bar>?a\<bar> \<le> 328" by (simp add: abs_le_iff)
  have fa: "fdiv (float64 (of_int n)) 100 = float64 ?a" using n by (simp add: fdiv_def)
  let ?u = "1 / 2 ^ 53 :: rat" and ?k = "27315 / 100 :: rat"
  let ?s = "float64 ?a + float64 ?k"
  have "\<bar>float64 ?a - ?a\<bar> \<le> \<bar>?a\<bar> * ?u" using float64_error [of ?a] by simp
  also have "\<dots> \<le> 328 * ?u" by (rule mult_right_mono [OF a]) simp
  finally have ea: "\<bar>float64 ?a - ?a\<bar> \<le> 328 * ?u" .
  have "\<bar>float64 ?k - ?k\<bar> \<le> \<bar>?k\<bar> * ?u" using float64_error [of ?k] by simp
  also have "\<dots> \<le> 274 * ?u" by simp
  finally have ek: "\<bar>float64 ?k - ?k\<bar> \<le> 274 * ?u" .
  have "\<bar>?s\<bar> \<le> \<bar>?a\<bar> + \<bar>float64 ?a - ?a\<bar> + (\<bar>?k\<bar> + \<bar>float64 ?k - ?k\<bar>)" by linarith
  also have "\<dots> \<le> 328 + 328 * ?u + (274 + 274 * ?u)" by (intro add_mono a ea ek) simp
  also have "\<dots> \<le> 603" by simp
  finally have s: "\<bar>?s\<bar> \<le> 603" .
  have "\<bar>float64 ?s - ?s\<bar> \<le> \<bar>?s\<bar> * ?u" using float64_error [of ?s] by simp
  also have "\<dots> \<le> 603 * ?u" by (rule mult_right_mono [OF s]) simp
  finally have es: "\<bar>float64 ?s - ?s\<bar> \<le> 603 * ?u" .
  have "\<bar>float64 ?s - (?a + ?k)\<bar> \<le> \<bar>float64 ?s - ?s\<bar> + (\<bar>float64 ?a - ?a\<bar> + \<bar>float64 ?k - ?k\<bar>)" by linarith
  also have "\<dots> \<le> 603 * ?u + (328 * ?u + 274 * ?u)" by (intro add_mono ea ek es)
  also have "\<dots> \<le> 1 / 2 ^ 42" by simp
  finally have "\<bar>float64 ?s - (?a + ?k)\<bar> \<le> 1 / 2 ^ 42" .
  moreover have "tempInK n = float64 ?s" by (simp add: tempInK_def fadd_def fa)
  ultimately show ?thesis by (simp add: n_def)
qed

section \<open>Identify\<close>

text \<open>The number of seconds sent to a device is the asked duration in whole seconds, cut off
  at 65535: it never wraps around.\<close>

theorem identifySeconds_bound:
  assumes "0 \<le> duration"
  shows "uint (identifySeconds duration) = min 65535 (duration div second)"
proof -
  have "duration sdiv second = duration div second"
    using assms by (cases "duration = 0") (simp_all add: signed_divide_int_def)
  moreover have "0 \<le> duration div second" using assms by simp
  ultimately show ?thesis by (simp add: identifySeconds_def uint_word_of_int_eq min_def take_bit_int_eq_self)
qed

theorem identifySeconds_bound_witness: "uint (identifySeconds (10 ^ 18)) = 65535"
  using identifySeconds_bound [of "10 ^ 18"] by simp

section \<open>Power supply\<close>

text \<open>No attribute is ever taken to be the third battery's, and with the identifiers of the
  ZigBee Cluster Library the voltage and the percentage of the third battery are stored as
  those of the first.\<close>

theorem third_battery_is_first:
  "attributeIdToBattery a < 2 \<and>
   powerValue zclStandard (AttrBatteryVoltage zclStandard ! 2) = powerValue zclStandard (AttrBatteryVoltage zclStandard ! 0) \<and>
   powerValue zclStandard (AttrBatteryPercentage zclStandard ! 2) =
     powerValue zclStandard (AttrBatteryPercentage zclStandard ! 0)"
proof -
  have "and a 0x0020 = 0x0020" if "and a 0x0060 = (0x0060 :: 16 word)"
  proof -
    have "and a 0x0020 = and (and a 0x0060) (0x0020 :: 16 word)" by (simp add: and.assoc)
    with that show ?thesis by simp
  qed
  then have "attributeIdToBattery a < 2" by (auto simp: attributeIdToBattery_def)
  then show ?thesis by (simp add: powerValue_def zclStandard_def attributeIdToBattery_def)
qed

section \<open>Product information\<close>

lemma stringKey_putKey:
  "section_store (sections I) \<Longrightarrow> stringKey I p j (putKey I p k (PString t) e) = (if j = k then t else stringKey I p j e)"
  by (simp add: stringKey_def sectionString_def section_store.get_set)

lemma productLoop_stored:
  assumes "section_store (sections I)" "productLoop I p m pi0 b e = (Inr (pi1, b'), e')"
  shows "\<exists>n v mf s. pi1 = \<lparr>Name = (if n = [] then Name pi0 else n), InfoManufacturer = (if mf = [] then InfoManufacturer pi0 else mf),
      InfoVersion = (if v = [] then InfoVersion pi0 else v), InfoSerial = (if s = [] then InfoSerial pi0 else s)\<rparr> \<and>
    stringKey I p ''Name'' e' = (if n = [] then stringKey I p ''Name'' e else n) \<and>
    stringKey I p ''Manufacturer'' e' = (if mf = [] then stringKey I p ''Manufacturer'' e else mf) \<and>
    stringKey I p ''Version'' e' = (if v = [] then stringKey I p ''Version'' e else v) \<and>
    stringKey I p ''Serial'' e' = (if s = [] then stringKey I p ''Serial'' e else s)"
  using assms(2)
proof (induction m arbitrary: pi0 b e)
  case Nil
  then show ?case by (intro exI [of _ "[]"]) simp
next
  case (Cons kv m)
  obtain k x where kv: "kv = (k, x)" by (cases kv)
  from Cons.prems kv obtain t where t: "castString x = Some t" by (auto split: option.splits)
  show ?case
  proof (cases "if 0 < length t then setProductInfo k t pi0 else None")
    case None
    with Cons.prems kv t have "productLoop I p m pi0 b e = (Inr (pi1, b'), e')" by simp
    from Cons.IH [OF this] show ?thesis .
  next
    case (Some pi0')
    with Cons.prems kv t have "productLoop I p m pi0' True (putKey I p k (PString t) e) = (Inr (pi1, b'), e')" by simp
    from Cons.IH [OF this] obtain n v mf s where ih: "pi1 = \<lparr>Name = (if n = [] then Name pi0' else n),
        InfoManufacturer = (if mf = [] then InfoManufacturer pi0' else mf),
        InfoVersion = (if v = [] then InfoVersion pi0' else v), InfoSerial = (if s = [] then InfoSerial pi0' else s)\<rparr>"
      "stringKey I p ''Name'' e' = (if n = [] then stringKey I p ''Name'' (putKey I p k (PString t) e) else n)"
      "stringKey I p ''Manufacturer'' e' = (if mf = [] then stringKey I p ''Manufacturer'' (putKey I p k (PString t) e) else mf)"
      "stringKey I p ''Version'' e' = (if v = [] then stringKey I p ''Version'' (putKey I p k (PString t) e) else v)"
      "stringKey I p ''Serial'' e' = (if s = [] then stringKey I p ''Serial'' (putKey I p k (PString t) e) else s)"
      by blast
    note put = stringKey_putKey [OF assms(1)]
    from Some have t0: "t \<noteq> []" and set: "setProductInfo k t pi0 = Some pi0'" by (auto split: if_splits)
    from set consider "k = ''Name''" "pi0' = pi0\<lparr>Name := t\<rparr>" | "k = ''Manufacturer''" "pi0' = pi0\<lparr>InfoManufacturer := t\<rparr>"
      | "k = ''Version''" "pi0' = pi0\<lparr>InfoVersion := t\<rparr>" | "k = ''Serial''" "pi0' = pi0\<lparr>InfoSerial := t\<rparr>"
      by (auto simp: setProductInfo_def split: if_splits)
    then show ?thesis
    proof cases
      case 1
      show ?thesis
        by (rule exI [of _ "if n = [] then t else n"], rule exI [of _ v], rule exI [of _ mf], rule exI [of _ s])
           (use ih 1 t0 in \<open>simp add: put\<close>)
    next
      case 2
      show ?thesis
        by (rule exI [of _ n], rule exI [of _ v], rule exI [of _ "if mf = [] then t else mf"], rule exI [of _ s])
           (use ih 2 t0 in \<open>simp add: put\<close>)
    next
      case 3
      show ?thesis
        by (rule exI [of _ n], rule exI [of _ "if v = [] then t else v"], rule exI [of _ mf], rule exI [of _ s])
           (use ih 3 t0 in \<open>simp add: put\<close>)
    next
      case 4
      show ?thesis
        by (rule exI [of _ n], rule exI [of _ v], rule exI [of _ mf], rule exI [of _ "if s = [] then t else s"])
           (use ih 4 t0 in \<open>simp add: put\<close>)
    qed
  qed
qed

text \<open>What \<open>Load\<close> restores after an \<open>Enumerate\<close> that attached is, field by field, what was
  enumerated, except that a field the enumeration left empty has the value an earlier
  enumeration stored, which the running gateway no longer shows.\<close>

theorem product_restart:
  assumes "section_store (sections I)" "productEnumerate I m g e = (Returns (True, None), g', e')"
    and "productLoad I g0 e' = (r, g1, e1)" "pi_section g0 = pi_section g"
  shows "\<exists>info. productGet g' = Returns info \<and> r = (True, None) \<and> productGet g1 = Returns
    \<lparr>Name = (if Name info = [] then stringKey I (pi_section g) ''Name'' e else Name info),
     InfoManufacturer = (if InfoManufacturer info = [] then stringKey I (pi_section g) ''Manufacturer'' e
       else InfoManufacturer info),
     InfoVersion = (if InfoVersion info = [] then stringKey I (pi_section g) ''Version'' e else InfoVersion info),
     InfoSerial = (if InfoSerial info = [] then stringKey I (pi_section g) ''Serial'' e else InfoSerial info)\<rparr>"
proof -
  from assms(2) obtain info b where l: "productLoop I (pi_section g) m emptyProductInfo False e = (Inr (info, b), e')"
    and g': "pi_info g' = Some info"
    by (auto simp: productEnumerate_def split: prod.splits sum.splits if_splits)
  from productLoop_stored [OF assms(1) l] obtain n v mf s where
    st: "info = \<lparr>Name = n, InfoManufacturer = mf, InfoVersion = v, InfoSerial = s\<rparr>"
      "stringKey I (pi_section g) ''Name'' e' = (if n = [] then stringKey I (pi_section g) ''Name'' e else n)"
      "stringKey I (pi_section g) ''Manufacturer'' e' = (if mf = [] then stringKey I (pi_section g) ''Manufacturer'' e else mf)"
      "stringKey I (pi_section g) ''Version'' e' = (if v = [] then stringKey I (pi_section g) ''Version'' e else v)"
      "stringKey I (pi_section g) ''Serial'' e' = (if s = [] then stringKey I (pi_section g) ''Serial'' e else s)"
    by (auto simp: emptyProductInfo_def)
  from assms(3,4) have "r = (True, None)" "pi_info g1 = Some \<lparr>Name = stringKey I (pi_section g) ''Name'' e',
      InfoManufacturer = stringKey I (pi_section g) ''Manufacturer'' e',
      InfoVersion = stringKey I (pi_section g) ''Version'' e', InfoSerial = stringKey I (pi_section g) ''Serial'' e'\<rparr>"
    by (auto simp: productLoad_def Let_def)
  then show ?thesis
    unfolding st(2-5) by (intro exI [of _ info]) (simp add: productGet_def g' st(1))
qed

text \<open>Version 1 was stored earlier; the enumeration brings only a name.\<close>

theorem product_restart_witness:
  "\<exists>g1 e1. productLoad exampleInterface NewProductInformation
      (snd (snd (productEnumerate exampleInterface [(''Name'', AnyString ''Lamp'')] NewProductInformation
        (putKey exampleInterface [] ''Version'' (PString ''1'') exampleEnv)))) = ((True, None), g1, e1) \<and>
    productGet g1 = Returns \<lparr>Name = ''Lamp'', InfoManufacturer = [], InfoVersion = ''1'', InfoSerial = []\<rparr>"
proof -
  let ?I = exampleInterface
  let ?e = "putKey ?I [] ''Version'' (PString ''1'') exampleEnv"
  have S: "section_store (sections ?I)" using host_okD(1) [OF memoryHost_ok] by (simp add: exampleInterface_ok(2))
  obtain g' e' where en: "productEnumerate ?I [(''Name'', AnyString ''Lamp'')] NewProductInformation ?e =
      (Returns (True, None), g', e')" and g': "productGet g' = Returns (emptyProductInfo\<lparr>Name := ''Lamp''\<rparr>)"
    by (simp add: productEnumerate_def setProductInfo_def productGet_def)
  obtain r g1 e1 where lo: "productLoad ?I NewProductInformation e' = (r, g1, e1)" by (metis prod.exhaust)
  have old: "stringKey ?I [] ''Version'' ?e = ''1''" "stringKey ?I [] ''Manufacturer'' ?e = []" "stringKey ?I [] ''Serial'' ?e = []"
    using S by (simp_all add: stringKey_putKey)
       (simp_all add: stringKey_def sectionString_def exampleEnv_def exampleInterface_def memory_store_def memory_new_def)
  have "pi_section NewProductInformation = []" by (simp add: NewProductInformation_def)
  with product_restart [OF S en lo] g' old
  have "r = (True, None)" "productGet g1 = Returns \<lparr>Name = ''Lamp'', InfoManufacturer = [], InfoVersion = ''1'', InfoSerial = []\<rparr>"
    by (simp_all add: emptyProductInfo_def)
  then show ?thesis unfolding en snd_conv using lo by blast
qed

section \<open>Device workarounds\<close>

lemma enumerateWorkaround_stored:
  assumes "section_store (sections I)" "enumerateWorkaround I m w i e = (None, i', e')"
    and "set (dw_enabled i) = set (p_keys (sections I) (dw_section i @ [''Workarounds'']) (store e))"
  shows "dw_section i' = dw_section i \<and>
    set (dw_enabled i') = set (p_keys (sections I) (dw_section i @ [''Workarounds'']) (store e'))"
proof (cases "i' = i \<and> e' = e")
  case False
  with assms(2) obtain e1 where i': "i' = i\<lparr>dw_enabled := dw_enabled i @ [''ZCLReportingKeepAlive'']\<rparr>"
    "e' = openSection I (dw_section i @ [''Workarounds'', ''ZCLReportingKeepAlive'']) e1" "store e1 = store e"
    by (auto simp: enumerateWorkaround_def enumerateZCLReportingKeepAlive_def Let_def
        dest!: transmissionLookup_store onWorld_store split: if_splits prod.splits sum.splits)
  then show ?thesis
    using assms(1,3) by (auto simp: openSection_def section_store.keys_section)
qed (use assms(3) in simp)

lemma workaroundLoop_stored:
  assumes "section_store (sections I)"
  shows "workaroundLoop I m ks i e = ((True, err), i', e') \<Longrightarrow>
    set (dw_enabled i) = set (p_keys (sections I) (dw_section i @ [''Workarounds'']) (store e)) \<Longrightarrow>
    dw_section i' = dw_section i \<and>
    set (dw_enabled i') = set (p_keys (sections I) (dw_section i @ [''Workarounds'']) (store e'))"
proof (induction ks arbitrary: i e)
  case (Cons w ks)
  show ?case
  proof (cases "HasPrefix w ''Enable''")
    case True
    with Cons.prems(1) obtain i1 e1 where one: "enumerateWorkaround I m w i e = (None, i1, e1)"
      and rest: "workaroundLoop I m ks i1 e1 = ((True, err), i', e')"
      by (auto split: prod.splits option.splits)
    note st = enumerateWorkaround_stored [OF assms one Cons.prems(2)]
    from Cons.IH [OF rest] st show ?thesis by simp
  next
    case False
    with Cons show ?thesis by simp
  qed
qed simp

text \<open>The workarounds a successful enumeration enabled are those a restart loads.\<close>

theorem workaround_roundtrip:
  assumes "section_store (sections I)" "workaroundEnumerate I m i e = (Returns (True, err), i', e')"
    and "dw_section i0 = dw_section i" "dw_enabled i0 = []"
  shows "set (workaroundEnabled (fst (snd (workaroundLoad I i0 e')))) = set (workaroundEnabled i')"
proof -
  let ?q = "dw_section i @ [''Workarounds'']"
  let ?e1 = "e\<lparr>store := snd (p_remove (sections I) (dw_section i) ''Workarounds'' (store e))\<rparr>"
  from assms(2) have l: "workaroundLoop I m (map fst m) (i\<lparr>dw_enabled := []\<rparr>) ?e1 = ((True, err), i', e')"
    by (auto simp: workaroundEnumerate_def Let_def split: prod.splits)
  have "set (p_keys (sections I) ?q (store ?e1)) = {}"
    using section_store.keys_remove [OF assms(1)] by simp
  with workaroundLoop_stored [OF assms(1) l]
  have "set (dw_enabled i') = set (p_keys (sections I) ?q (store e'))" by simp
  moreover have "set (p_keys (sections I) ?q (p_section (sections I) ?q (store e'))) = set (p_keys (sections I) ?q (store e'))"
    by (rule section_store.keys_section_other [OF assms(1)]) simp
  ultimately show ?thesis
    using assms(3,4) by (simp add: workaroundLoad_def workaroundEnabled_def openSection_def Let_def)
qed

theorem workaround_roundtrip_witness:
  "set (workaroundEnabled (fst (snd (workaroundLoad exampleInterface NewDeviceWorkaround
     (snd (snd (workaroundEnumerate exampleInterface [(''EnableZCLReportingKeepAlive'', AnyBool True)]
       NewDeviceWorkaround exampleEnv))))))) = {''ZCLReportingKeepAlive''}"
proof -
  let ?I = exampleInterface and ?m = "[(''EnableZCLReportingKeepAlive'', AnyBool True)]"
  have S: "section_store (sections ?I)" using host_okD(1) [OF memoryHost_ok] by (simp add: exampleInterface_ok(2))
  have "\<exists>i' e'. workaroundEnumerate ?I ?m NewDeviceWorkaround exampleEnv = (Returns (True, None), i', e') \<and>
      dw_enabled i' = [''ZCLReportingKeepAlive'']"
    by (simp add: workaroundEnumerate_def Let_def HasPrefix_def enumerateWorkaround_def
        enumerateZCLReportingKeepAlive_def onWorld_def exampleInterface_def NewDeviceWorkaround_def split: prod.split)
  then obtain i' e' where en: "workaroundEnumerate ?I ?m NewDeviceWorkaround exampleEnv = (Returns (True, None), i', e')"
    and i': "dw_enabled i' = [''ZCLReportingKeepAlive'']" by blast
  have "dw_enabled NewDeviceWorkaround = []" by (simp add: NewDeviceWorkaround_def)
  from workaround_roundtrip [OF S en refl this] show ?thesis
    unfolding en snd_conv by (simp add: i' workaroundEnabled_def)
qed

end
