(* ===== verification/Monitor_Properties.thy ===== *)
theory Monitor_Properties
  imports Capability_Properties
begin

text \<open>
  The attribute monitor over its life: attached or loaded, polled, detached, restarted.
\<close>

section \<open>A restart\<close>

lemma reattach_returns:
  "reattach I m e = (Returns x, m') \<Longrightarrow> x = None"
  by (auto simp: reattach_def Let_def split: if_splits outcome.splits)

lemma retrieve_putKey:
  "section_store (sections I) \<Longrightarrow>
     retrieve I dec p j (putKey I p k v e) = (if j = k then dec v else retrieve I dec p j e)"
  by (simp add: retrieve_def putKey_def section_store.get_set)

lemma boolKey_putKey:
  "section_store (sections I) \<Longrightarrow> j \<noteq> k \<Longrightarrow> boolKey I p j (putKey I p k v e) = boolKey I p j e"
  by (simp add: boolKey_def sectionBool_def putKey_def section_store.get_set)

lemma retrieve_store: "store e = store e' \<Longrightarrow> retrieve I dec p k e = retrieve I dec p k e'"
  by (simp add: retrieve_def)

lemma reattach_store: "store e = store e' \<Longrightarrow> reattach I m e = reattach I m e'"
  unfolding reattach_def boolKey_def retrieveOr_def retrieve_def by (simp only:)

lemma transmissionLookup_same:
  "transmissionLookup (Some d) e = ((ieee, lep, ack, sq), e') \<Longrightarrow>
     ieee = IEEEAddress d \<and> lep = DefaultGatewayHomeAutomationEndpoint \<and> store e' = store e"
  by (auto simp: transmissionLookup_def takeSequence_def split: option.splits prod.splits)

text \<open>The four keys of the configuration, as \<open>Attach\<close> leaves them.\<close>

definition configured :: "('s, 'x) zdaInterface \<Rightarrow> zclMonitor \<Rightarrow> ('s, 'x) env \<Rightarrow> bool" where
  "configured I m e \<longleftrightarrow>
     retrieve I (decEndpoint I) (m_config m) RemoteEndpointKey e = Some (m_remote m) \<and>
     retrieve I (decClusterID I) (m_config m) ClusterIdKey e = Some (m_cluster m) \<and>
     retrieve I (decAttributeID I) (m_config m) AttributeIdKey e = Some (m_attribute m) \<and>
     retrieve I (decDataType I) (m_config m) AttributeDataTypeKey e = Some (m_dataType m)"

lemma configured_storeConfig:
  "section_store (sections I) \<Longrightarrow> converters_ok I \<Longrightarrow> configured I m (storeConfig I m e)"
  by (simp add: configured_def storeConfig_def Let_def retrieve_putKey converters_okD monitor_keys)

lemma configured_other:
  assumes "section_store (sections I)" "configured I m e" "k = ReportingConfiguredKey \<or> k = PollingConfiguredKey \<or> k = PollingIntervalKey"
  shows "configured I m (putKey I (m_config m) k v e)"
  using assms by (auto simp: configured_def retrieve_putKey monitor_keys)

lemma configured_store: "store e = store e' \<Longrightarrow> configured I m e = configured I m e'"
  by (simp add: configured_def retrieve_def)

lemma configureReporting_store:
  "configureReporting I rc ack sq m e = (r, e') \<Longrightarrow>
     store e' = store e \<or> store e' = store (putKey I (m_config m) ReportingConfiguredKey (PBool True) e)"
  by (auto simp: configureReporting_def onWorld_def putKey_def split: ReportingMode.splits prod.splits sum.splits)

text \<open>An \<open>Attach\<close> without an error: the configuration is stored, and what comes last is \<open>reattach\<close>.\<close>

lemma monitorAttach_configured:
  assumes "section_store (sections I)" "converters_ok I" and at: "monitorAttach I ep c a dt rc pc m e = (Returns None, m', e')"
    and t: "transmissionLookup (Some (m_device m)) e = ((ieee, lep, ack, sq), e1)"
  defines "m1 \<equiv> m\<lparr>m_ieee := ieee, m_local := lep, m_remote := ep, m_cluster := c, m_attribute := a, m_dataType := dt\<rparr>"
  shows "configured I m1 e'" "reattach I m1 e' = (Returns None, m')"
proof -
  let ?e1 = "storeConfig I m1 e1"
  obtain er e2 where conf: "configureReporting I rc ack sq m1 ?e1 = (er, e2)" by (metis prod.exhaust)
  have cfg2: "configured I m1 e2"
    using configureReporting_store [OF conf] configured_storeConfig [OF assms(1,2), of m1 e1]
      configured_other [OF assms(1) configured_storeConfig [OF assms(1,2), of m1 e1]]
      configured_store [of e2] by blast
  have cfg: "m_config m1 = m_config m" by (simp add: m1_def)
  let ?e3 = "putKey I (m_config m) PollingIntervalKey (encDuration I (Interval pc))
    (putKey I (m_config m) PollingConfiguredKey (PBool True) e2)"
  have cfg3: "configured I m1 ?e3"
    using configured_other [OF assms(1) configured_other [OF assms(1) cfg2]] by (simp add: cfg)
  have "reattach I m1 ?e3 = (Returns None, m') \<and> e' = ?e3 \<or> reattach I m1 e2 = (Returns None, m') \<and> e' = e2"
    using at t conf
    by (auto simp: monitorAttach_def Let_def m1_def split: prod.splits option.splits if_splits)
  with cfg2 cfg3 show "configured I m1 e'" "reattach I m1 e' = (Returns None, m')" by auto
qed

text \<open>C25: a monitor that was attached without an error is, after a restart, the monitor it was:
  \<open>Load\<close> on a new monitor of the same device and section finds the same node, endpoints,
  cluster, attribute and data type, listens again, and polls again at the same interval if
  \<open>Attach\<close> had fallen back to polling.\<close>

theorem monitor_restart:
  assumes "section_store (sections I)" "converters_ok I"
    and "monitorAttach I ep c a dt rc pc (monitorInit p d NewMonitor) e = (Returns None, m, e')"
    and "store e'' = store e'" "monitorLoad I (monitorInit p d NewMonitor) e'' = (r, m', e3)"
  shows "r = Returns None \<and> m' = m"
proof -
  let ?m = "monitorInit p d NewMonitor"
  obtain ieee lep ack sq e1 where t: "transmissionLookup (Some (m_device ?m)) e = ((ieee, lep, ack, sq), e1)"
    by (metis prod.exhaust)
  let ?m1 = "?m\<lparr>m_ieee := ieee, m_local := lep, m_remote := ep, m_cluster := c, m_attribute := a, m_dataType := dt\<rparr>"
  note re = monitorAttach_configured [OF assms(1-3) t]
  obtain ieee' lep' ack' sq' e4 where t': "transmissionLookup (Some (m_device ?m)) e'' = ((ieee', lep', ack', sq'), e4)"
    by (metis prod.exhaust)
  note same = transmissionLookup_same [OF t] transmissionLookup_same [OF t']
  then have st: "store e4 = store e'" using assms(4) by simp
  have "configured I ?m1 e4" using re(1) configured_store [OF st] by blast
  then have keys: "retrieve I (decEndpoint I) p RemoteEndpointKey e4 = Some ep"
    "retrieve I (decClusterID I) p ClusterIdKey e4 = Some c"
    "retrieve I (decAttributeID I) p AttributeIdKey e4 = Some a"
    "retrieve I (decDataType I) p AttributeDataTypeKey e4 = Some dt"
    by (simp_all add: configured_def monitorInit_def)
  have "reattach I ?m1 e4 = (Returns None, m)" using re(2) reattach_store [OF st] by metis
  moreover have "monitorLoad I ?m e'' = (case reattach I ?m1 e4 of (r, m5) \<Rightarrow> (r, m5, e4))"
    using t' same keys by (simp add: monitorLoad_def Let_def monitorInit_def)
  ultimately show ?thesis using assms(5) by simp
qed

text \<open>A temperature sensor's monitor on a network that accepts everything.\<close>

abbreviation exampleReporting :: ReportingConfig where
  "exampleReporting \<equiv> \<lparr>reportMode = AttemptConfigureReporting, MinimumInterval = minute,
     MaximumInterval = 5 * minute, ReportableChange = 10\<rparr>"

abbreviation examplePolling :: PollingConfig where
  "examplePolling \<equiv> \<lparr>pollMode = AlwaysPoll, Interval = minute\<rparr>"

theorem monitor_restart_witness:
  "\<exists>m e'. monitorAttach exampleInterface 1 0x0402 0 0x29 exampleReporting examplePolling
      (monitorInit [] (addressOf 7 0) NewMonitor) exampleEnv = (Returns None, m, e') \<and>
    fst (snd (monitorLoad exampleInterface (monitorInit [] (addressOf 7 0) NewMonitor) e')) = m"
proof -
  let ?I = exampleInterface and ?m = "monitorInit [] (addressOf 7 0) NewMonitor"
  have S: "section_store (sections ?I)" using host_okD(1) [OF memoryHost_ok] by (simp add: exampleInterface_ok(2))
  obtain r m e' where at: "monitorAttach ?I 1 0x0402 0 0x29 exampleReporting examplePolling ?m exampleEnv = (r, m, e')"
    by (metis prod.exhaust)
  have "r = Returns None"
    using at exampleInterface_ok(1) S
    by (auto simp: monitorAttach_def reattach_def startPoller_def Let_def boolKey_def sectionBool_def
        putKey_def section_store.get_set monitor_keys
        retrieveOr_def retrieve_def converters_okD split: prod.splits)
  obtain r1 m1 e1 where lo: "monitorLoad ?I ?m e' = (r1, m1, e1)" by (metis prod.exhaust)
  from monitor_restart [OF S exampleInterface_ok(1) at [unfolded \<open>r = Returns None\<close>] refl lo] at \<open>r = Returns None\<close>
  show ?thesis by (auto simp: lo)
qed

section \<open>One attachment\<close>

text \<open>The life of a monitor that is attached, or loaded, once, and then detached once; its
  poller ticks and stops in between and afterwards. Ticks change only the environment, which
  may change at any time.\<close>

datatype phase = Fresh | Running | Ended

inductive lifecycle :: "('s, 'x) zdaInterface \<Rightarrow> path \<Rightarrow> address \<Rightarrow> phase \<Rightarrow> zclMonitor \<Rightarrow> bool"
  for I :: "('s, 'x) zdaInterface" and p :: path and d :: address where
  fresh: "lifecycle I p d Fresh (monitorInit p d NewMonitor)"
| loaded: "lifecycle I p d Fresh m \<Longrightarrow> monitorLoad I m e = (Returns err, m', e') \<Longrightarrow> lifecycle I p d Running m'"
| attached: "lifecycle I p d Fresh m \<Longrightarrow> monitorAttach I ep c a dt rc pc m e = (Returns err, m', e') \<Longrightarrow>
    lifecycle I p d Running m'"
| detached: "lifecycle I p d Running m \<Longrightarrow> monitorDetach I u m e = (err, m', e') \<Longrightarrow> lifecycle I p d Ended m'"
| stopped: "lifecycle I p d ph m \<Longrightarrow> 0 < m_pollers m \<Longrightarrow> m_stop m \<or> m_closed m \<Longrightarrow>
    lifecycle I p d ph (pollerStops m)"

definition idle :: "zclMonitor \<Rightarrow> bool" where
  "idle m \<longleftrightarrow> m_registered m = [] \<and> m_ticker m = None \<and> m_pollers m = 0 \<and> \<not> m_stop m \<and> \<not> m_closed m \<and>
     \<not> m_crashed m"

definition running :: "zclMonitor \<Rightarrow> bool" where
  "running m \<longleftrightarrow> (m_registered m = [] \<or> (\<exists>i. m_registered m = [i] \<and> m_match m = Some i)) \<and>
     m_pollers m = (if m_ticker m = None then 0 else 1) \<and> \<not> m_stop m \<and> \<not> m_closed m \<and> \<not> m_crashed m"

definition ended :: "zclMonitor \<Rightarrow> bool" where
  "ended m \<longleftrightarrow> m_registered m = [] \<and> m_pollers m = (if m_ticker m = None then 0 else 1) \<and>
     (0 < m_pollers m \<longrightarrow> m_stop m \<and> \<not> m_closed m) \<and> \<not> m_crashed m"

lemma reattach_running:
  "reattach I m e = (Returns r, m') \<Longrightarrow> idle m \<Longrightarrow> running m'"
  by (auto simp: reattach_def registerMatch_def startPoller_def idle_def running_def Let_def
      split: if_splits outcome.splits)

lemma idle_running: "idle m \<Longrightarrow> running m"
  by (auto simp: idle_def running_def)

lemma monitorLoad_running:
  "monitorLoad I m e = (Returns r, m', e') \<Longrightarrow> idle m \<Longrightarrow> running m'"
  unfolding monitorLoad_def Let_def
  by (auto simp: missing_def idle_def running_def split: prod.splits option.splits dest!: reattach_running)

lemma monitorAttach_running:
  "monitorAttach I ep c a dt rc pc m e = (Returns r, m', e') \<Longrightarrow> idle m \<Longrightarrow> running m'"
  unfolding monitorAttach_def Let_def
  by (auto simp: idle_def running_def split: prod.splits option.splits if_splits dest!: reattach_running)

lemma monitorDetach_ended:
  "monitorDetach I u m e = (r, m', e') \<Longrightarrow> running m \<Longrightarrow> ended m'"
  by (auto simp: monitorDetach_def Let_def running_def ended_def unregisterMatch_def sendStop_def split: if_splits)

lemma lifecycle_ok:
  assumes "lifecycle I p d ph m"
  shows "(ph = Fresh \<longrightarrow> idle m) \<and> (ph = Running \<longrightarrow> running m) \<and> (ph = Ended \<longrightarrow> ended m)"
  using assms
proof (induction rule: lifecycle.induct)
  case fresh
  then show ?case by (simp add: idle_def monitorInit_def NewMonitor_def)
next
  case (stopped ph m)
  then show ?case by (cases ph; cases "m_ticker m") (auto simp: idle_def running_def ended_def pollerStops_def)
qed (auto dest: monitorLoad_running monitorAttach_running monitorDetach_ended)



section \<open>Attaching again\<close>

text \<open>C39: a monitor whose reporting cannot be configured and that is attached a second time, as
  a second enumeration of its device does, has two pollers and two matches. Its detach leaves
  one match registered and stops one poller; the other then panics, which ends the process.\<close>

theorem monitor_attached_twice_crashes:
  assumes "\<forall>a l r c x. \<exists>err. fst (BindNodeToController I a l r c x) = Inl err"
    and "reportMode rc = AttemptConfigureReporting" "pollMode pc = PollIfReportingFailed"
    and "section_store (sections I)" "decDuration I (encDuration I (Interval pc)) = Some (Interval pc)" "0 < Interval pc"
    and "monitorAttach I ep c a dt rc pc (monitorInit p d NewMonitor) e0 = (r1, m1, e1)"
    and "monitorAttach I ep c a dt rc pc m1 e1 = (r2, m2, e2)" "monitorDetach I u m2 e2 = (r3, m3, e3)"
  shows "r1 = Returns None \<and> r2 = Returns None \<and> m_pollers m3 = 2 \<and> length (m_registered m3) = 1 \<and>
    \<not> m_crashed m3 \<and> m_stop m3 \<and> m_closed (pollerStops m3) \<and> m_pollers (pollerStops m3) = 1 \<and>
    m_crashed (pollerStops (pollerStops m3))"
proof -
  have conf: "\<exists>err e''. configureReporting I rc ack sq m e = (Some err, e'')" for ack sq m e
  proof -
    obtain err where "fst (BindNodeToController I (m_ieee m) (m_local m) (m_remote m) (m_cluster m) (world e)) = Inl err"
      using assms(1) by blast
    then have "\<exists>e''. onWorld (BindNodeToController I (m_ieee m) (m_local m) (m_remote m) (m_cluster m)) e = (Inl err, e'')"
      by (auto simp: onWorld_def split: prod.splits)
    then show ?thesis using assms(2) by (auto simp: configureReporting_def)
  qed
  have att: "r = Returns None \<and> m_pollers m' = Suc (m_pollers m) \<and> m_ticker m' = Some (Interval pc) \<and>
      m_registered m' = m_registered m @ [m_matches m] \<and> m_match m' = Some (m_matches m) \<and> m_matches m' = Suc (m_matches m) \<and>
      m_stop m' = m_stop m \<and> m_closed m' = m_closed m \<and> m_crashed m' = m_crashed m"
    if "monitorAttach I ep c a dt rc pc m e = (r, m', e')" for m e r m' e'
  proof -
    obtain ieee lep ack sq f1 where t: "transmissionLookup (Some (m_device m)) e = ((ieee, lep, ack, sq), f1)"
      by (metis prod.exhaust)
    let ?m = "m\<lparr>m_ieee := ieee, m_local := lep, m_remote := ep, m_cluster := c, m_attribute := a, m_dataType := dt\<rparr>"
    obtain err f2 where cf: "configureReporting I rc ack sq ?m (storeConfig I ?m f1) = (Some err, f2)"
      using conf by blast
    let ?f3 = "putKey I (m_config m) PollingIntervalKey (encDuration I (Interval pc))
        (putKey I (m_config m) PollingConfiguredKey (PBool True) f2)"
    have "boolKey I (m_config m) PollingConfiguredKey ?f3"
      using assms(4) by (simp add: boolKey_def sectionBool_def putKey_def section_store.get_set monitor_keys)
    moreover have "retrieveOr I (decDuration I) (m_config m) PollingIntervalKey (5 * minute) ?f3 = Interval pc"
      using assms(4,5) by (simp add: retrieveOr_def retrieve_putKey)
    ultimately have "reattach I ?m ?f3 = (Returns None, (registerMatch ?m)\<lparr>m_ticker := Some (Interval pc),
        m_pollers := Suc (m_pollers m)\<rparr>)"
      using assms(6) by (simp add: reattach_def startPoller_def Let_def registerMatch_def)
    with that t cf assms(3) show ?thesis by (auto simp: monitorAttach_def Let_def registerMatch_def)
  qed
  have m1: "r1 = Returns None" "m_pollers m1 = 1" "m_registered m1 = [0]" "m_matches m1 = 1" "\<not> m_stop m1"
    "\<not> m_closed m1" "\<not> m_crashed m1"
    using att [OF assms(7)] by (simp_all add: monitorInit_def NewMonitor_def)
  then have m2: "r2 = Returns None" "m_pollers m2 = 2" "m_registered m2 = [0, 1]" "m_match m2 = Some 1"
    "m_ticker m2 \<noteq> None" "\<not> m_stop m2" "\<not> m_closed m2" "\<not> m_crashed m2"
    using att [OF assms(8)] by simp_all
  from m2 assms(9) have "m3 = m2\<lparr>m_registered := [0], m_stop := True\<rparr>"
    by (auto simp: monitorDetach_def Let_def unregisterMatch_def sendStop_def)
  with m1 m2 show ?thesis by (simp add: pollerStops_def)
qed

text \<open>The same example, on a device that refuses the binding.\<close>

abbreviation refusingInterface :: "(memory, unit) zdaInterface" where
  "refusingInterface \<equiv> exampleInterface\<lparr>BindNodeToController := (\<lambda>_ _ _ _ x. (Inl (Err ''NOT_SUPPORTED''), x))\<rparr>"

theorem monitor_attached_twice_crashes_witness:
  "\<exists>m3. m_crashed (pollerStops (pollerStops m3)) \<and>
    (\<exists>r1 m1 e1 r2 m2 e2 r3 e3. monitorAttach refusingInterface 1 0x0402 0 0x29 exampleReporting
        (examplePolling\<lparr>pollMode := PollIfReportingFailed\<rparr>) (monitorInit [] (addressOf 7 0) NewMonitor) exampleEnv = (r1, m1, e1) \<and>
      monitorAttach refusingInterface 1 0x0402 0 0x29 exampleReporting
        (examplePolling\<lparr>pollMode := PollIfReportingFailed\<rparr>) m1 e1 = (r2, m2, e2) \<and>
      monitorDetach refusingInterface False m2 e2 = (r3, m3, e3))"
proof -
  let ?I = refusingInterface and ?pc = "examplePolling\<lparr>pollMode := PollIfReportingFailed\<rparr>"
  let ?attach = "monitorAttach ?I 1 0x0402 0 0x29 exampleReporting ?pc"
  obtain r1 m1 e1 where 1: "?attach (monitorInit [] (addressOf 7 0) NewMonitor) exampleEnv = (r1, m1, e1)"
    by (metis prod.exhaust)
  obtain r2 m2 e2 where 2: "?attach m1 e1 = (r2, m2, e2)" by (metis prod.exhaust)
  obtain r3 m3 e3 where 3: "monitorDetach ?I False m2 e2 = (r3, m3, e3)" by (metis prod.exhaust)
  have S: "section_store (sections ?I)" using host_okD(1) [OF memoryHost_ok] by (simp add: exampleInterface_ok(2))
  have refuses: "\<forall>a l r c x. \<exists>err. fst (BindNodeToController ?I a l r c x) = Inl err" by simp
  have "decDuration ?I (encDuration ?I (Interval ?pc)) = Some (Interval ?pc)" by (simp add: exampleInterface_def)
  from monitor_attached_twice_crashes [OF refuses _ _ S this _ 1 2 3] 1 2 3 show ?thesis by auto
qed

end
