(* ===== verification/Restart.thy ===== *)
theory Restart
  imports Provider
begin

text \<open>
  A restart: \<open>providerLoad\<close> on the store a gateway left behind gives a gateway with the same
  nodes, devices and identities, whose invariant holds again, and whose capabilities are the
  ones stored.
\<close>

section \<open>Changes of the store that keep a device\<close>

text \<open>The sections of a device may grow and the data of its capabilities change; its identity
  and the names of its implementations stay.\<close>

definition keeps :: "'s host \<Rightarrow> address \<Rightarrow> 's \<Rightarrow> 's \<Rightarrow> bool" where
  "keeps h d s s' \<longleftrightarrow>
     only_below (persist h) (devicePath h d) s s' \<and>
     (\<forall>cf. present (persist h) (dataPath h d cf) s \<longrightarrow> present (persist h) (dataPath h d cf) s') \<and>
     p_get (persist h) (devicePath h d) ''UniqueId'' s' = p_get (persist h) (devicePath h d) ''UniqueId'' s \<and>
     (\<forall>k. p_get (persist h) (capabilityRoot h d @ [k]) ''Implementation'' s' =
          p_get (persist h) (capabilityRoot h d @ [k]) ''Implementation'' s)"

lemma keepsD:
  assumes "keeps h d s s'"
  shows "only_below (persist h) (devicePath h d) s s'"
    "present (persist h) (dataPath h d cf) s \<Longrightarrow> present (persist h) (dataPath h d cf) s'"
    "p_get (persist h) (devicePath h d) ''UniqueId'' s' = p_get (persist h) (devicePath h d) ''UniqueId'' s"
    "p_get (persist h) (capabilityRoot h d @ [k]) ''Implementation'' s' =
       p_get (persist h) (capabilityRoot h d @ [k]) ''Implementation'' s"
  using assms by (auto simp: keeps_def)

lemma keeps_refl [simp, intro]: "keeps h d s s"
  by (simp add: keeps_def)

lemma keeps_trans: "keeps h d s s' \<Longrightarrow> keeps h d s' s'' \<Longrightarrow> keeps h d s s''"
  unfolding keeps_def by (auto intro: only_below_trans)

lemma keeps_present:
  "keeps h d s s' \<Longrightarrow> present (persist h) (devicePath h d) s \<Longrightarrow> present (persist h) (devicePath h d) s'"
  by (auto simp: keeps_def intro: only_below_present)

lemma keeps_capability:
  assumes "keeps h d s s'" "capability_ok h C d s cf c"
  shows "capability_ok h C d s' cf c"
  using assms keepsD(4) [OF assms(1), of "StandardNames h cf"]
  by (simp add: capability_ok_def capabilityPath_def keepsD(2))

lemma keeps_device:
  assumes "keeps h d s s'" "device_ok h C d s dev"
  shows "device_ok h C d s' dev"
  using assms(2) keeps_present [OF assms(1)] keepsD(3,4) [OF assms(1)] keeps_capability [OF assms(1), of C]
  by (simp add: device_ok_def filed_def)

context gateway begin

lemma keeps_section:
  assumes "present (persist h) (devicePath h d) s" "prefix (devicePath h d) p"
  shows "keeps h d s (p_section (persist h) p s)"
  using P.section_only_below [OF assms]
  by (simp add: keeps_def P.get_section P.section_present_mono)

lemma keeps_sectionForDevice:
  assumes "present (persist h) (devicePath h d) s"
  shows "keeps h d s (sectionForDevice h d s)"
  using sectionForDevice_only_below [OF assms]
  by (simp add: keeps_def sectionForDevice_get sectionForDevice_mono)

lemma keeps_setUniqueId:
  assumes "p_get (persist h) (devicePath h d) ''UniqueId'' s = Some (PInt i)"
  shows "keeps h d s (p_set (persist h) (devicePath h d) ''UniqueId'' (PInt i) s)"
  using assms P.set_only_below [of "devicePath h d" "devicePath h d"]
  by (simp add: keeps_def P.get_set capabilityRoot_def present_def P.keys_set)

lemma keeps_data:
  assumes "only_below (persist h) (dataPath h d cf) s s'"
  shows "keeps h d s s'"
proof -
  have "p_get (persist h) (capabilityRoot h d @ [k]) j s' = p_get (persist h) (capabilityRoot h d @ [k]) j s" for k j
    by (rule only_belowD(2) [OF assms]) (auto simp: dataPath_def capabilityPath_def dest: prefix_length_le)
  moreover have "p_get (persist h) (devicePath h d) j s' = p_get (persist h) (devicePath h d) j s" for j
    by (rule only_belowD(2) [OF assms])
       (auto simp: dataPath_def capabilityPath_def capabilityRoot_def dest: prefix_length_le)
  ultimately show ?thesis using data_change [OF assms] by (simp add: keeps_def)
qed

end

section \<open>The invariant of loading\<close>

text \<open>The store still mirrors the table \<open>z0\<close> of the gateway that left it; what has been loaded
  so far is part of that table.\<close>

definition loading ::
  "'s host \<Rightarrow> ('c, 's, 'x) zdaCapability \<Rightarrow> ('c, 's, 'x) ZDA \<Rightarrow> ('c, 's, 'x) ZDA \<Rightarrow> bool" where
  "loading h C z0 z \<longleftrightarrow>
     mirrors h C (z0\<lparr>env := env z\<rparr>) \<and> table_wf z \<and>
     (\<forall>a. getNode a z \<noteq> None \<longrightarrow> getNode a z0 \<noteq> None) \<and>
     (\<forall>d dev. getDevice d z = Some dev \<longrightarrow> getDevice d z0 \<noteq> None \<and> device_ok h C d (store (env z)) dev) \<and>
     announced z \<and> sequences_full z"

lemma loadingD:
  assumes "loading h C z0 z"
  shows "mirrors h C (z0\<lparr>env := env z\<rparr>)" "table_wf z" "getNode a z \<noteq> None \<Longrightarrow> getNode a z0 \<noteq> None"
    "getDevice d z = Some dev \<Longrightarrow> getDevice d z0 \<noteq> None"
    "getDevice d z = Some dev \<Longrightarrow> device_ok h C d (store (env z)) dev"
    "announced z" "sequences_full z"
  using assms unfolding loading_def by blast+

text \<open>Opening a section above the devices.\<close>

definition opens :: "'s host \<Rightarrow> 's \<Rightarrow> 's \<Rightarrow> bool" where
  "opens h s s' \<longleftrightarrow>
     (\<forall>q. set (p_keys (persist h) q s) \<subseteq> set (p_keys (persist h) q s')) \<and>
     (\<forall>q. q = nodeRoot \<or> 3 \<le> length q \<longrightarrow> set (p_keys (persist h) q s') = set (p_keys (persist h) q s)) \<and>
     (\<forall>q j. p_get (persist h) q j s' = p_get (persist h) q j s)"

lemma opensD:
  assumes "opens h s s'"
  shows "set (p_keys (persist h) q s) \<subseteq> set (p_keys (persist h) q s')"
    "set (p_keys (persist h) nodeRoot s') = set (p_keys (persist h) nodeRoot s)"
    "3 \<le> length q \<Longrightarrow> set (p_keys (persist h) q s') = set (p_keys (persist h) q s)"
    "p_get (persist h) q j s' = p_get (persist h) q j s"
  using assms by (auto simp: opens_def)

lemma opens_trans: "opens h s s' \<Longrightarrow> opens h s' s'' \<Longrightarrow> opens h s s''"
  unfolding opens_def by (simp add: subset_iff)

text \<open>Everything has been loaded.\<close>

lemma loading_complete:
  assumes "loading h C z0 z" "\<And>a. getNode a z0 \<noteq> None \<Longrightarrow> getNode a z \<noteq> None"
    and "\<And>d. getDevice d z0 \<noteq> None \<Longrightarrow> getDevice d z \<noteq> None"
  shows "gateway_ok h C z"
proof -
  note m = mirrorsD [OF loadingD(1) [OF assms(1)]]
  have "{a. getNode a z \<noteq> None} = {a. getNode a z0 \<noteq> None}"
    using assms(2) loadingD(3) [OF assms(1)] by blast
  moreover have "{d. getDevice d z \<noteq> None} = {d. getDevice d z0 \<noteq> None}"
    using assms(3) loadingD(4) [OF assms(1)] by blast
  ultimately have "mirrors h C z"
    using m loadingD(2,5) [OF assms(1)] by (intro mirrorsI) simp_all
  then show ?thesis using loadingD(6,7) [OF assms(1)] by (simp add: gateway_ok_def)
qed

context gateway begin

text \<open>A change of the store that keeps device \<open>d\<close>, with the table changed at most there.\<close>

lemma loading_step:
  assumes "loading h C z0 z" "getDevice d z0 \<noteq> None" "keeps h d (store (env z)) (store (env z'))"
    and "table_wf z'" "announced z'" "sequences_full z'"
    and "\<And>a. getNode a z' \<noteq> None \<Longrightarrow> getNode a z \<noteq> None"
    and "\<And>d'. d' \<noteq> d \<Longrightarrow> getDevice d' z' = getDevice d' z"
    and "\<And>dev. getDevice d z' = Some dev \<Longrightarrow> device_ok h C d (store (env z')) dev"
  shows "loading h C z0 z'"
proof -
  obtain dev0 where dev0: "getDevice d (z0\<lparr>env := env z\<rparr>) = Some dev0" using assms(2) by auto
  note m = loadingD(1) [OF assms(1)]
  have ok0: "device_ok h C d (store (env z)) dev0" using mirrorsD(6) [OF m dev0] by simp
  have "mirrors h C (z0\<lparr>env := env z, env := env z'\<rparr>)"
    by (rule mirrors_env [OF m dev0])
       (use keepsD(1) [OF assms(3)] keeps_device [OF assms(3) ok0] in simp_all)
  then have "mirrors h C (z0\<lparr>env := env z'\<rparr>)" by simp
  moreover have "getDevice d' z0 \<noteq> None \<and> device_ok h C d' (store (env z')) dev"
    if d': "getDevice d' z' = Some dev" for d' dev
  proof (cases "d' = d")
    case True
    with d' assms(2,9) show ?thesis by simp
  next
    case False
    then have z: "getDevice d' z = Some dev" using d' assms(8) by simp
    have pres: "present (persist h) (devicePath h d) (store (env z))" using ok0 by (simp add: device_ok_def)
    show ?thesis
      using device_ok_other [OF keepsD(1) [OF assms(3)] pres loadingD(5) [OF assms(1) z] False]
        loadingD(4) [OF assms(1) z] by simp
  qed
  ultimately show ?thesis
    using assms(4-7) loadingD(3) [OF assms(1)] unfolding loading_def by blast
qed

lemma loading_env:
  assumes "loading h C z0 z" "getDevice d z0 \<noteq> None" "keeps h d (store (env z)) (store e)"
    and "cap_effect (persist h) p (env z) e"
  shows "loading h C z0 (z\<lparr>env := e\<rparr>)"
proof (rule loading_step [OF assms(1,2)])
  show "announced (z\<lparr>env := e\<rparr>)"
    by (rule announced_effect [of "persist h" p z]) (use assms(4) loadingD(6) [OF assms(1)] in simp_all)
  show "sequences_full (z\<lparr>env := e\<rparr>)"
    by (rule sequences_full_effect [of "persist h" p z]) (use assms(4) loadingD(7) [OF assms(1)] in simp_all)
  show "device_ok h C d (store (env (z\<lparr>env := e\<rparr>))) dev" if "getDevice d (z\<lparr>env := e\<rparr>) = Some dev" for dev
    using that keeps_device [OF assms(3) loadingD(5) [OF assms(1)]] by simp
qed (use assms(3) loadingD(2) [OF assms(1)] in \<open>simp_all add: table_wf_def getNode_def\<close>)

section \<open>Loading one capability\<close>

text \<open>Attaching what was loaded: the implementation is in order (\<open>capability_ok\<close>) already.\<close>

lemma loading_attach:
  assumes "loading h C z0 z" "getDevice d z = Some dev" "capability_ok h C d (store (env z)) cf c"
  shows "loading h C z0 (attachCapabilityToDevice h C d c z)"
proof -
  let ?z3 = "attachCapabilityToDevice h C d c z"
  let ?s3 = "p_section (persist h) (capabilityPath h d cf) (sectionForDevice h d (store (env z)))"
  note dev = loadingD(4,5) [OF assms(1,2)]
  have c: "c_Capability C c = cf" using assms(3) by (simp add: capability_ok_def)
  have s3: "store (env ?z3) = ?s3" by (simp add: attachCapabilityToDevice_def Let_def c)
  have "present (persist h) (devicePath h d) (store (env z))" using dev(2) by (simp add: device_ok_def)
  then have keep: "keeps h d (store (env z)) ?s3"
    by (rule keeps_trans [OF keeps_sectionForDevice keeps_section [OF sectionForDevice_present]]) simp
  have cap: "capability_ok h C d ?s3 cf c" by (rule keeps_capability [OF keep assms(3)])
  have ok: "device_ok h C d ?s3 dev" by (rule keeps_device [OF keep dev(2)])
  show ?thesis
  proof (rule loading_step [OF assms(1) dev(1)])
    show "keeps h d (store (env z)) (store (env ?z3))" using keep s3 by simp
    show "table_wf ?z3"
      using loadingD(2) [OF assms(1)] unfolding attachCapabilityToDevice_def Let_def
      by (auto dest: table_wfD(3) intro!: table_wf_updDevice)
    show "announced ?z3" by (rule announced_attach [OF loadingD(6) [OF assms(1)]]) (use assms(2) in simp)
    show "sequences_full ?z3" using loadingD(7) [OF assms(1)] by (subst sequences_full_cong [of _ z]) simp_all
    show "device_ok h C d (store (env ?z3)) dev'" if "getDevice d ?z3 = Some dev'" for dev'
      unfolding s3 using that assms(2) ok cap by (auto simp: c device_ok_def split: if_splits)
  qed simp_all
qed

text \<open>Making, initialising and loading an implementation under the name the store has for it.\<close>

lemma loading_implementation:
  assumes z: "loading h C z0 z" "getDevice d z = Some dev"
    and name: "p_get (persist h) (capabilityRoot h d @ [k]) ''Implementation'' (store (env z)) = Some (PString impl)"
    and create: "c_Create C impl (env z) = (Some c, e2)"
    and init: "c_Init C d (capabilityRoot h d @ [k, ''Data'']) c
      (e2\<lparr>store := p_section (persist h) (capabilityRoot h d @ [k, ''Data'']) (store e2)\<rparr>) = (c1, e4)"
    and load: "c_Load C c1 e4 = (r, c2, e5)"
  shows "loading h C z0 (z\<lparr>env := e5\<rparr>) \<and> (\<exists>cf. capability_ok h C d (store e5) cf c2)"
proof -
  let ?p = "capabilityRoot h d @ [k]" and ?q = "capabilityRoot h d @ [k, ''Data'']"
  let ?e3 = "e2\<lparr>store := p_section (persist h) ?q (store e2)\<rparr>"
  note dev = loadingD(4,5) [OF z]
  have quiet: "quiet (env z) e2" using create_env [of "env z" impl] create by simp
  have "filed h d (store (env z))" using dev(2) by (simp add: device_ok_def)
  with name obtain cf where cf: "map_of Mapping impl = Some cf" "k = StandardNames h cf"
    unfolding filed_def by blast
  have path: "?p = capabilityPath h d cf" "?q = dataPath h d cf"
    by (simp_all add: capabilityPath_def dataPath_def cf(2))
  have "c_ImplName C c = impl" "c_Capability C c = cf" using create_name [of impl "env z" c] create cf(1) by simp_all
  then have "c_ImplName C c1 = impl" "c_Capability C c1 = cf" and c1: "c_Section C c1 = dataPath h d cf"
    using init_same [of d ?q c ?e3] init_section [of d ?q c ?e3] init path by simp_all
  then have c2: "c_ImplName C c2 = impl" "c_Capability C c2 = cf" "c_Section C c2 = dataPath h d cf"
    using load_same [OF load] by simp_all
  have "present (persist h) (devicePath h d) (store (env z))" using dev(2) by (simp add: device_ok_def)
  from keeps_section [OF this, of ?q] have keep3: "keeps h d (store (env z)) (store ?e3)"
    using quiet by (simp add: quiet_def capabilityRoot_def)
  have pres3: "present (persist h) (dataPath h d cf) (store ?e3)" using path(2) P.section_present by simp
  have "cap_effect (persist h) (dataPath h d cf) ?e3 e4" using init_env [of ?q ?e3 d c] init path by simp
  moreover have "cap_effect (persist h) (dataPath h d cf) e4 e5" using load_env [OF load] c1 by simp
  ultimately have eff: "cap_effect (persist h) (dataPath h d cf) ?e3 e5" by (rule cap_effect_trans)
  then have "only_below (persist h) (dataPath h d cf) (store ?e3) (store e5)"
    using pres3 by (simp add: cap_effect_def)
  from keeps_data [OF this] have keep35: "keeps h d (store ?e3) (store e5)" .
  note keep5 = keeps_trans [OF keep3 keep35]
  have "cap_effect (persist h) [] (env z) ?e3" using quiet by (simp add: quiet_def cap_effect_def only_below_def)
  moreover have "cap_effect (persist h) [] ?e3 e5" using eff by (simp add: cap_effect_def only_below_def)
  ultimately have "cap_effect (persist h) [] (env z) e5" by (rule cap_effect_trans)
  then have "loading h C z0 (z\<lparr>env := e5\<rparr>)" by (intro loading_env [OF z(1) dev(1)]) (use keep5 in simp_all)
  moreover have "p_get (persist h) ?p ''Implementation'' (store e5) = Some (PString impl)"
    using keepsD(4) [OF keep5] name by simp
  then have "capability_ok h C d (store e5) cf c2"
    using c2 cf keepsD(2) [OF keep35 pres3] by (simp add: capability_ok_def capabilityPath_def)
  ultimately show ?thesis by blast
qed

lemma loadCapability_ok:
  assumes "loading h C z0 z" "getDevice d z = Some dev"
  shows "loading h C z0 (loadCapability h C d k z) \<and>
    (\<forall>a. (getNode a (loadCapability h C d k z) = None) = (getNode a z = None)) \<and>
    (\<forall>d'. (getDevice d' (loadCapability h C d k z) = None) = (getDevice d' z = None))"
proof -
  let ?p = "capabilityRoot h d @ [k]"
  let ?z1 = "onStore (p_section (persist h) ?p) z"
  note dev = loadingD(4,5) [OF assms]
  have "present (persist h) (devicePath h d) (store (env z))" using dev(2) by (simp add: device_ok_def)
  from keeps_section [OF this, of ?p] have "keeps h d (store (env z)) (store (env ?z1))" by (simp add: capabilityRoot_def)
  moreover have "cap_effect (persist h) [] (env z) (env ?z1)"
    by (simp add: cap_effect_def only_below_def onStore_def)
  ultimately have "loading h C z0 (z\<lparr>env := env ?z1\<rparr>)" by (intro loading_env [OF assms(1) dev(1)])
  moreover have "z\<lparr>env := env ?z1\<rparr> = ?z1" by (simp add: onStore_def)
  ultimately have l1: "loading h C z0 ?z1" by simp
  have d1: "getDevice d ?z1 = Some dev" using assms(2) by simp
  show ?thesis
  proof (cases "sectionString (persist h) ?p ''Implementation'' (store (env ?z1))")
    case None
    with l1 show ?thesis by (simp add: loadCapability_def Let_def)
  next
    case impl: (Some impl)
    obtain co e2 where create: "c_Create C impl (env ?z1) = (co, e2)" by (cases "c_Create C impl (env ?z1)")
    show ?thesis
    proof (cases co)
      case None
      have "quiet (env ?z1) e2" using create_env [of "env ?z1" impl] create by simp
      then have "loading h C z0 (?z1\<lparr>env := e2\<rparr>)"
        by (intro loading_env [OF l1 dev(1)]) (auto simp: quiet_effect quiet_def)
      with impl create None show ?thesis by (simp add: loadCapability_def Let_def)
    next
      case (Some c)
      let ?e3 = "e2\<lparr>store := p_section (persist h) (?p @ [''Data'']) (store e2)\<rparr>"
      obtain c1 e4 where init: "c_Init C d (?p @ [''Data'']) c ?e3 = (c1, e4)"
        by (cases "c_Init C d (?p @ [''Data'']) c ?e3")
      obtain attached err c2 e5 where load: "c_Load C c1 e4 = ((attached, err), c2, e5)"
        by (cases "c_Load C c1 e4") auto
      let ?z2 = "?z1\<lparr>env := e5\<rparr>"
      have z': "loadCapability h C d k z = (if attached then attachCapabilityToDevice h C d c2 ?z2 else ?z2)"
        using impl create Some init load by (simp add: loadCapability_def Let_def)
      have "p_get (persist h) ?p ''Implementation'' (store (env ?z1)) = Some (PString impl)"
        using impl by (auto simp: sectionString_def split: option.splits pval.splits)
      from loading_implementation [OF l1 d1 this create [unfolded Some] _ load] init obtain cf where
        l2: "loading h C z0 ?z2" and cap: "capability_ok h C d (store (env ?z2)) cf c2" by auto
      have "getDevice d ?z2 = Some dev" using assms(2) by simp
      with loading_attach [OF l2 this cap] l2 z' show ?thesis by simp
    qed
  qed
qed

lemma loadCapabilities_ok:
  assumes "loading h C z0 z" "getDevice d z \<noteq> None"
  shows "loading h C z0 (fold (loadCapability h C d) ks z) \<and>
    (\<forall>a. (getNode a (fold (loadCapability h C d) ks z) = None) = (getNode a z = None)) \<and>
    (\<forall>d'. (getDevice d' (fold (loadCapability h C d) ks z) = None) = (getDevice d' z = None))"
  using assms
proof (induction ks arbitrary: z)
  case (Cons k ks)
  from Cons.prems(2) obtain dev where "getDevice d z = Some dev" by blast
  note one = loadCapability_ok [OF Cons.prems(1) this, of k]
  have "getDevice d (loadCapability h C d k z) \<noteq> None"
    using one [THEN conjunct2, THEN conjunct2, rule_format, of d] Cons.prems(2) by metis
  note IH = Cons.IH [OF one [THEN conjunct1] this]
  show ?case using IH one by simp
qed simp

section \<open>Loading devices and nodes\<close>

text \<open>The device as it is made, and with the identity its section has for it.\<close>

abbreviation (input) newlyMade where
  "newlyMade d z \<equiv> onStore (sectionForDevice h d) (snd (createSpecificDevice h (IEEEAddress d) (SubIdentifier d) z))"

abbreviation (input) identified where
  "identified d z \<equiv> (case sectionInt (persist h) (devicePath h d) ''UniqueId'' (store (env z)) of
     None \<Rightarrow> z | Some n \<Rightarrow> setDeviceUniqueId h d n z)"

lemma newlyMade_ok:
  assumes "loading h C z0 z" "getNode (IEEEAddress d) z \<noteq> None" "present (persist h) (devicePath h d) (store (env z))"
  shows "keeps h d (store (env z)) (store (env (newlyMade d z)))"
    "getDevice d' (newlyMade d z) = (if d' = d then Some newDevice else getDevice d' z)"
    "(getNode b (newlyMade d z) = None) = (getNode b z = None)"
    "events (env (newlyMade d z)) = events (env z) @ [EvDeviceAdded d, EvCapabilityAdded d EnumerateDeviceFlag,
      EvCapabilityAdded d DeviceRemovalFlag]"
    "nodeTx (env (newlyMade d z)) = nodeTx (env z)" "table_wf (newlyMade d z)"
proof -
  let ?z1 = "snd (createSpecificDevice h (IEEEAddress d) (SubIdentifier d) z)"
  have d: "addressOf (IEEEAddress d) (SubIdentifier d) = d" by simp
  note dev = createSpecificDevice_devices [OF assms(2), where i = "SubIdentifier d", unfolded d]
  have "store (env ?z1) = sectionForDevice h d (store (env z))"
    by (simp add: createSpecificDevice_def Let_def d)
  then show "keeps h d (store (env z)) (store (env (newlyMade d z)))"
    using keeps_trans [OF keeps_sectionForDevice [OF assms(3)] keeps_sectionForDevice [OF sectionForDevice_present]]
    by simp
  show "getDevice d' (newlyMade d z) = (if d' = d then Some newDevice else getDevice d' z)"
    "(getNode b (newlyMade d z) = None) = (getNode b z = None)" by (simp_all add: dev)
  show "events (env (newlyMade d z)) = events (env z) @ [EvDeviceAdded d, EvCapabilityAdded d EnumerateDeviceFlag,
      EvCapabilityAdded d DeviceRemovalFlag]" "nodeTx (env (newlyMade d z)) = nodeTx (env z)"
    by (simp_all add: createSpecificDevice_def Let_def d)
  have "table_wf ?z1"
    using loadingD(2) [OF assms(1)] unfolding createSpecificDevice_def
    by (auto simp: Let_def newDevice_def table_wf_def [of z] intro!: table_wf_updNode split: if_splits)
  then show "table_wf (newlyMade d z)" by simp
qed

lemma identified_ok:
  assumes "device_ok h C d s dev0" "keeps h d s (store (env z))" "getDevice d z = Some newDevice" "table_wf z"
  shows "keeps h d s (store (env (identified d z)))"
    "getDevice d' (identified d z) =
      (if d' = d then Some (newDevice\<lparr>deviceId := deviceId dev0, deviceIdSet := deviceIdSet dev0\<rparr>) else getDevice d' z)"
    "(getNode b (identified d z) = None) = (getNode b z = None)" "events (env (identified d z)) = events (env z)"
    "nodeTx (env (identified d z)) = nodeTx (env z)" "table_wf (identified d z)"
proof -
  have pres: "present (persist h) (devicePath h d) (store (env z))"
    using keeps_present [OF assms(2)] assms(1) by (simp add: device_ok_def)
  have uid: "p_get (persist h) (devicePath h d) ''UniqueId'' (store (env z)) =
      (if deviceIdSet dev0 then Some (PInt (deviceId dev0)) else None)"
    using keepsD(3) [OF assms(2)] assms(1) by (simp add: device_ok_def)
  have id: "sectionInt (persist h) (devicePath h d) ''UniqueId'' (store (env z)) =
      (if deviceIdSet dev0 then Some (deviceId dev0) else None)"
    unfolding sectionInt_def uid by simp
  show "getDevice d' (identified d z) =
      (if d' = d then Some (newDevice\<lparr>deviceId := deviceId dev0, deviceIdSet := deviceIdSet dev0\<rparr>) else getDevice d' z)"
    using assms(1,3) unfolding id by (auto simp: newDevice_def device_ok_def)
  show "(getNode b (identified d z) = None) = (getNode b z = None)" "events (env (identified d z)) = events (env z)"
    "nodeTx (env (identified d z)) = nodeTx (env z)" by (simp_all split: option.split)
  show "table_wf (identified d z)"
    using assms(4) by (auto simp: setDeviceUniqueId_def split: option.split intro!: table_wf_updDevice dest: table_wfD(3))
  show "keeps h d s (store (env (identified d z)))"
  proof (cases "deviceIdSet dev0")
    case False
    with assms(2) show ?thesis by (simp add: id)
  next
    case True
    note k = keeps_sectionForDevice [OF pres]
    have "p_get (persist h) (devicePath h d) ''UniqueId'' (sectionForDevice h d (store (env z))) = Some (PInt (deviceId dev0))"
      using keepsD(3) [OF k] uid True by simp
    from keeps_trans [OF keeps_trans [OF assms(2) k] keeps_setUniqueId [OF this]] True
    show ?thesis by (simp add: id setDeviceUniqueId_def)
  qed
qed

lemma providerLoadDevice_start:
  assumes "loading h C z0 z" "getDevice d z0 \<noteq> None" "getNode (IEEEAddress d) z \<noteq> None"
  shows "\<exists>z4. loading h C z0 z4 \<and> (\<forall>a. (getNode a z4 = None) = (getNode a z = None)) \<and>
    (\<forall>d'. (getDevice d' z4 = None) = (d' \<noteq> d \<and> getDevice d' z = None)) \<and>
    providerLoadDevice h C (IEEEAddress d) d z =
      fold (loadCapability h C d) (p_keys (persist h) (capabilityRoot h d) (store (env z4))) z4"
proof -
  let ?z1 = "snd (createSpecificDevice h (IEEEAddress d) (SubIdentifier d) z)"
  define z2 where z2: "z2 = newlyMade d z"
  define z3 where z3: "z3 = identified d z2"
  define z4 where z4: "z4 = onStore (p_section (persist h) (capabilityRoot h d)) z3"
  obtain dev0 where dev0: "getDevice d (z0\<lparr>env := env z\<rparr>) = Some dev0" using assms(2) by auto
  have ok0: "device_ok h C d (store (env z)) dev0"
    using mirrorsD(6) [OF loadingD(1) [OF assms(1)] dev0] by simp
  have pres: "present (persist h) (devicePath h d) (store (env z))" using ok0 by (simp add: device_ok_def)
  note c = newlyMade_ok [OF assms(1,3) pres, folded z2]
  have "getDevice d z2 = Some newDevice" using c(2) [of d] by simp
  note r = identified_ok [OF ok0 c(1) this c(6), folded z3]
  have dev: "getDevice d' z4 = (if d' = d then Some (newDevice\<lparr>deviceId := deviceId dev0, deviceIdSet := deviceIdSet dev0\<rparr>)
      else getDevice d' z)" for d'
    using r(2) [of d'] c(2) [of d'] by (simp add: z4)
  have node: "(getNode b z4 = None) = (getNode b z = None)" for b using r(3) c(3) by (simp add: z4)
  have k: "keeps h d (store (env z)) (store (env z4))"
    using keeps_trans [OF r(1) keeps_section [OF keeps_present [OF r(1) pres], of "capabilityRoot h d"]] by (simp add: z4)
  have "loading h C z0 z4"
  proof (rule loading_step [OF assms(1,2) k])
    show "table_wf z4" using r(6) by (simp add: z4)
    have "tableView z4 = (tableView z)(d := Some {EnumerateDeviceFlag, DeviceRemovalFlag})"
      by (rule ext) (simp add: tableView_def dev newDevice_def deviceCapabilities_def)
    then show "announced z4"
      using loadingD(6) [OF assms(1)] r(4) c(4) by (auto simp: announced_def z4 fun_eq_iff)
    show "sequences_full z4"
      using loadingD(7) [OF assms(1)] r(5) c(5) by (subst sequences_full_cong [of _ z]) (simp_all add: node, simp add: z4)
    show "device_ok h C d (store (env z4)) dev'" if "getDevice d z4 = Some dev'" for dev'
    proof -
      have "dev' = newDevice\<lparr>deviceId := deviceId dev0, deviceIdSet := deviceIdSet dev0\<rparr>"
        using that dev [of d] by simp
      then show ?thesis
        using keeps_device [OF k ok0] by (simp add: device_ok_def newDevice_def)
    qed
  qed (simp_all add: node dev)
  moreover have split: "createSpecificDevice h (IEEEAddress d) (SubIdentifier d) z = (d, ?z1)"
    by (simp add: prod_eq_iff createSpecificDevice_def Let_def)
  have "providerLoadDevice h C (IEEEAddress d) d z =
      fold (loadCapability h C d) (p_keys (persist h) (capabilityRoot h d) (store (env z4))) z4"
    unfolding providerLoadDevice_def z4 z3 z2 by (subst split) (simp only: prod.case Let_def)
  ultimately show ?thesis using node dev by (intro exI [of _ z4]) simp
qed

lemma providerLoadDevice_ok:
  assumes "loading h C z0 z" "getDevice d z0 \<noteq> None" "getNode (IEEEAddress d) z \<noteq> None"
  shows "loading h C z0 (providerLoadDevice h C (IEEEAddress d) d z) \<and>
    (\<forall>a. (getNode a (providerLoadDevice h C (IEEEAddress d) d z) = None) = (getNode a z = None)) \<and>
    (\<forall>d'. (getDevice d' (providerLoadDevice h C (IEEEAddress d) d z) = None) = (d' \<noteq> d \<and> getDevice d' z = None))"
proof -
  obtain z4 where z4: "loading h C z0 z4" "\<forall>a. (getNode a z4 = None) = (getNode a z = None)"
    "\<forall>d'. (getDevice d' z4 = None) = (d' \<noteq> d \<and> getDevice d' z = None)"
    "providerLoadDevice h C (IEEEAddress d) d z =
      fold (loadCapability h C d) (p_keys (persist h) (capabilityRoot h d) (store (env z4))) z4"
    using providerLoadDevice_start [OF assms] by blast
  have "getDevice d z4 \<noteq> None" using z4(3) [rule_format, of d] by simp
  from loadCapabilities_ok [OF z4(1) this] z4(2,3) show ?thesis unfolding z4(4) by simp
qed

end

section \<open>What comes back\<close>

text \<open>An implementation the factory does not make, or whose \<open>Load\<close> says not to attach.\<close>

definition declined :: "('c, 's, 'x) zdaCapability \<Rightarrow> string \<Rightarrow> bool" where
  "declined C impl \<longleftrightarrow>
     (\<exists>e. fst (c_Create C impl e) = None) \<or>
     (\<exists>c e err c' e'. c_ImplName C c = impl \<and> c_Load C c e = ((False, err), c', e'))"

definition restored ::
  "('c, 's, 'x) zdaCapability \<Rightarrow> ('c, 's, 'x) ZDA \<Rightarrow> address \<Rightarrow> ('c, 's, 'x) ZDA \<Rightarrow> bool" where
  "restored C z0 d z \<longleftrightarrow>
     (\<forall>cf c. map_of (deviceCaps d z0) cf = Some c \<longrightarrow>
        map_of (deviceCaps d z) cf \<noteq> None \<or> declined C (c_ImplName C c))"

lemma deviceCaps_cong: "getDevice d z = getDevice d z' \<Longrightarrow> deviceCaps d z = deviceCaps d z'"
  by (simp add: deviceCaps_def)

context gateway begin

lemma loadCapability_other:
  "d' \<noteq> d \<Longrightarrow> getDevice d' (loadCapability h C d k z) = getDevice d' z"
  by (simp add: loadCapability_def Let_def split: option.split prod.split)

lemma loadCapability_grows:
  "map_of (deviceCaps d z) cf \<noteq> None \<Longrightarrow> map_of (deviceCaps d (loadCapability h C d k z)) cf \<noteq> None"
  by (auto simp: loadCapability_def Let_def deviceCaps_def split: option.splits prod.splits)

lemma fold_loadCapability_other:
  "d' \<noteq> d \<Longrightarrow> getDevice d' (fold (loadCapability h C d) ks z) = getDevice d' z"
  by (induction ks arbitrary: z) (simp_all add: loadCapability_other)

lemma fold_loadCapability_grows:
  "map_of (deviceCaps d z) cf \<noteq> None \<Longrightarrow>
     map_of (deviceCaps d (fold (loadCapability h C d) ks z)) cf \<noteq> None"
proof (induction ks arbitrary: z)
  case (Cons k ks)
  from Cons.IH [OF loadCapability_grows [OF Cons.prems]] show ?case by simp
qed simp

lemma createSpecificDevice_other:
  "d \<noteq> addressOf a i \<Longrightarrow> getDevice d (snd (createSpecificDevice h a i z)) = getDevice d z"
  by (cases "getNode a z")
     (auto simp: createSpecificDevice_def Let_def getDevice_updNode getDevice_def address_eq_iff getNode_updNode)

lemma providerLoadDevice_fold:
  obtains z4 where
    "providerLoadDevice h C a d z = fold (loadCapability h C (addressOf a (SubIdentifier d)))
       (p_keys (persist h) (capabilityRoot h d) (store (env z4))) z4"
    "\<And>d'. d' \<noteq> addressOf a (SubIdentifier d) \<Longrightarrow> getDevice d' z4 = getDevice d' z"
proof (rule that)
  let ?d = "addressOf a (SubIdentifier d)"
  let ?z2 = "onStore (sectionForDevice h d) (snd (createSpecificDevice h a (SubIdentifier d) z))"
  let ?z4 = "onStore (p_section (persist h) (capabilityRoot h d))
    (case sectionInt (persist h) (devicePath h d) ''UniqueId'' (store (env ?z2)) of
       None \<Rightarrow> ?z2 | Some n \<Rightarrow> setDeviceUniqueId h ?d n ?z2)"
  have split: "createSpecificDevice h a (SubIdentifier d) z = (?d, snd (createSpecificDevice h a (SubIdentifier d) z))"
    by (simp add: prod_eq_iff createSpecificDevice_def Let_def)
  show "providerLoadDevice h C a d z =
      fold (loadCapability h C ?d) (p_keys (persist h) (capabilityRoot h d) (store (env ?z4))) ?z4"
    unfolding providerLoadDevice_def by (subst split) (simp only: prod.case Let_def)
  show "getDevice d' ?z4 = getDevice d' z" if "d' \<noteq> ?d" for d'
    using that by (simp add: createSpecificDevice_other split: option.split)
qed

lemma providerLoadDevice_other:
  assumes "d' \<noteq> addressOf a (SubIdentifier d)"
  shows "getDevice d' (providerLoadDevice h C a d z) = getDevice d' z"
  by (rule providerLoadDevice_fold [where a = a and d = d and z = z]) (simp add: assms fold_loadCapability_other)

lemma loadCapability_restores:
  assumes "loading h C z0 z" "getDevice d z \<noteq> None" "map_of (deviceCaps d z0) cf = Some c0"
  shows "map_of (deviceCaps d (loadCapability h C d (StandardNames h cf) z)) cf \<noteq> None \<or>
    declined C (c_ImplName C c0)"
proof -
  let ?p = "capabilityRoot h d @ [StandardNames h cf]"
  let ?z1 = "onStore (p_section (persist h) ?p) z"
  obtain dev0 where dev0: "getDevice d (z0\<lparr>env := env z\<rparr>) = Some dev0" "map_of (capabilities dev0) cf = Some c0"
    using assms(3) by (auto simp: deviceCaps_def split: option.splits)
  have ok: "capability_ok h C d (store (env z)) cf c0"
    using mirrorsD(6) [OF loadingD(1) [OF assms(1)] dev0(1)] dev0(2) by (simp add: device_ok_def)
  then have name: "sectionString (persist h) ?p ''Implementation'' (store (env ?z1)) = Some (c_ImplName C c0)"
    by (simp add: capability_ok_def capabilityPath_def sectionString_def P.get_section)
  obtain co e2 where create: "c_Create C (c_ImplName C c0) (env ?z1) = (co, e2)"
    by (cases "c_Create C (c_ImplName C c0) (env ?z1)")
  show ?thesis
  proof (cases co)
    case None
    with create show ?thesis unfolding declined_def by (metis fst_conv)
  next
    case (Some c)
    let ?e3 = "e2\<lparr>store := p_section (persist h) (?p @ [''Data'']) (store e2)\<rparr>"
    obtain c1 e4 where init: "c_Init C d (?p @ [''Data'']) c ?e3 = (c1, e4)"
      by (cases "c_Init C d (?p @ [''Data'']) c ?e3")
    obtain attached err c2 e5 where load: "c_Load C c1 e4 = ((attached, err), c2, e5)"
      by (cases "c_Load C c1 e4") auto
    have "c_ImplName C c = c_ImplName C c0" "c_Capability C c = cf"
      using create_name [of "c_ImplName C c0" "env ?z1" c] create Some ok by (simp_all add: capability_ok_def)
    then have c1: "c_ImplName C c1 = c_ImplName C c0" "c_Capability C c1 = cf"
      using init_same [of d "?p @ [''Data'']" c ?e3] init by simp_all
    show ?thesis
    proof (cases attached)
      case False
      with load c1 have "\<exists>c e err c' e'. c_ImplName C c = c_ImplName C c0 \<and> c_Load C c e = ((False, err), c', e')"
        by (metis (full_types))
      then show ?thesis unfolding declined_def by (intro disjI2)
    next
      case True
      have "loadCapability h C d (StandardNames h cf) z = attachCapabilityToDevice h C d c2 (?z1\<lparr>env := e5\<rparr>)"
        using name create Some init load True by (simp add: loadCapability_def Let_def)
      moreover have "c_Capability C c2 = cf" using load_same [OF load] c1 by simp
      ultimately show ?thesis using attach_change(2) [of d "?z1\<lparr>env := e5\<rparr>" c2] assms(2) by simp
    qed
  qed
qed

lemma loadCapabilities_restore:
  assumes "loading h C z0 z" "getDevice d z \<noteq> None" "map_of (deviceCaps d z0) cf = Some c0"
    and "StandardNames h cf \<in> set ks"
  shows "map_of (deviceCaps d (fold (loadCapability h C d) ks z)) cf \<noteq> None \<or> declined C (c_ImplName C c0)"
  using assms
proof (induction ks arbitrary: z)
  case (Cons k ks)
  show ?case
  proof (cases "k = StandardNames h cf")
    case True
    with loadCapability_restores [OF Cons.prems(1-3)] fold_loadCapability_grows [of d "loadCapability h C d k z" cf ks]
    show ?thesis by simp blast
  next
    case False
    note one = loadCapabilities_ok [OF Cons.prems(1,2), of "[k]"]
    have "loading h C z0 (loadCapability h C d k z)" "getDevice d (loadCapability h C d k z) \<noteq> None"
      using one Cons.prems(2) by simp_all
    from Cons.IH [OF this Cons.prems(3)] Cons.prems(4) False show ?thesis by simp
  qed
qed simp

lemma restored_cong: "getDevice d z = getDevice d z' \<Longrightarrow> restored C z0 d z = restored C z0 d z'"
  by (simp add: restored_def deviceCaps_def)

lemma providerLoadDevice_restores:
  assumes "loading h C z0 z" "getDevice d z0 \<noteq> None" "getNode (IEEEAddress d) z \<noteq> None"
  shows "restored C z0 d (providerLoadDevice h C (IEEEAddress d) d z)"
  unfolding restored_def
proof (intro allI impI)
  fix cf c
  assume c: "map_of (deviceCaps d z0) cf = Some c"
  obtain z4 where z4: "loading h C z0 z4" "\<forall>d'. (getDevice d' z4 = None) = (d' \<noteq> d \<and> getDevice d' z = None)"
    "providerLoadDevice h C (IEEEAddress d) d z =
      fold (loadCapability h C d) (p_keys (persist h) (capabilityRoot h d) (store (env z4))) z4"
    using providerLoadDevice_start [OF assms] by blast
  obtain dev0 where dev0: "getDevice d (z0\<lparr>env := env z4\<rparr>) = Some dev0" "map_of (capabilities dev0) cf = Some c"
    using c by (auto simp: deviceCaps_def split: option.splits)
  have "present (persist h) (dataPath h d cf) (store (env z4))"
    using mirrorsD(6) [OF loadingD(1) [OF z4(1)] dev0(1)] dev0(2) by (simp add: device_ok_def capability_ok_def)
  then have "StandardNames h cf \<in> set (p_keys (persist h) (capabilityRoot h d) (store (env z4)))"
    by (simp add: present_def dataPath_def capabilityPath_def)
  moreover have "getDevice d z4 \<noteq> None" using z4(2) [rule_format, of d] by simp
  ultimately show "map_of (deviceCaps d (providerLoadDevice h C (IEEEAddress d) d z)) cf \<noteq> None \<or>
      declined C (c_ImplName C c)"
    unfolding z4(3) by (intro loadCapabilities_restore [OF z4(1) _ c])
qed

lemma providerLoadDevices_restore:
  assumes "loading h C z0 z" "\<forall>d \<in> set ds. getDevice d z0 \<noteq> None \<and> IEEEAddress d = a" "getNode a z \<noteq> None"
    and "d \<in> set ds \<or> restored C z0 d z"
  shows "restored C z0 d (fold (providerLoadDevice h C a) ds z)"
  using assms
proof (induction ds arbitrary: z)
  case (Cons d' ds)
  then have d': "getDevice d' z0 \<noteq> None" "IEEEAddress d' = a" by simp_all
  note one = providerLoadDevice_ok [OF Cons.prems(1) d'(1), unfolded d'(2), OF Cons.prems(3)]
  note again = providerLoadDevice_restores [OF Cons.prems(1) d'(1), unfolded d'(2), OF Cons.prems(3)]
  have here: "addressOf a (SubIdentifier d') = d'" using d'(2) by simp
  have node: "getNode a (providerLoadDevice h C a d' z) \<noteq> None"
    using one [THEN conjunct2, THEN conjunct1, rule_format, of a] Cons.prems(3) by metis
  have "d \<in> set ds \<or> restored C z0 d (providerLoadDevice h C a d' z)"
  proof (cases "d = d'")
    case False
    then have "getDevice d (providerLoadDevice h C a d' z) = getDevice d z"
      by (intro providerLoadDevice_other) (simp add: here)
    note same = restored_cong [OF this, of z0]
    from Cons.prems(4) False show ?thesis unfolding same by simp
  qed (use again in simp)
  from Cons.IH [OF one [THEN conjunct1] _ node this] Cons.prems(2) show ?case by simp
qed simp

section \<open>Nodes, and everything\<close>

lemma providerLoadDevices_ok:
  assumes "loading h C z0 z" "\<forall>d \<in> set ds. getDevice d z0 \<noteq> None \<and> IEEEAddress d = a" "getNode a z \<noteq> None"
  shows "loading h C z0 (fold (providerLoadDevice h C a) ds z) \<and>
    (\<forall>b. (getNode b (fold (providerLoadDevice h C a) ds z) = None) = (getNode b z = None)) \<and>
    (\<forall>d. (getDevice d (fold (providerLoadDevice h C a) ds z) = None) = (d \<notin> set ds \<and> getDevice d z = None))"
  using assms
proof (induction ds arbitrary: z)
  case (Cons d ds)
  then have d: "getDevice d z0 \<noteq> None" "IEEEAddress d = a" by simp_all
  note one = providerLoadDevice_ok [OF Cons.prems(1) d(1), unfolded d(2), OF Cons.prems(3)]
  have "getNode a (providerLoadDevice h C a d z) \<noteq> None"
    using one [THEN conjunct2, THEN conjunct1, rule_format, of a] Cons.prems(3) by metis
  from Cons.IH [OF one [THEN conjunct1] _ this] Cons.prems(2) show ?case using one by simp blast
qed simp

lemma opens_section:
  assumes "length q \<le> 3" "\<And>k r. q = ''Node'' # k # r \<Longrightarrow> k \<in> set (p_keys (persist h) nodeRoot s)"
  shows "opens h s (p_section (persist h) q s)"
  using assms
  by (auto simp: opens_def P.keys_section P.get_section nodeRoot_def prefix_def Cons_eq_append_conv)

lemma loading_opens:
  assumes "loading h C z0 z" "opens h (store (env z)) s"
  shows "loading h C z0 (onStore (\<lambda>_. s) z)"
proof -
  note o = opensD [OF assms(2)]
  have pres: "present (persist h) q s" if "present (persist h) q (store (env z))" for q
    using that o(1) by (auto simp: present_def)
  have cap: "capability_ok h C d s cf c" if "capability_ok h C d (store (env z)) cf c" for d cf c
    using that by (simp add: capability_ok_def pres o(4))
  have dev: "device_ok h C d s dev" if "device_ok h C d (store (env z)) dev" for d dev
    using that by (simp add: device_ok_def pres o(4) cap filed_def)
  have "nodeKeys h s = nodeKeys h (store (env z))" "deviceKeys h s = deviceKeys h (store (env z))"
    "canonical h s = canonical h (store (env z))"
    by (simp_all add: nodeKeys_def deviceKeys_def canonical_def o(2) o(3) deviceRoot_def nodePath_def)
  moreover have "clean h s = clean h (store (env z))"
  proof -
    have "set (p_keys (persist h) q s) = set (p_keys (persist h) q (store (env z)))"
      if "prefix (devicePath h d) q" for q d
      using prefix_length_le [OF that] by (intro o(3)) simp
    then show ?thesis
      unfolding clean_def empty_keys_iff by (simp add: o(4) calculation)
  qed
  ultimately have "mirrors h C (z0\<lparr>env := env (onStore (\<lambda>_. s) z)\<rparr>)"
    using loadingD(1) [OF assms(1)] by (simp add: mirrors_def dev)
  moreover have "announced (onStore (\<lambda>_. s) z)" "sequences_full (onStore (\<lambda>_. s) z)"
    using loadingD(6,7) [OF assms(1)] by (simp_all add: announced_def tableView_def fun_eq_iff sequences_full_def)
  ultimately show ?thesis
    using assms(1) by (simp add: loading_def dev)
qed

lemma loading_createNode:
  assumes "loading h C z0 z" "getNode a z0 \<noteq> None"
  shows "loading h C z0 (snd (createNode h a z))"
proof (cases "getNode a z")
  case (Some n)
  then show ?thesis using assms(1) by (simp add: createNode_def getNode_def)
next
  case None
  let ?z = "snd (createNode h a z)" and ?s = "sectionForNode h a (store (env z))"
  have key: "ieeeString h a \<in> set (p_keys (persist h) nodeRoot (store (env z)))"
    using mirrorsD(4) [OF loadingD(1) [OF assms(1)]] assms(2) by (auto simp: nodeKeys_def)
  have "opens h (store (env z)) ?s"
    unfolding sectionForNode_def by (rule opens_section) (use key in \<open>simp_all add: nodePath_def\<close>)
  from loading_opens [OF assms(1) this] have l: "loading h C z0 (onStore (\<lambda>_. ?s) z)" .
  have store: "store (env ?z) = ?s" and ev: "events (env ?z) = events (env z)"
    and tx: "nodeTx (env ?z) = (nodeTx (env z))(a := \<lparr>sequence = makeTransactionSequence, useAPSAck = False\<rparr>)"
    using None by (simp_all add: createNode_def getNode_def)
  have "table_wf ?z"
  proof -
    have "wf_map (node ?z)"
      using table_wfD(1) [OF loadingD(2) [OF assms(1)]] None by (simp add: createNode_def getNode_def)
    then show ?thesis
      using loadingD(2) [OF assms(1)] unfolding table_wf_def createNode_table by (auto simp: newNode_def)
  qed
  moreover have "mirrors h C (z0\<lparr>env := env ?z\<rparr>)"
    using loadingD(1) [OF l] by (simp add: mirrors_def store)
  moreover have "announced ?z"
    using loadingD(6) [OF assms(1)] by (simp add: announced_def tableView_def fun_eq_iff ev createNode_table)
  moreover have "sequences_full ?z"
    using loadingD(7) [OF assms(1)] by (auto simp: sequences_full_def tx createNode_table split: if_splits)
  ultimately show ?thesis
    using assms(2) loadingD(3-5) [OF l] None
    by (auto simp: loading_def createNode_table store split: if_splits)
qed

lemma providerLoadNode_start:
  assumes "loading h C z0 z" "getNode a z0 \<noteq> None"
  shows "\<exists>z2 ds. loading h C z0 z2 \<and> (\<forall>b. (getNode b z2 = None) = (b \<noteq> a \<and> getNode b z = None)) \<and>
    (\<forall>d. getDevice d z2 = getDevice d z) \<and> set ds = {d. getDevice d z0 \<noteq> None \<and> IEEEAddress d = a} \<and>
    providerLoadNode h C a z = fold (providerLoadDevice h C a) ds z2"
proof -
  let ?z1 = "snd (createNode h a z)"
  let ?s = "store (env ?z1)"
  obtain ds s where list: "deviceListFromPersistence h a ?s = (ds, s)" by (cases "deviceListFromPersistence h a ?s")
  let ?z2 = "onStore (\<lambda>_. s) ?z1"
  note l1 = loading_createNode [OF assms]
  note m = mirrorsD [OF loadingD(1) [OF l1]]
  have key: "ieeeString h a \<in> set (p_keys (persist h) nodeRoot ?s)"
    using m(4) assms(2) by (auto simp: nodeKeys_def)
  have o1: "opens h ?s (sectionForNode h a ?s)"
    unfolding sectionForNode_def by (rule opens_section) (use key in \<open>simp_all add: nodePath_def\<close>)
  have "opens h (sectionForNode h a ?s) (p_section (persist h) (deviceRoot h a) (sectionForNode h a ?s))"
    by (rule opens_section) (use key opensD(2) [OF o1] in \<open>simp_all add: deviceRoot_def nodePath_def\<close>)
  from opens_trans [OF o1 this] have "opens h ?s s"
    using list by (simp add: deviceListFromPersistence_def Let_def)
  note l2 = loading_opens [OF l1 this]
  have "set ds = {d \<in> deviceKeys h ?s. IEEEAddress d = a}"
    using deviceListFromPersistence_deviceKeys [OF host, of ?s a] m(2) list by simp
  then have ds: "set ds = {d. getDevice d z0 \<noteq> None \<and> IEEEAddress d = a}"
    using m(5) by auto
  have z: "providerLoadNode h C a z = fold (providerLoadDevice h C a) ds ?z2"
    using list by (cases "createNode h a z") (simp add: providerLoadNode_def)
  have "(getNode b ?z2 = None) = (b \<noteq> a \<and> getNode b z = None)" for b
    by (cases "b = a") (auto simp: createNode_table)
  moreover have "getDevice d ?z2 = getDevice d z" for d by (simp add: createNode_table)
  ultimately show ?thesis using l2 ds z by blast
qed

lemma providerLoadNode_ok:
  assumes "loading h C z0 z" "getNode a z0 \<noteq> None"
  shows "loading h C z0 (providerLoadNode h C a z) \<and>
    (\<forall>b. (getNode b (providerLoadNode h C a z) = None) = (b \<noteq> a \<and> getNode b z = None)) \<and>
    (\<forall>d. (getDevice d (providerLoadNode h C a z) = None) =
       ((IEEEAddress d = a \<longrightarrow> getDevice d z0 = None) \<and> getDevice d z = None)) \<and>
    (\<forall>d. restored C z0 d z \<or> IEEEAddress d = a \<longrightarrow> restored C z0 d (providerLoadNode h C a z))"
proof -
  obtain z2 ds where z2: "loading h C z0 z2" "\<forall>b. (getNode b z2 = None) = (b \<noteq> a \<and> getNode b z = None)"
    "\<forall>d. getDevice d z2 = getDevice d z" "set ds = {d. getDevice d z0 \<noteq> None \<and> IEEEAddress d = a}"
    "providerLoadNode h C a z = fold (providerLoadDevice h C a) ds z2"
    using providerLoadNode_start [OF assms] by blast
  have ds: "\<forall>d \<in> set ds. getDevice d z0 \<noteq> None \<and> IEEEAddress d = a" by (simp add: z2(4))
  have node: "getNode a z2 \<noteq> None" using z2(2) [rule_format, of a] by simp
  note all = providerLoadDevices_ok [OF z2(1) ds node]
  have "restored C z0 d (fold (providerLoadDevice h C a) ds z2)"
    if "restored C z0 d z \<or> IEEEAddress d = a" for d
  proof (rule providerLoadDevices_restore [OF z2(1) ds node])
    have "restored C z0 d z2" if "d \<notin> set ds" "IEEEAddress d = a"
      using that by (simp add: z2(4) restored_def deviceCaps_def)
    then show "d \<in> set ds \<or> restored C z0 d z2"
      using that restored_cong [of d z2 z] z2(3) by blast
  qed
  then show ?thesis
    unfolding z2(5) using all z2(2,3,4) by auto
qed

text \<open>Two tables one store mirrors agree on identities and on implementations.\<close>

lemma mirrors_agree:
  assumes "mirrors h C z" "mirrors h C (z0\<lparr>env := env z\<rparr>)"
  shows "(getNode a z = None) = (getNode a z0 = None)" "ids d z = ids d z0"
    "map_of (deviceCaps d z) cf = Some c \<Longrightarrow> map_of (deviceCaps d z0) cf = Some c0 \<Longrightarrow> c_ImplName C c = c_ImplName C c0"
proof -
  note m = mirrorsD [OF assms(1)] and m0 = mirrorsD [OF assms(2)]
  have "{a. getNode a z \<noteq> None} = {a. getNode a z0 \<noteq> None}" using m(4) m0(4) by simp
  then have "(a \<in> {a. getNode a z \<noteq> None}) = (a \<in> {a. getNode a z0 \<noteq> None})" by (simp only:)
  then show "(getNode a z = None) = (getNode a z0 = None)" unfolding mem_Collect_eq by argo
  have "{d. getDevice d z \<noteq> None} = {d. getDevice d z0 \<noteq> None}" using m(5) m0(5) by simp
  then have none: "(getDevice d z = None) = (getDevice d z0 = None)" for d
  proof -
    from \<open>{d. getDevice d z \<noteq> None} = _\<close>
    have "(d \<in> {d. getDevice d z \<noteq> None}) = (d \<in> {d. getDevice d z0 \<noteq> None})" by (simp only:)
    then show ?thesis unfolding mem_Collect_eq by argo
  qed
  show "ids d z = ids d z0"
  proof (cases "getDevice d z0")
    case None
    with none show ?thesis by (simp add: ids_def)
  next
    case (Some dev0)
    with none [of d] obtain dev where dev: "getDevice d z = Some dev" by auto
    have "device_ok h C d (store (env z)) dev" "device_ok h C d (store (env z)) dev0"
      using m(6) [OF dev] m0(6) [of d dev0] Some by simp_all
    then show ?thesis
      using dev Some by (cases "deviceIdSet dev"; cases "deviceIdSet dev0") (simp_all add: ids_def device_ok_def)
  qed
  assume "map_of (deviceCaps d z) cf = Some c" "map_of (deviceCaps d z0) cf = Some c0"
  then obtain dev dev0 where d: "getDevice d z = Some dev" "map_of (capabilities dev) cf = Some c"
    "getDevice d z0 = Some dev0" "map_of (capabilities dev0) cf = Some c0"
    by (auto simp: deviceCaps_def split: option.splits)
  have "capability_ok h C d (store (env z)) cf c" "capability_ok h C d (store (env z)) cf c0"
    using m(6) [OF d(1)] m0(6) [of d dev0] d(2-4) by (simp_all add: device_ok_def)
  then show "c_ImplName C c = c_ImplName C c0" by (simp add: capability_ok_def)
qed

text \<open>The whole load, into a gateway that knows no node yet and has announced nothing.\<close>

lemma providerLoad_ok:
  assumes "mirrors h C z0" "node z = []" "store (env z) = store (env z0)" "events (env z) = []"
  shows "gateway_ok h C (providerLoad h C z) \<and>
    mirrors h C (z0\<lparr>env := env (providerLoad h C z)\<rparr>) \<and>
    (\<forall>d. restored C z0 d (providerLoad h C z))"
proof -
  obtain as s where list: "nodeListFromPersistence h (store (env z)) = (as, s)"
    by (cases "nodeListFromPersistence h (store (env z))")
  let ?z1 = "onStore (\<lambda>_. s) z"
  have none: "getNode a z = None" "getDevice d z = None" for a d
    using assms(2) by (simp_all add: getNode_def getDevice_def)
  have "table_wf z" using assms(2) by (simp add: table_wf_def getNode_def)
  moreover have "mirrors h C (z0\<lparr>env := env z\<rparr>)" using assms(1,3) by (simp add: mirrors_def)
  moreover have "announced z" using assms(4) none by (simp add: announced_def replay_def tableView_def fun_eq_iff)
  ultimately have "loading h C z0 z" using none by (simp add: loading_def sequences_full_def)
  moreover have "opens h (store (env z)) s"
    using opens_section [of nodeRoot "store (env z)"] list
    by (auto simp: nodeListFromPersistence_def Let_def nodeRoot_def)
  ultimately have l1: "loading h C z0 ?z1" by (rule loading_opens)
  have nodes: "set as = {a. getNode a z0 \<noteq> None}"
    using nodeListFromPersistence_nodeKeys [OF host, of "store (env z)"] mirrorsD(2,4) [OF assms(1)] list assms(3)
    by simp
  have "loading h C z0 z' \<Longrightarrow> set bs \<subseteq> {a. getNode a z0 \<noteq> None} \<Longrightarrow>
      loading h C z0 (fold (providerLoadNode h C) bs z') \<and>
      (\<forall>b. (getNode b (fold (providerLoadNode h C) bs z') = None) = (b \<notin> set bs \<and> getNode b z' = None)) \<and>
      (\<forall>d. (getDevice d (fold (providerLoadNode h C) bs z') = None) =
         ((IEEEAddress d \<in> set bs \<longrightarrow> getDevice d z0 = None) \<and> getDevice d z' = None)) \<and>
      (\<forall>d. restored C z0 d z' \<or> IEEEAddress d \<in> set bs \<longrightarrow> restored C z0 d (fold (providerLoadNode h C) bs z'))" for bs z'
  proof (induction bs arbitrary: z')
    case (Cons b bs)
    then have "getNode b z0 \<noteq> None" by simp
    note one = providerLoadNode_ok [OF Cons.prems(1) this]
    from Cons.IH [OF one [THEN conjunct1]] Cons.prems(2) show ?case using one by simp blast
  qed simp
  from this [OF l1 equalityD1 [OF nodes]]
  have all: "loading h C z0 (fold (providerLoadNode h C) as ?z1)"
    "(getNode b (fold (providerLoadNode h C) as ?z1) = None) = (b \<notin> set as)"
    "(getDevice d (fold (providerLoadNode h C) as ?z1) = None) = (IEEEAddress d \<in> set as \<longrightarrow> getDevice d z0 = None)"
    "IEEEAddress d \<in> set as \<Longrightarrow> restored C z0 d (fold (providerLoadNode h C) as ?z1)" for b d
    by (simp_all add: none)
  have node: "(getNode a (providerLoad h C z) = None) = (getNode a z0 = None)" for a
    using all(2) nodes list by (simp add: providerLoad_def)
  have dev: "(getDevice d (providerLoad h C z) = None) = (getDevice d z0 = None)" for d
    using all(3) [of d] nodes list by (auto simp: providerLoad_def getDevice_def split: option.splits)
  have l: "loading h C z0 (providerLoad h C z)" using all(1) list by (simp add: providerLoad_def)
  have "gateway_ok h C (providerLoad h C z)"
    by (rule loading_complete [OF l]) (simp_all add: node dev)
  moreover have "restored C z0 d (providerLoad h C z)" for d
  proof (cases "IEEEAddress d \<in> set as")
    case True
    with all(4) list show ?thesis by (simp add: providerLoad_def)
  next
    case False
    with nodes have "deviceCaps d z0 = []" by (simp add: deviceCaps_def getDevice_def)
    then show ?thesis by (simp add: restored_def)
  qed
  ultimately show ?thesis using loadingD(1) [OF l] by simp
qed

text \<open>A restart of a gateway.\<close>

lemma restart_ok:
  assumes "sys_ok h C z0" "node z = []" "store (env z) = store (env z0)" "events (env z) = []"
  shows "sys_ok h C (providerLoad h C z)"
    "(getNode a (providerLoad h C z) = None) = (getNode a z0 = None)"
    "ids d (providerLoad h C z) = ids d z0"
    "map_of (deviceCaps d (providerLoad h C z)) cf = Some c \<Longrightarrow> map_of (deviceCaps d z0) cf = Some c0 \<Longrightarrow>
       c_ImplName C c = c_ImplName C c0"
    "map_of (deviceCaps d z0) cf = Some c0 \<Longrightarrow>
       map_of (deviceCaps d (providerLoad h C z)) cf \<noteq> None \<or> declined C (c_ImplName C c0)"
proof -
  note load = providerLoad_ok [OF gateway_okD(1) [OF sys_okD(1) [OF assms(1)]] assms(2-4)]
  then have ok: "gateway_ok h C (providerLoad h C z)" and m0: "mirrors h C (z0\<lparr>env := env (providerLoad h C z)\<rparr>)"
    and again: "restored C z0 d (providerLoad h C z)" by simp_all
  note same = mirrors_agree [OF gateway_okD(1) [OF ok] m0]
  show "sys_ok h C (providerLoad h C z)" by (rule sys_ok_cong [OF assms(1) ok same(2)])
  show "(getNode a (providerLoad h C z) = None) = (getNode a z0 = None)" by (rule same(1))
  show "ids d (providerLoad h C z) = ids d z0" by (rule same(2))
  show "map_of (deviceCaps d (providerLoad h C z)) cf = Some c \<Longrightarrow> map_of (deviceCaps d z0) cf = Some c0 \<Longrightarrow>
       c_ImplName C c = c_ImplName C c0" by (rule same(3))
  show "map_of (deviceCaps d z0) cf = Some c0 \<Longrightarrow>
       map_of (deviceCaps d (providerLoad h C z)) cf \<noteq> None \<or> declined C (c_ImplName C c0)"
    using again by (simp add: restored_def)
qed

end

end
