(* ===== verification/Discovery.thy ===== *)
theory Discovery
  imports Implementation_Interface
begin

text \<open>
  \<open>device_discovery.go\<close>: opening the network for joins for a while. A timer of
  \<open>time.AfterFunc\<close> closes it again; the timers that have not fired or been stopped are kept
  as a list of numbers with the instant each is due.
\<close>

section \<open>State and operations\<close>

record 'x networkJoining =
  PermitJoin :: "bool \<Rightarrow> (unit, 'x) call"
  DenyJoin :: "(unit, 'x) call"

text \<open>\<open>allowTimer\<close> points to a timer, which may have fired already. Instants are nanoseconds.\<close>

record deviceDiscovery =
  discovering :: bool
  allowTimer :: "nat option"
  allowExpiresAt :: int
  timers :: "(nat \<times> int) list"
  timersMade :: nat

definition newDiscovery :: deviceDiscovery where
  "newDiscovery = \<lparr>discovering = False, allowTimer = None, allowExpiresAt = zeroTime, timers = [], timersMade = 0\<rparr>"

text \<open>\<open>Timer.Stop\<close>, and what becomes of the timers when \<open>allowTimer\<close> is stopped.\<close>

definition stopTimer :: "deviceDiscovery \<Rightarrow> deviceDiscovery" where
  "stopTimer d =
     (case allowTimer d of
        None \<Rightarrow> d
      | Some t \<Rightarrow> d\<lparr>timers := filter (\<lambda>(t', _). t' \<noteq> t) (timers d)\<rparr>)"

definition Enable ::
  "'x networkJoining \<Rightarrow> int \<Rightarrow> int \<Rightarrow> deviceDiscovery \<Rightarrow> ('s, 'x) env
    \<Rightarrow> goerr option \<times> deviceDiscovery \<times> ('s, 'x) env" where
  "Enable J now duration d e =
     (case onWorld (PermitJoin J True) e of
        (Inl err, e1) \<Rightarrow> (Some err, d, e1)
      | (Inr _, e1) \<Rightarrow>
          (let d1 = stopTimer d;
               d2 = d1\<lparr>allowExpiresAt := now + duration, allowTimer := Some (timersMade d1),
                       timers := timers d1 @ [(timersMade d1, now + duration)],
                       timersMade := Suc (timersMade d1), discovering := True\<rparr>
           in (None, d2, sendEvent (EvDeviceDiscoveryEnabled duration) e1)))"

definition Disable ::
  "'x networkJoining \<Rightarrow> deviceDiscovery \<Rightarrow> ('s, 'x) env \<Rightarrow> goerr option \<times> deviceDiscovery \<times> ('s, 'x) env" where
  "Disable J d e =
     (case onWorld (DenyJoin J) e of
        (Inl err, e1) \<Rightarrow> (Some err, d, e1)
      | (Inr _, e1) \<Rightarrow>
          (None, d\<lparr>discovering := False, allowTimer := None, allowExpiresAt := zeroTime\<rparr>,
           sendEvent EvDeviceDiscoveryDisabled e1))"

definition discoveryStatus :: "int \<Rightarrow> deviceDiscovery \<Rightarrow> bool \<times> int" where
  "discoveryStatus now d =
     (let remainingDuration = allowExpiresAt d - now
      in (discovering d, if remainingDuration < 0 then 0 else remainingDuration))"

definition discoveryStop :: "deviceDiscovery \<Rightarrow> deviceDiscovery" where
  "discoveryStop d = stopTimer d"

text \<open>A timer that is due: it leaves the list and calls \<open>Disable\<close>, an error of which is only
  logged.\<close>

definition discoveryTimerFires ::
  "'x networkJoining \<Rightarrow> nat \<Rightarrow> deviceDiscovery \<Rightarrow> ('s, 'x) env \<Rightarrow> deviceDiscovery \<times> ('s, 'x) env" where
  "discoveryTimerFires J t d e = snd (Disable J (d\<lparr>timers := filter (\<lambda>(t', _). t' \<noteq> t) (timers d)\<rparr>) e)"

section \<open>Runs\<close>

text \<open>
  Time passes, up to the instant the next timer is due; callers enable and disable; due
  timers fire. \<open>disables\<close> says whether callers disable at all.
\<close>

type_synonym ('s, 'x) discoveryState = "int \<times> deviceDiscovery \<times> ('s, 'x) env"

inductive discoveryStep ::
  "'x networkJoining \<Rightarrow> bool \<Rightarrow> ('s, 'x) discoveryState \<Rightarrow> ('s, 'x) discoveryState \<Rightarrow> bool"
  for J :: "'x networkJoining" and disables :: bool where
  pass: "now \<le> now' \<Longrightarrow> \<forall>(t, due) \<in> set (timers d). now' \<le> due \<Longrightarrow>
    discoveryStep J disables (now, d, e) (now', d, e)"
| enable: "0 < duration \<Longrightarrow> Enable J now duration d e = (err, d', e') \<Longrightarrow>
    discoveryStep J disables (now, d, e) (now, d', e')"
| disable: "disables \<Longrightarrow> Disable J d e = (err, d', e') \<Longrightarrow>
    discoveryStep J disables (now, d, e) (now, d', e')"
| fire: "(t, due) \<in> set (timers d) \<Longrightarrow> due \<le> now \<Longrightarrow> discoveryTimerFires J t d e = (d', e') \<Longrightarrow>
    discoveryStep J disables (now, d, e) (now, d', e')"

inductive discoveryRun ::
  "'x networkJoining \<Rightarrow> bool \<Rightarrow> ('s, 'x) discoveryState \<Rightarrow> ('s, 'x) discoveryState \<Rightarrow> bool"
  for J :: "'x networkJoining" and disables :: bool where
  stay: "discoveryRun J disables s s"
| step: "discoveryRun J disables s s' \<Longrightarrow> discoveryStep J disables s' s'' \<Longrightarrow> discoveryRun J disables s s''"

inductive_cases discoveryStepE: "discoveryStep J disables (now, d, e) s'"

section \<open>The invariant\<close>

text \<open>What a consumer of the events takes the state to be.\<close>

fun replayDiscovery :: "event \<Rightarrow> bool \<Rightarrow> bool" where
  "replayDiscovery (EvDeviceDiscoveryEnabled _) on = True"
| "replayDiscovery EvDeviceDiscoveryDisabled on = False"
| "replayDiscovery _ on = on"

definition discovery_ok :: "('s, 'x) discoveryState \<Rightarrow> bool" where
  "discovery_ok s \<longleftrightarrow>
     (case s of (now, d, e) \<Rightarrow>
        (discovering d \<longleftrightarrow> allowTimer d \<noteq> None) \<and>
        (discovering d \<longleftrightarrow> fold replayDiscovery (events e) False) \<and>
        (\<not> discovering d \<longrightarrow> allowExpiresAt d = zeroTime) \<and>
        distinct (map fst (timers d)) \<and>
        (\<forall>(t, due) \<in> set (timers d). t < timersMade d \<and> now \<le> due) \<and>
        (\<forall>t. allowTimer d = Some t \<longrightarrow> t < timersMade d \<and> (\<forall>due. (t, due) \<in> set (timers d) \<longrightarrow> due = allowExpiresAt d)))"

lemma discovery_ok_new:
  "events e = [] \<Longrightarrow> discovery_ok (now, newDiscovery, e)"
  by (simp add: discovery_ok_def newDiscovery_def)

lemma onWorld_events [simp]: "onWorld f e = (r, e') \<Longrightarrow> events e' = events e"
  by (auto simp: onWorld_def split: prod.splits)

lemma Enable_cases:
  assumes "Enable J now duration d e = (err, d', e')"
  obtains (failed) "err \<noteq> None" "d' = d" "events e' = events e"
  | (enabled) "err = None" "d' = (stopTimer d)\<lparr>allowExpiresAt := now + duration, allowTimer := Some (timersMade d),
      timers := timers (stopTimer d) @ [(timersMade d, now + duration)], timersMade := Suc (timersMade d),
      discovering := True\<rparr>" "events e' = events e @ [EvDeviceDiscoveryEnabled duration]"
  using assms
  by (auto simp: Enable_def stopTimer_def Let_def split: prod.splits sum.splits option.splits)

lemma Disable_cases:
  assumes "Disable J d e = (err, d', e')"
  obtains (failed) "err \<noteq> None" "d' = d" "events e' = events e"
  | (disabled) "err = None" "d' = d\<lparr>discovering := False, allowTimer := None, allowExpiresAt := zeroTime\<rparr>"
      "events e' = events e @ [EvDeviceDiscoveryDisabled]"
  using assms by (auto simp: Disable_def split: prod.splits sum.splits)

lemma timers_stopTimer [simp]:
  "set (timers (stopTimer d)) = {(t, due) \<in> set (timers d). allowTimer d \<noteq> Some t}"
  by (auto simp: stopTimer_def split: option.splits)

lemma distinct_stopTimer: "distinct (map fst (timers d)) \<Longrightarrow> distinct (map fst (timers (stopTimer d)))"
  by (auto simp: stopTimer_def distinct_map_filter split: option.splits)

lemma discovery_ok_step:
  assumes "discoveryStep J disables s s'" "discovery_ok s"
  shows "discovery_ok s'"
  using assms
proof (induction rule: discoveryStep.induct)
  case (pass now now' d e)
  then show ?case by (auto simp: discovery_ok_def)
next
  case (enable duration now d e err d' e')
  from enable(2) show ?case
  proof (cases rule: Enable_cases)
    case failed
    with enable(3) show ?thesis by (auto simp: discovery_ok_def)
  next
    case enabled
    with enable(1,3) show ?thesis
      by (auto simp: discovery_ok_def distinct_stopTimer)
  qed
next
  case (disable d e err d' e' now)
  from disable(2) show ?case
    by (cases rule: Disable_cases) (use disable(3) in \<open>auto simp: discovery_ok_def\<close>)
next
  case (fire t due d now e d' e')
  let ?d = "d\<lparr>timers := filter (\<lambda>(t', _). t' \<noteq> t) (timers d)\<rparr>"
  have "discovery_ok (now, ?d, e)"
    using fire(4) by (auto simp: discovery_ok_def distinct_map_filter)
  moreover obtain err where "Disable J ?d e = (err, d', e')"
    using fire(3) unfolding discoveryTimerFires_def by (metis prod.collapse)
  ultimately show ?case
    by (elim Disable_cases) (auto simp: discovery_ok_def)
qed

lemma discoveryRun_ok: "discoveryRun J disables s s' \<Longrightarrow> discovery_ok s \<Longrightarrow> discovery_ok s'"
  by (induction rule: discoveryRun.induct) (auto intro: discovery_ok_step)

text \<open>As long as only timers disable, the one timer pending is the current one.\<close>

definition one_timer :: "('s, 'x) discoveryState \<Rightarrow> bool" where
  "one_timer s \<longleftrightarrow> (case s of (now, d, e) \<Rightarrow> \<forall>(t, due) \<in> set (timers d). allowTimer d = Some t)"

lemma one_timer_step:
  assumes "discoveryStep J False s s'" "one_timer s" "discovery_ok s"
  shows "one_timer s'"
  using assms
proof (induction rule: discoveryStep.induct)
  case (enable duration now d e err d' e')
  from enable(2) show ?case
    by (cases rule: Enable_cases) (use enable(3) in \<open>auto simp: one_timer_def\<close>)
next
  case (fire t due d now e d' e')
  let ?d = "d\<lparr>timers := filter (\<lambda>(t', _). t' \<noteq> t) (timers d)\<rparr>"
  obtain err where "Disable J ?d e = (err, d', e')"
    using fire(3) unfolding discoveryTimerFires_def by (metis prod.collapse)
  moreover have "\<forall>(t', due) \<in> set (timers d). t' = t" 
  proof (rule ballI, clarify)
    fix t' due'
    assume "(t', due') \<in> set (timers d)"
    then have "allowTimer d = Some t'" "allowTimer d = Some t" using fire(1,4) by (auto simp: one_timer_def)
    then show "t' = t" by simp
  qed
  ultimately show ?case by (elim Disable_cases) (auto simp: one_timer_def)
qed (auto simp: one_timer_def)

lemma one_timer_run:
  "discoveryRun J False s s' \<Longrightarrow> discovery_ok s \<Longrightarrow> one_timer s \<Longrightarrow> one_timer s'"
  by (induction rule: discoveryRun.induct) (auto intro: one_timer_step discoveryRun_ok)

section \<open>The properties\<close>

text \<open>Whatever callers do and however the provider answers, \<open>Status\<close> says discovering
  exactly when the last discovery event sent says so, the end of the window is the zero time when it is
  not, and no timer stays unfired past its instant.\<close>

theorem discovery_status_announced:
  assumes "discoveryRun J disables (now0, newDiscovery, e0) (now, d, e)" "events e0 = []"
  shows "(fst (discoveryStatus now d) \<longleftrightarrow> fold replayDiscovery (events e) False) \<and>
    (\<not> fst (discoveryStatus now d) \<longrightarrow> allowExpiresAt d = zeroTime) \<and>
    (\<forall>(t, due) \<in> set (timers d). now \<le> due)"
  using discoveryRun_ok [OF assms(1) discovery_ok_new [OF assms(2)]]
  by (auto simp: discovery_ok_def discoveryStatus_def Let_def)


text \<open>\<open>Disable\<close> leaves the timer of the window it closes running. A window opened after
  it is then closed by that timer, with time left on it: discovery enabled for \<open>d1\<close>,
  disabled, and enabled again \<open>g\<close> later for \<open>d2\<close> ends at \<open>d1\<close>.\<close>

theorem discovery_stale_timer:
  assumes "\<forall>x. fst (PermitJoin J True x) = Inr ()" "\<forall>x. fst (DenyJoin J x) = Inr ()"
    and "0 < d1" "g < d1" "d1 < g + d2"
    and "Enable J 0 d1 newDiscovery e0 = (r1, dd1, e1)" "Disable J dd1 e1 = (r2, dd2, e2)"
    and "Enable J g d2 dd2 e2 = (r3, dd3, e3)" "discoveryTimerFires J 0 dd3 e3 = (dd4, e4)"
  shows "(0, d1) \<in> set (timers dd3) \<and> discoveryStatus d1 dd3 = (True, g + d2 - d1) \<and>
    0 < g + d2 - d1 \<and> discoveryStatus d1 dd4 = (False, 0)"
proof -
  from assms(1) have permit: "r = None" if "Enable J t du dd e = (r, dd', e')" for t du dd e r dd' e'
    using that by (auto simp: Enable_def onWorld_def Let_def split: prod.splits sum.splits) (metis fst_conv sum.distinct(1))
  from assms(2) have deny: "r = None" if "Disable J dd e = (r, dd', e')" for dd e r dd' e'
    using that by (auto simp: Disable_def onWorld_def split: prod.splits sum.splits) (metis fst_conv sum.distinct(1))
  have "dd1 = \<lparr>discovering = True, allowTimer = Some 0, allowExpiresAt = d1, timers = [(0, d1)], timersMade = 1\<rparr>"
    using assms(6) permit [OF assms(6)] by (elim Enable_cases) (auto simp: newDiscovery_def stopTimer_def)
  then have "dd2 = \<lparr>discovering = False, allowTimer = None, allowExpiresAt = zeroTime, timers = [(0, d1)], timersMade = 1\<rparr>"
    using assms(7) deny [OF assms(7)] by (elim Disable_cases) auto
  then have dd3: "dd3 = \<lparr>discovering = True, allowTimer = Some 1, allowExpiresAt = g + d2,
      timers = [(0, d1), (1, g + d2)], timersMade = 2\<rparr>"
    using assms(8) permit [OF assms(8)] by (elim Enable_cases) (auto simp: stopTimer_def)
  obtain r where "Disable J (dd3\<lparr>timers := filter (\<lambda>(t', _). t' \<noteq> 0) (timers dd3)\<rparr>) e3 = (r, dd4, e4)"
    using assms(9) unfolding discoveryTimerFires_def by (metis prod.collapse)
  note fired = this
  from fired have "discovering dd4 = False" "allowExpiresAt dd4 = zeroTime"
    using deny [OF fired] by (auto elim!: Disable_cases)
  then show ?thesis
    using assms(3-5) dd3 by (simp add: discoveryStatus_def Let_def zeroTime_def)
qed

section \<open>Witnesses\<close>

definition exampleJoining :: "unit networkJoining" where
  "exampleJoining = \<lparr>PermitJoin = (\<lambda>_ x. (Inr (), x)), DenyJoin = (\<lambda>x. (Inr (), x))\<rparr>"

abbreviation exampleEmpty :: "(unit, unit) env" where
  "exampleEmpty \<equiv> \<lparr>store = (), events = [], nodeTx = (\<lambda>_. \<lparr>sequence = [], useAPSAck = False\<rparr>), world = ()\<rparr>"

lemma exampleJoining_enable:
  "Enable exampleJoining now du d e =
     (None, (stopTimer d)\<lparr>allowExpiresAt := now + du, allowTimer := Some (timersMade (stopTimer d)),
        timers := timers (stopTimer d) @ [(timersMade (stopTimer d), now + du)],
        timersMade := Suc (timersMade (stopTimer d)), discovering := True\<rparr>,
      sendEvent (EvDeviceDiscoveryEnabled du) e)"
  by (simp add: Enable_def exampleJoining_def onWorld_def Let_def)

lemma exampleJoining_disable:
  "Disable exampleJoining d e =
     (None, d\<lparr>discovering := False, allowTimer := None, allowExpiresAt := zeroTime\<rparr>,
      sendEvent EvDeviceDiscoveryDisabled e)"
  by (simp add: Disable_def exampleJoining_def onWorld_def)

text \<open>Enabled at 0 for 60 (nanoseconds), and let run.\<close>

abbreviation exampleOpen :: deviceDiscovery where
  "exampleOpen \<equiv> \<lparr>discovering = True, allowTimer = Some 0, allowExpiresAt = 60, timers = [(0, 60)], timersMade = 1\<rparr>"

lemma exampleRun:
  "discoveryRun exampleJoining b (0, newDiscovery, exampleEmpty)
     (60, exampleOpen, sendEvent (EvDeviceDiscoveryEnabled 60) exampleEmpty)"
proof -
  have "discoveryStep exampleJoining b (0, newDiscovery, exampleEmpty)
      (0, exampleOpen, sendEvent (EvDeviceDiscoveryEnabled 60) exampleEmpty)"
    by (rule discoveryStep.enable [where duration = 60])
       (simp_all add: exampleJoining_enable newDiscovery_def stopTimer_def)
  moreover have "discoveryStep exampleJoining b (0, exampleOpen, e) (60, exampleOpen, e)" for e :: "(unit, unit) env"
    by (rule discoveryStep.pass) simp_all
  ultimately show ?thesis by (blast intro: discoveryRun.intros)
qed

theorem discovery_status_announced_witness:
  "fold replayDiscovery (events (sendEvent (EvDeviceDiscoveryEnabled 60) exampleEmpty)) False"
  using discovery_status_announced [OF exampleRun [of True]] by (simp add: discoveryStatus_def)


theorem discovery_stale_timer_witness:
  "discoveryStatus 60 \<lparr>discovering = True, allowTimer = Some (Suc 0), allowExpiresAt = 90,
     timers = [(0, 60), (Suc 0, 90)], timersMade = Suc (Suc 0)\<rparr> = (True, 30)"
proof -
  note step = exampleJoining_enable exampleJoining_disable
  note run = discovery_stale_timer [of exampleJoining 60 30 60 exampleEmpty, OF _ _ _ _ _ step(1) step(2) step(1) prod.collapse [symmetric]]
  show ?thesis using run by (simp add: exampleJoining_def stopTimer_def newDiscovery_def)
qed

end
