(* ===== verification/Node_Flags.thy ===== *)
theory Node_Flags
  imports Enumerate_Node
begin

text \<open>
  The two flags of a node: whether an enumeration holds its semaphore, and whether one is
  under way. The operations of the table and of its devices leave them alone.
\<close>

definition flags :: "IEEEAddress \<Rightarrow> ('c, 's, 'x) ZDA \<Rightarrow> (bool \<times> bool) option" where
  "flags a z = map_option (\<lambda>n. (enumerationState n, enumerationSem n)) (getNode a z)"

lemma flags_None [simp]: "flags a z = None \<longleftrightarrow> getNode a z = None"
  by (simp add: flags_def)

lemma flags_updDevice [simp]: "flags a (updDevice d k z) = flags a z"
  by (cases "getNode (IEEEAddress d) z") (auto simp: flags_def getNode_updDevice split: option.split)

lemma flags_frames [simp]:
  "flags a (zSendEvent ev z) = flags a z" "flags a (onStore g z) = flags a z" "flags a (z\<lparr>env := e\<rparr>) = flags a z"
  "flags a (writeBack d cf c z) = flags a z" "flags a (setResults d errs z) = flags a z"
  by (simp_all add: flags_def [of _ "zSendEvent ev z"] flags_def [of _ "onStore g z"] flags_def [of _ "z\<lparr>env := e\<rparr>"]
      flags_def [of _ z] writeBack_def setResults_def)

lemma flags_updNode:
  "flags b (updNode a g z) =
     (if b = a then map_option (\<lambda>n. (enumerationState (g n), enumerationSem (g n))) (getNode a z) else flags b z)"
  by (simp add: flags_def getNode_updNode option.map_comp comp_def)

lemma flags_updNode_device [simp]:
  assumes "\<And>n. enumerationState (g n) = enumerationState n \<and> enumerationSem (g n) = enumerationSem n"
  shows "flags b (updNode a g z) = flags b z"
  using assms by (simp add: flags_updNode) (simp add: flags_def)

lemma flags_fold [simp]: "flags b (fold (\<lambda>x. zSendEvent (g x)) xs z) = flags b z"
  by (simp add: flags_def)

lemma flags_sends [simp]: "flags b (sendStarts a z) = flags b z" "flags b (sendStops a z) = flags b z"
  by (simp_all add: flags_def)

section \<open>Devices\<close>

lemma flags_devices [simp]:
  "flags b (snd (createSpecificDevice h a i z)) = flags b z"
  "flags b (snd (createNextDevice h a z)) = flags b z"
  "flags b (setDeviceUniqueId h d u z) = flags b z"
  by (simp_all add: createNextDevice_def createSpecificDevice_def setDeviceUniqueId_def Let_def)

lemma flags_capabilities [simp]:
  "flags b (attachCapabilityToDevice h C d c z) = flags b z"
  "flags b (detachCapabilityFromDevice h C d c z) = flags b z"
  "callDetach C t d cf c z = (err, c', z') \<Longrightarrow> flags b z' = flags b z"
  by (auto simp: attachCapabilityToDevice_def detachCapabilityFromDevice_def callDetach_def Let_def
      split: option.split prod.splits)

lemma flags_detachAll [simp]: "flags b (detachAll h C d cfs z) = flags b z"
  by (induction h C d cfs z rule: detachAll.induct) (auto split: option.split prod.split)

lemma flags_removeDevice [simp]: "flags b (snd (removeDevice h C d z)) = flags b z"
  by (simp add: removeDevice_def Let_def split: option.split)

lemma flags_removeDevices [simp]: "flags b (removeDevices h C ds z) = flags b z"
  unfolding removeDevices_def by (induction ds arbitrary: z) simp_all

lemma flags_createMissing: "createMissing h a is unset m z = (m', z') \<Longrightarrow> flags b z' = flags b z"
proof (induction h a "is" unset m z rule: createMissing.induct)
  case (2 h a i "is" unset m z)
  show ?case
  proof (cases "map_of m (uniqueId i) = None")
    case True
    obtain d unset' z1 where new: "(case unset of d # unset' \<Rightarrow> (d, unset', z)
        | [] \<Rightarrow> (case createNextDevice h a z of (d, z1) \<Rightarrow> (d, [], z1))) = (d, unset', z1)"
      by (metis prod.exhaust)
    then have "flags b z1 = flags b z"
      using flags_devices(2) [of b h a z] by (cases "createNextDevice h a z") (auto split: list.splits)
    moreover have "flags b z' = flags b (setDeviceUniqueId h d (uniqueId i) z1)"
      using 2(2) [OF _ new [symmetric]] 2(3) True new by simp
    ultimately show ?thesis by simp
  qed (use 2 in simp)
qed simp

lemma flags_updateNodeTable: "updateNodeTable h C a is z = (m, z') \<Longrightarrow> flags b z' = flags b z"
  by (auto simp: updateNodeTable_def dest: flags_createMissing split: prod.splits)

section \<open>Capabilities\<close>

lemma flags_newImplementation: "newImplementation h C d name cF z = (oc, z') \<Longrightarrow> flags b z' = flags b z"
  by (auto simp: newImplementation_def Let_def split: prod.splits option.splits)

lemma flags_callEnumerate: "callEnumerate h C d name cF settings found c errs z = (r, z') \<Longrightarrow> flags b z' = flags b z"
  by (auto simp: callEnumerate_def Let_def split: prod.splits outcome.splits option.splits if_splits)

lemma flags_enumerateCapabilityOnDevice:
  "enumerateCapabilityOnDevice h C d name cF active settings z = (r, z') \<Longrightarrow> flags b z' = flags b z"
  unfolding enumerateCapabilityOnDevice_def Let_def
  by (auto dest!: flags_newImplementation [of _ _ _ _ _ _ _ _ b] flags_callEnumerate [of _ _ _ _ _ _ _ _ _ _ _ _ b]
      split: prod.splits option.splits if_splits)

lemma flags_offers:
  "fold (offerCapability h C d) xs (errs, active, z) = (errs', active', z') \<Longrightarrow> flags b z' = flags b z"
proof (induction xs arbitrary: errs active z)
  case (Cons x xs)
  obtain name settings where x: "x = (name, settings)" by (cases x)
  obtain errs1 active1 z1 where
    one: "offerCapability h C d (name, settings) (errs, active, z) = (errs1, active1, z1)" by (metis prod_cases3)
  then have "flags b z1 = flags b z"
    by (auto simp: Let_def dest: flags_enumerateCapabilityOnDevice split: option.splits prod.splits)
  with Cons one x show ?case by simp
qed simp

lemma flags_detachRedundant:
  "detachRedundant h C d active cfs (errs, z) = (errs', z') \<Longrightarrow> flags b z' = flags b z"
proof (induction cfs arbitrary: errs z)
  case (Cons cf cfs)
  show ?case
  proof (cases "map_of (deviceCaps d z) cf")
    case (Some c)
    obtain err c' z1 where one: "callDetach C NoLongerEnumerated d cf c z = (err, c', z1)" by (metis prod_cases3)
    from flags_capabilities(3) [OF one] Cons Some one show ?thesis
      by (auto split: if_splits)
  qed (use Cons in simp)
qed simp

lemma flags_updateCapabilitiesOnDevice:
  assumes "updateCapabilitiesOnDevice h C d i z = (errs, z')"
  shows "flags b z' = flags b z"
proof -
  let ?start = "[(EnumerateDeviceFlag, \<lparr>Attached = True, Errors = []\<rparr>)]"
  obtain errs1 active z1 where loop: "fold (offerCapability h C d) (offers i) (?start, [], z) = (errs1, active, z1)"
    by (metis prod_cases3)
  with assms have "detachRedundant h C d active (map fst (deviceCaps d z1)) (errs1, z1) = (errs, z')"
    by (simp add: updateCapabilitiesOnDevice_def enumerateCapabilities_fold offers_def)
  from flags_detachRedundant [OF this] flags_offers [OF loop] show ?thesis by simp
qed

section \<open>Nodes\<close>

lemma flags_createNode:
  "flags b (snd (createNode h a z)) = (if b = a \<and> getNode a z = None then Some (False, False) else flags b z)"
  by (auto simp: flags_def createNode_def getNode_def newNode_def split: option.split)

lemma flags_removeNode: "flags b (snd (removeNode h a z)) = (if b = a then None else flags b z)"
  by (auto simp: flags_def removeNode_def getNode_def split: option.split)

lemma flags_startEnumeration:
  "startEnumeration a z = (err, z') \<Longrightarrow>
     (err = None \<longleftrightarrow> (\<exists>s. flags a z = Some (s, False))) \<and>
     flags b z' = (if err = None \<and> b = a then map_option (\<lambda>(s, _). (s, True)) (flags a z) else flags b z)"
  by (auto simp: startEnumeration_def flags_def getNode_updNode split: option.splits if_splits)

end
