(* ===== verification/Enumerate_Steps.thy ===== *)
theory Enumerate_Steps
  imports Node_Flags
begin

text \<open>
  \<open>enumerate\<close> as the steps of a goroutine, so that other goroutines can run in between: one
  step for each query of the network (with its retries), one for the rules, one for the table
  of the node, and one for each device, whose lock is held while its capabilities are
  enumerated. Run without interruption the steps are \<open>enumerate\<close>.
\<close>

section \<open>The steps\<close>

text \<open>Where the goroutine is, with the local variables that are live there. The loops over the
  endpoints and over the devices keep what they have still to visit; \<open>EnumDevices\<close> also what it
  has visited.\<close>

datatype enumPhase =
    EnumStart
  | EnumNode
  | EnumEndpoints NodeDescription
  | EnumDescriptions NodeDescription "Endpoint list" "(Endpoint, endpointDetails) gomap"
  | EnumProducts NodeDescription "(Endpoint, endpointDetails) gomap" "(Endpoint, endpointDetails) gomap"
  | EnumRules inventory
  | EnumTable "inventoryDevice list"
  | EnumDevices "(int, address) gomap" "inventoryDevice list" "inventoryDevice list"
  | EnumEnd

text \<open>The next phase, if there is one, and the table after the step.\<close>

fun enumStep ::
  "'s host \<Rightarrow> ('c, 's, 'x) zdaCapability \<Rightarrow> ('s, 'x) network \<Rightarrow> zclConstants \<Rightarrow> (Input \<Rightarrow> 'e + Output)
    \<Rightarrow> IEEEAddress \<Rightarrow> enumPhase \<Rightarrow> ('c, 's, 'x) ZDA \<Rightarrow> (enumPhase option \<times> ('c, 's, 'x) ZDA) outcome" where
  "enumStep h C N Z f a EnumStart z =
     Returns (Some EnumNode, sendStarts a (updNode a (\<lambda>n. n\<lparr>enumerationState := True\<rparr>) z))"
| "enumStep h C N Z f a EnumNode z =
     (case retryNodeDescription N (onWorld (QueryNodeDescription N a)) (env z) of
        (Inl err, e) \<Rightarrow> Returns (Some EnumEnd, z\<lparr>env := e\<rparr>)
      | (Inr nd, e) \<Rightarrow> Returns (Some (EnumEndpoints nd), z\<lparr>env := e\<rparr>))"
| "enumStep h C N Z f a (EnumEndpoints nd) z =
     (case retryEndpoints N (onWorld (QueryNodeEndpoints N a)) (env z) of
        (Inl err, e) \<Rightarrow> Returns (Some EnumEnd, z\<lparr>env := e\<rparr>)
      | (Inr eps, e) \<Rightarrow> Returns (Some (EnumDescriptions nd eps []), z\<lparr>env := e\<rparr>))"
| "enumStep h C N Z f a (EnumDescriptions nd [] m) z = Returns (Some (EnumProducts nd m m), z)"
| "enumStep h C N Z f a (EnumDescriptions nd (ep # eps) m) z =
     (case retryEndpointDescription N (onWorld (QueryNodeEndpointDescription N a ep)) (env z) of
        (Inl err, e) \<Rightarrow> Returns (Some EnumEnd, z\<lparr>env := e\<rparr>)
      | (Inr ed, e) \<Rightarrow>
          Returns (Some (EnumDescriptions nd eps
            (AList.update ep \<lparr>description = ed, productInformation = noProductData,
               rulesOutput = \<lparr>OutputCapabilities = []\<rparr>\<rparr> m)), z\<lparr>env := e\<rparr>))"
| "enumStep h C N Z f a (EnumProducts nd [] m) z =
     Returns (Some (EnumRules \<lparr>nodeDescription = nd, endpoints = m\<rparr>), z)"
| "enumStep h C N Z f a (EnumProducts nd ((ep, desc) # todo) m) z =
     (if BasicId Z \<in> set (InClusterList (description desc)) then
        (case retryReadAttributes N (readBasic N Z a ep) (env z) of
           (Inl err, e) \<Rightarrow> Returns (Some (EnumProducts nd todo m), z\<lparr>env := e\<rparr>)
         | (Inr resp, e) \<Rightarrow>
             (case readProductData Z resp (productInformation desc) of
                Panics \<Rightarrow> Panics
              | Returns p \<Rightarrow>
                  Returns (Some (EnumProducts nd todo (AList.update ep (desc\<lparr>productInformation := p\<rparr>) m)),
                    z\<lparr>env := e\<rparr>)))
      else Returns (Some (EnumProducts nd todo m), z))"
| "enumStep h C N Z f a (EnumRules inven) z =
     (case runRules (LogicalTypeString N) f inven of
        Inl err \<Rightarrow> Returns (Some EnumEnd, z)
      | Inr inven' \<Rightarrow> Returns (Some (EnumTable (groupInventoryDevices inven')), z))"
| "enumStep h C N Z f a (EnumTable is) z =
     (case updateNodeTable h C a is z of
        (did, z1) \<Rightarrow> Returns (Some (EnumDevices did [] is), z1))"
| "enumStep h C N Z f a (EnumDevices did seen []) z = Returns (Some EnumEnd, z)"
| "enumStep h C N Z f a (EnumDevices did seen (i # todo)) z =
     (case map_of did (uniqueId i) of
        None \<Rightarrow> Returns (Some (EnumDevices did (seen @ [i]) todo), z)
      | Some d \<Rightarrow>
          (case updateCapabilitiesOnDevice h C d i z of
             (errs, z1) \<Rightarrow> Returns (Some (EnumDevices did (seen @ [i]) todo), setResults d errs z1)))"
| "enumStep h C N Z f a EnumEnd z =
     Returns (None, sendStops a
       (updNode a (\<lambda>n. n\<lparr>enumerationState := False, enumerationSem := False\<rparr>) z))"

text \<open>Every step brings the end closer.\<close>

fun stage :: "enumPhase \<Rightarrow> nat" where
  "stage EnumStart = 8"
| "stage EnumNode = 7"
| "stage (EnumEndpoints _) = 6"
| "stage (EnumDescriptions _ _ _) = 5"
| "stage (EnumProducts _ _ _) = 4"
| "stage (EnumRules _) = 3"
| "stage (EnumTable _) = 2"
| "stage (EnumDevices _ _ _) = 1"
| "stage EnumEnd = 0"

fun remaining :: "enumPhase \<Rightarrow> nat" where
  "remaining (EnumDescriptions _ eps _) = length eps"
| "remaining (EnumProducts _ todo _) = length todo"
| "remaining (EnumDevices _ _ todo) = length todo"
| "remaining _ = 0"

lemma enumStep_decreases:
  "enumStep h C N Z f a ph z = Returns (Some ph', z') \<Longrightarrow> (ph', ph) \<in> measures [stage, remaining]"
  by (cases "(h, C, N, Z, f, a, ph, z)" rule: enumStep.cases)
     (auto split: prod.splits sum.splits option.splits outcome.splits if_splits)

text \<open>The goroutine alone.\<close>

function enumRun ::
  "'s host \<Rightarrow> ('c, 's, 'x) zdaCapability \<Rightarrow> ('s, 'x) network \<Rightarrow> zclConstants \<Rightarrow> (Input \<Rightarrow> 'e + Output)
    \<Rightarrow> IEEEAddress \<Rightarrow> enumPhase \<Rightarrow> ('c, 's, 'x) ZDA \<Rightarrow> ('c, 's, 'x) ZDA outcome" where
  "enumRun h C N Z f a ph z =
     (case enumStep h C N Z f a ph z of
        Panics \<Rightarrow> Panics
      | Returns (None, z') \<Rightarrow> Returns z'
      | Returns (Some ph', z') \<Rightarrow> enumRun h C N Z f a ph' z')"
  by pat_completeness auto
termination
  by (relation "inv_image (measures [stage, remaining]) (\<lambda>(h, C, N, Z, f, a, ph, z). ph)")
     (auto dest: enumStep_decreases)

declare enumRun.simps [simp del]

section \<open>The steps are the function\<close>

text \<open>The deferred function.\<close>

abbreviation enumFinish :: "IEEEAddress \<Rightarrow> ('c, 's, 'x) ZDA \<Rightarrow> ('c, 's, 'x) ZDA outcome" where
  "enumFinish a z \<equiv> Returns (sendStops a
     (updNode a (\<lambda>n. n\<lparr>enumerationState := False, enumerationSem := False\<rparr>) z))"

lemma enumRun_end: "enumRun h C N Z f a EnumEnd z = enumFinish a z"
  by (simp add: enumRun.simps)

lemma enumRun_devices:
  "enumRun h C N Z f a (EnumDevices did seen todo) z = enumFinish a (updateDevices h C did todo z)"
  by (induction todo arbitrary: seen z)
     (auto simp: enumRun.simps [of _ _ _ _ _ _ "EnumDevices _ _ _"] enumRun_end split: option.split prod.split)

lemma enumRun_rules:
  "enumRun h C N Z f a (EnumRules inven) z =
     (case runRules (LogicalTypeString N) f inven of
        Inl err \<Rightarrow> enumFinish a z
      | Inr inven' \<Rightarrow>
          (case updateNodeTable h C a (groupInventoryDevices inven') z of
             (did, z1) \<Rightarrow> enumFinish a (updateDevices h C did (groupInventoryDevices inven') z1)))"
  by (simp add: enumRun.simps [of _ _ _ _ _ _ "EnumRules _"] enumRun.simps [of _ _ _ _ _ _ "EnumTable _"]
      enumRun_end enumRun_devices split: sum.split prod.split)

lemma enumRun_products:
  "enumRun h C N Z f a (EnumProducts nd todo m) z =
     (case queryProducts N Z a todo m (env z) of
        (Panics, e) \<Rightarrow> Panics
      | (Returns m', e) \<Rightarrow>
          enumRun h C N Z f a (EnumRules \<lparr>nodeDescription = nd, endpoints = m'\<rparr>) (z\<lparr>env := e\<rparr>))"
proof (induction todo arbitrary: m z)
  case Nil
  have "z\<lparr>env := env z\<rparr> = z" by simp
  then show ?case by (simp add: enumRun.simps [of _ _ _ _ _ _ "EnumProducts _ _ _"])
next
  case (Cons p todo)
  then show ?case
    by (cases p) (auto simp: enumRun.simps [of _ _ _ _ _ _ "EnumProducts _ (_ # _) _"]
        split: prod.split sum.split outcome.split)
qed

lemma enumRun_descriptions:
  "enumRun h C N Z f a (EnumDescriptions nd eps m) z =
     (case queryEndpoints N a eps m (env z) of
        (Inl err, e) \<Rightarrow> enumFinish a (z\<lparr>env := e\<rparr>)
      | (Inr m', e) \<Rightarrow> enumRun h C N Z f a (EnumProducts nd m' m') (z\<lparr>env := e\<rparr>))"
proof (induction eps arbitrary: m z)
  case Nil
  have "z\<lparr>env := env z\<rparr> = z" by simp
  then show ?case by (simp add: enumRun.simps [of _ _ _ _ _ _ "EnumDescriptions _ _ _"])
next
  case (Cons ep eps)
  then show ?case
    by (auto simp: enumRun.simps [of _ _ _ _ _ _ "EnumDescriptions _ (_ # _) _"] enumRun_end
        split: prod.split sum.split)
qed

lemma enumRun_start: "enumRun h C N Z f a EnumStart z = enumerate h C N Z f a z"
proof -
  let ?z = "sendStarts a (updNode a (\<lambda>n. n\<lparr>enumerationState := True\<rparr>) z)"
  have "enumRun h C N Z f a EnumStart z = enumRun h C N Z f a EnumNode ?z"
    by (simp add: enumRun.simps [of _ _ _ _ _ _ EnumStart])
  also have "\<dots> = (case enumerateBody h C N Z f a ?z of Panics \<Rightarrow> Panics | Returns z1 \<Rightarrow> enumFinish a z1)"
    by (simp add: enumRun.simps [of _ _ _ _ _ _ EnumNode] enumRun.simps [of _ _ _ _ _ _ "EnumEndpoints _"]
        enumRun_end enumRun_descriptions enumRun_products enumRun_rules enumerateBody_def interrogateNode_def Let_def
        split: prod.split sum.split outcome.split)
  also have "\<dots> = enumerate h C N Z f a z"
    by (simp add: enumerate_def split: outcome.split)
  finally show ?thesis .
qed


section \<open>What is known in each phase\<close>

definition interrogated ::
  "('s, 'x) network \<Rightarrow> zclConstants \<Rightarrow> IEEEAddress \<Rightarrow> inventory \<Rightarrow> bool" where
  "interrogated N Z a inven \<longleftrightarrow>
     (\<exists>eps x x'. QueryNodeEndpoints N a x = (Inr eps, x') \<and> keys (endpoints inven) = set eps) \<and>
     (\<exists>x x'. QueryNodeDescription N a x = (Inr (nodeDescription inven), x')) \<and>
     wf_map (endpoints inven) \<and>
     (\<forall>ep d. map_of (endpoints inven) ep = Some d \<longrightarrow> described N a ep d \<and>
        (BasicId Z \<notin> set (InClusterList (description d)) \<longrightarrow> productInformation d = noProductData))"

text \<open>The devices the rules make of what the node answered.\<close>

definition asked ::
  "('s, 'x) network \<Rightarrow> zclConstants \<Rightarrow> (Input \<Rightarrow> 'e + Output) \<Rightarrow> IEEEAddress \<Rightarrow> inventoryDevice list \<Rightarrow> bool" where
  "asked N Z f a is \<longleftrightarrow>
     (\<exists>inven inven'. interrogated N Z a inven \<and> runRules (LogicalTypeString N) f inven = Inr inven' \<and>
        is = groupInventoryDevices inven')"

lemma asked_inventory:
  assumes "asked N Z f a is" "network_endpoints N"
  shows "distinct (map uniqueId is)" "0 \<notin> uniqueId ` set is" "length is \<le> 128"
proof -
  from assms(1) obtain inven inven' eps x x' where
    "QueryNodeEndpoints N a x = (Inr eps, x')" "keys (endpoints inven) = set eps" "wf_map (endpoints inven)"
    "runRules (LogicalTypeString N) f inven = Inr inven'" "is = groupInventoryDevices inven'"
    unfolding asked_def interrogated_def by blast
  from inventory_listed [OF assms(2) this(1-4)] this(5)
  show "distinct (map uniqueId is)" "0 \<notin> uniqueId ` set is" "length is \<le> 128" by simp_all
qed

fun phase_ok ::
  "('c, 's, 'x) zdaCapability \<Rightarrow> ('s, 'x) network \<Rightarrow> zclConstants \<Rightarrow> (Input \<Rightarrow> 'e + Output)
    \<Rightarrow> IEEEAddress \<Rightarrow> enumPhase \<Rightarrow> ('c, 's, 'x) ZDA \<Rightarrow> bool" where
  "phase_ok C N Z f a (EnumEndpoints nd) z \<longleftrightarrow> (\<exists>x x'. QueryNodeDescription N a x = (Inr nd, x'))"
| "phase_ok C N Z f a (EnumDescriptions nd eps m) z \<longleftrightarrow>
     (\<exists>x x'. QueryNodeDescription N a x = (Inr nd, x')) \<and>
     (\<exists>all x x'. QueryNodeEndpoints N a x = (Inr all, x') \<and> keys m \<union> set eps = set all) \<and>
     wf_map m \<and> (\<forall>ep d. map_of m ep = Some d \<longrightarrow> described N a ep d \<and> productInformation d = noProductData)"
| "phase_ok C N Z f a (EnumProducts nd todo m) z \<longleftrightarrow>
     interrogated N Z a \<lparr>nodeDescription = nd, endpoints = m\<rparr> \<and> wf_map todo \<and>
     (\<forall>ep d. map_of todo ep = Some d \<longrightarrow> ep \<in> keys m \<and> described N a ep d)"
| "phase_ok C N Z f a (EnumRules inven) z \<longleftrightarrow> interrogated N Z a inven"
| "phase_ok C N Z f a (EnumTable is) z \<longleftrightarrow> asked N Z f a is"
| "phase_ok C N Z f a (EnumDevices did seen todo) z \<longleftrightarrow>
     asked N Z f a (seen @ todo) \<and> mapped a did (seen @ todo) z \<and>
     (\<forall>i \<in> set seen. \<forall>d. map_of did (uniqueId i) = Some d \<longrightarrow> asked_for C d i z)"
| "phase_ok C N Z f a _ z \<longleftrightarrow> True"

text \<open>What other goroutines must leave alone on the node.\<close>

definition node_kept :: "('c, 's, 'x) zdaCapability \<Rightarrow> IEEEAddress \<Rightarrow> ('c, 's, 'x) ZDA \<Rightarrow> ('c, 's, 'x) ZDA \<Rightarrow> bool" where
  "node_kept C a z z' \<longleftrightarrow>
     flags a z' = flags a z \<and>
     (\<forall>d. IEEEAddress d = a \<longrightarrow> ids d z' = ids d z \<and>
        (\<forall>cf. map_option (c_ImplName C) (map_of (deviceCaps d z') cf) =
          map_option (c_ImplName C) (map_of (deviceCaps d z) cf)))"

lemma node_keptI:
  "flags a z' = flags a z \<Longrightarrow> (\<And>d. IEEEAddress d = a \<Longrightarrow> getDevice d z' = getDevice d z) \<Longrightarrow> node_kept C a z z'"
  by (simp add: node_kept_def ids_def deviceCaps_def)

lemma asked_for_kept:
  assumes "node_kept C a z z'" "IEEEAddress d = a" "asked_for C d i z"
  shows "asked_for C d i z'"
  unfolding asked_for_def
proof (intro allI impI)
  fix cf c
  assume c: "map_of (deviceCaps d z') cf = Some c"
  have eq: "map_option (c_ImplName C) (map_of (deviceCaps d z') cf) = map_option (c_ImplName C) (map_of (deviceCaps d z) cf)"
    by (rule assms(1) [unfolded node_kept_def, THEN conjunct2, rule_format, OF assms(2), THEN conjunct2, rule_format])
  have "map_option (c_ImplName C) (map_of (deviceCaps d z) cf) = Some (c_ImplName C c)"
    unfolding eq [symmetric] c by simp
  then obtain c0 where c0: "map_of (deviceCaps d z) cf = Some c0" "c_ImplName C c0 = c_ImplName C c"
    unfolding map_option_eq_Some by blast
  have "c_ImplName C c0 \<in> fst ` set (offers i)"
    using assms(3) c0(1) unfolding asked_for_def by blast
  then show "c_ImplName C c \<in> fst ` set (offers i)" unfolding c0(2) .
qed

lemma phase_ok_kept:
  assumes "phase_ok C N Z f a ph z" "node_kept C a z z'"
  shows "phase_ok C N Z f a ph z'"
proof (cases ph)
  case (EnumDevices did seen todo)
  with assms(1) have ph: "asked N Z f a (seen @ todo)" "mapped a did (seen @ todo) z"
    "\<forall>i \<in> set seen. \<forall>d. map_of did (uniqueId i) = Some d \<longrightarrow> asked_for C d i z"
    by simp_all
  have "ids d z' = ids d z" if "IEEEAddress d = a" for d using assms(2) that by (simp add: node_kept_def)
  then have "mapped a did (seen @ todo) z'" by (rule mapped_cong [OF ph(2)])
  moreover have "\<forall>i \<in> set seen. \<forall>d. map_of did (uniqueId i) = Some d \<longrightarrow> asked_for C d i z'"
  proof (intro ballI allI impI)
    fix i d
    assume i: "i \<in> set seen" and d: "map_of did (uniqueId i) = Some d"
    from ph(3) i d have "asked_for C d i z" by blast
    then show "asked_for C d i z'" by (rule asked_for_kept [OF assms(2) mapped_address [OF ph(2) d]])
  qed
  ultimately show ?thesis using ph(1) unfolding EnumDevices phase_ok.simps by (intro conjI)
qed (use assms(1) in simp_all)

section \<open>What a step does\<close>

lemma listed_keys: "\<exists>all x x'. QueryNodeEndpoints N a x = (Inr all, x') \<and> K = set all \<Longrightarrow> K' = K \<Longrightarrow>
    \<exists>all x x'. QueryNodeEndpoints N a x = (Inr all, x') \<and> K' = set all"
  by simp

lemma quiet_retries:
  assumes "network_ok N"
  shows "retryNodeDescription N (onWorld g1) e = (r1, e') \<Longrightarrow> quiet e e'"
    "retryEndpoints N (onWorld g2) e = (r2, e') \<Longrightarrow> quiet e e'"
    "retryEndpointDescription N (onWorld g3) e = (r3, e') \<Longrightarrow> quiet e e'"
    "retryReadAttributes N (readBasic N Z a ep) e = (r4, e') \<Longrightarrow> quiet e e'"
proof -
  have q: "quiet e (snd (retryNodeDescription N (onWorld g1) e))" "quiet e (snd (retryEndpoints N (onWorld g2) e))"
    "quiet e (snd (retryEndpointDescription N (onWorld g3) e))"
    "quiet e (snd (retryReadAttributes N (readBasic N Z a ep) e))"
    by (rule retried_quiet, rule network_okD [OF assms], rule quiet_onWorld quiet_readBasic)+
  from q show "retryNodeDescription N (onWorld g1) e = (r1, e') \<Longrightarrow> quiet e e'"
    "retryEndpoints N (onWorld g2) e = (r2, e') \<Longrightarrow> quiet e e'"
    "retryEndpointDescription N (onWorld g3) e = (r3, e') \<Longrightarrow> quiet e e'"
    "retryReadAttributes N (readBasic N Z a ep) e = (r4, e') \<Longrightarrow> quiet e e'"
    by simp_all
qed

text \<open>A query keeps the table.\<close>

lemma env_update_eq: "z\<lparr>env := e\<rparr> = z\<lparr>env := e'\<rparr> \<longleftrightarrow> e = e'" "z = z\<lparr>env := e\<rparr> \<longleftrightarrow> e = env z"
  by (cases z; auto)+

definition query_phase :: "enumPhase \<Rightarrow> bool" where
  "query_phase ph \<longleftrightarrow> 3 \<le> stage ph \<and> stage ph \<le> 7"

lemma query_step:
  assumes "network_ok N" "enumStep h C N Z f a ph z = Returns (next, z')" "query_phase ph"
  shows "\<exists>e. z' = z\<lparr>env := e\<rparr> \<and> quiet (env z) e"
  using assms(2,3)
  by (cases "(h, C, N, Z, f, a, ph, z)" rule: enumStep.cases)
     (auto simp: query_phase_def env_update_eq dest: quiet_retries [OF assms(1)]
       split: prod.splits sum.splits outcome.splits if_splits)

text \<open>What it learns holds of the network.\<close>

lemma retried_answers:
  assumes "network_ok N"
  shows "retryNodeDescription N (onWorld g1) e = (Inr v1, e') \<Longrightarrow> \<exists>x x'. g1 x = (Inr v1, x')"
    "retryEndpoints N (onWorld g2) e = (Inr v2, e') \<Longrightarrow> \<exists>x x'. g2 x = (Inr v2, x')"
    "retryEndpointDescription N (onWorld g3) e = (Inr v3, e') \<Longrightarrow> \<exists>x x'. g3 x = (Inr v3, x')"
  using network_okD(1) [OF assms, of "onWorld g1" e] network_okD(2) [OF assms, of "onWorld g2" e]
    network_okD(3) [OF assms, of "onWorld g3" e]
  by (auto dest: retried_onWorld)

lemma learns_description:
  assumes "network_ok N" "phase_ok C N Z f a (EnumDescriptions nd (ep # eps) m) z"
    and "retryEndpointDescription N (onWorld (QueryNodeEndpointDescription N a ep)) e = (Inr ed, e')"
  shows "phase_ok C N Z f a (EnumDescriptions nd eps
     (AList.update ep \<lparr>description = ed, productInformation = noProductData, rulesOutput = \<lparr>OutputCapabilities = []\<rparr>\<rparr> m)) z'"
proof -
  let ?d = "\<lparr>description = ed, productInformation = noProductData, rulesOutput = \<lparr>OutputCapabilities = []\<rparr>\<rparr>"
  have d: "described N a ep ?d" using retried_answers(3) [OF assms(1,3)] by (simp add: described_def)
  have "keys (AList.update ep ?d m) \<union> set eps = keys m \<union> set (ep # eps)" by auto
  moreover have "described N a ep' d' \<and> productInformation d' = noProductData"
    if "map_of (AList.update ep ?d m) ep' = Some d'" for ep' d'
    using that d assms(2) by (auto split: if_splits)
  ultimately show ?thesis using assms(2) unfolding phase_ok.simps by (auto simp only: wf_map_update)
qed

lemma learns_product:
  assumes "phase_ok C N Z f a (EnumProducts nd ((ep, desc) # todo) m) z"
  shows "phase_ok C N Z f a (EnumProducts nd todo m) z'"
    "BasicId Z \<in> set (InClusterList (description desc)) \<Longrightarrow>
       phase_ok C N Z f a (EnumProducts nd todo (AList.update ep (desc\<lparr>productInformation := p\<rparr>) m)) z'"
proof -
  from assms have int: "interrogated N Z a \<lparr>nodeDescription = nd, endpoints = m\<rparr>"
    and wf: "ep \<notin> keys todo" "wf_map todo"
    and found: "\<forall>ep' d. map_of ((ep, desc) # todo) ep' = Some d \<longrightarrow> ep' \<in> keys m \<and> described N a ep' d"
    by simp_all
  have todo: "ep' \<in> keys m \<and> described N a ep' d" if "map_of todo ep' = Some d" for ep' d
  proof -
    have "ep' \<noteq> ep" using that wf(1) map_of_SomeD_keys [OF that] by blast
    with found that show ?thesis by simp
  qed
  then show "phase_ok C N Z f a (EnumProducts nd todo m) z'" using int wf(2) by simp
  assume basic: "BasicId Z \<in> set (InClusterList (description desc))"
  let ?m = "AList.update ep (desc\<lparr>productInformation := p\<rparr>) m"
  have ep: "ep \<in> keys m" "described N a ep desc" using found [rule_format, of ep desc] by simp_all
  then have keys: "keys ?m = keys m" by auto
  have "\<forall>ep' d. map_of ?m ep' = Some d \<longrightarrow> described N a ep' d \<and>
      (BasicId Z \<notin> set (InClusterList (description d)) \<longrightarrow> productInformation d = noProductData)"
    using int ep(2) basic by (auto simp: interrogated_def split: if_splits)
  then have "interrogated N Z a \<lparr>nodeDescription = nd, endpoints = ?m\<rparr>"
    using int unfolding interrogated_def inventory.simps keys by (simp only: wf_map_update simp_thms)
  with todo wf(2) keys show "phase_ok C N Z f a (EnumProducts nd todo ?m) z'" by simp
qed

lemma query_learns:
  assumes "network_ok N" "phase_ok C N Z f a ph z"
    and "enumStep h C N Z f a ph z = Returns (Some ph', z')" "query_phase ph"
  shows "phase_ok C N Z f a ph' z'"
proof (cases ph)
  case EnumNode
  with assms(3) retried_answers(1) [OF assms(1)] show ?thesis by (auto split: prod.splits sum.splits)
next
  case (EnumEndpoints nd)
  with assms(2,3) retried_answers(2) [OF assms(1)] show ?thesis by (fastforce split: prod.splits sum.splits)
next
  case (EnumDescriptions nd eps m)
  show ?thesis
  proof (cases eps)
    case Nil
    with assms(3) EnumDescriptions have ph': "ph' = EnumProducts nd m m" by simp
    from assms(2) [unfolded EnumDescriptions Nil phase_ok.simps] show ?thesis
      unfolding ph' phase_ok.simps interrogated_def inventory.simps
      by (elim conjE, intro conjI allI impI) (simp_all add: map_of_SomeD_keys)
  next
    case (Cons ep eps')
    obtain r e where r: "retryEndpointDescription N (onWorld (QueryNodeEndpointDescription N a ep)) (env z) = (r, e)"
      by (metis prod.exhaust)
    show ?thesis
    proof (cases r)
      case (Inl err)
      with assms(3) EnumDescriptions Cons r show ?thesis by auto
    next
      case (Inr ed)
      from learns_description [OF assms(1) assms(2) [unfolded EnumDescriptions Cons] r [unfolded Inr]]
        assms(3) EnumDescriptions Cons r Inr
      show ?thesis by (auto simp del: phase_ok.simps)
    qed
  qed
next
  case (EnumProducts nd todo m)
  show ?thesis
  proof (cases todo)
    case Nil
    with assms(2,3) EnumProducts show ?thesis by auto
  next
    case (Cons p todo')
    obtain ep desc where p: "p = (ep, desc)" by (cases p)
    note learns = learns_product [OF assms(2) [unfolded EnumProducts Cons p]]
    from assms(3) show ?thesis
      unfolding EnumProducts Cons p enumStep.simps
      by (auto simp del: phase_ok.simps split: if_splits prod.splits sum.splits outcome.splits intro: learns)
  qed
next
  case (EnumRules inven)
  with assms(2,3) show ?thesis
    by (simp split: sum.splits) (elim conjE exE, clarsimp simp: asked_def, blast)+
qed (use assms(4) in \<open>simp_all add: query_phase_def\<close>)

text \<open>A step of the enumeration of \<open>a\<close>: the invariant of the gateway holds again, the other nodes
  are as they were, and what the next phase relies on is true.\<close>

definition flags_in :: "enumPhase option \<Rightarrow> (bool \<times> bool) option" where
  "flags_in ph = Some (case ph of None \<Rightarrow> (False, False) | Some ph \<Rightarrow> (ph \<noteq> EnumStart, True))"

definition step_result ::
  "'s host \<Rightarrow> ('c, 's, 'x) zdaCapability \<Rightarrow> ('s, 'x) network \<Rightarrow> zclConstants \<Rightarrow> (Input \<Rightarrow> 'e + Output)
    \<Rightarrow> IEEEAddress \<Rightarrow> enumPhase option \<Rightarrow> ('c, 's, 'x) ZDA \<Rightarrow> ('c, 's, 'x) ZDA \<Rightarrow> bool" where
  "step_result h C N Z f a next z z' \<longleftrightarrow>
     sys_ok h C z' \<and> (\<forall>b. (getNode b z' = None) = (getNode b z = None)) \<and>
     (\<forall>d. IEEEAddress d \<noteq> a \<longrightarrow> getDevice d z' = getDevice d z) \<and> (\<forall>b. b \<noteq> a \<longrightarrow> flags b z' = flags b z) \<and>
     flags a z' = flags_in next \<and> (\<forall>ph. next = Some ph \<longrightarrow> phase_ok C N Z f a ph z')"

context gateway begin

lemma enumStep_start:
  assumes "sys_ok h C z" "flags a z = flags_in (Some EnumStart)"
    and "enumStep h C N Z f a EnumStart z = Returns (next, z')"
  shows "step_result h C N Z f a next z z'"
proof -
  let ?g = "\<lambda>n :: 'c node. n\<lparr>enumerationState := True\<rparr>"
  have z': "next = Some EnumNode" "z' = sendStarts a (updNode a ?g z)" using assms(3) by auto
  have dev: "getDevice d z' = getDevice d z" for d by (simp add: z' getDevice_updNode_device)
  have "sys_ok h C z'"
    unfolding z'
    by (rule sys_ok_cong [of h C "updNode a ?g z"])
       (use assms(1) in \<open>auto intro!: sys_ok_flags gateway_ok_sendStarts gateway_ok_flags dest: sys_okD(1)\<close>)
  moreover have "flags b z' = (if b = a then Some (True, True) else flags b z)" for b
    using assms(2) by (auto simp: z' flags_updNode flags_in_def) (auto simp: flags_def)
  ultimately show ?thesis using dev by (simp add: step_result_def z' flags_in_def)
qed

lemma enumStep_end:
  assumes "sys_ok h C z" "flags a z = flags_in (Some EnumEnd)"
    and "enumStep h C N Z f a EnumEnd z = Returns (next, z')"
  shows "step_result h C N Z f a next z z'"
proof -
  let ?g = "\<lambda>n :: 'c node. n\<lparr>enumerationState := False, enumerationSem := False\<rparr>"
  have z': "next = None" "z' = sendStops a (updNode a ?g z)" using assms(3) by auto
  have dev: "getDevice d z' = getDevice d z" for d by (simp add: z' getDevice_updNode_device)
  have "sys_ok h C z'"
    unfolding z'
    by (rule sys_ok_cong [of h C "updNode a ?g z"])
       (use assms(1) in \<open>auto intro!: sys_ok_flags gateway_ok_sendStops gateway_ok_flags dest: sys_okD(1)\<close>)
  moreover have "flags b z' = (if b = a then Some (False, False) else flags b z)" for b
    using assms(2) by (auto simp: z' flags_updNode flags_in_def) (auto simp: flags_def)
  ultimately show ?thesis using dev by (simp add: step_result_def z' flags_in_def)
qed

lemma enumStep_table:
  assumes "sys_ok h C z" "network_endpoints N" "flags a z = flags_in (Some (EnumTable is))"
    and "phase_ok C N Z f a (EnumTable is) z" "enumStep h C N Z f a (EnumTable is) z = Returns (next, z')"
  shows "step_result h C N Z f a next z z'"
proof -
  obtain did where t: "updateNodeTable h C a is z = (did, z')" "next = Some (EnumDevices did [] is)"
    using assms(5) by (auto split: prod.splits)
  have node: "getNode a z \<noteq> None"
    using assms(3) unfolding flags_in_def by (metis flags_None option.distinct(1))
  have ask: "asked N Z f a is" using assms(4) by simp
  note inven = asked_inventory [OF ask assms(2)]
  note u = updateNodeTable_sys [OF assms(1) node inven(2,3) t(1)]
  have "phase_ok C N Z f a (EnumDevices did [] is) z'" using ask u(2) by simp
  then show ?thesis
    using u(1,3,4) flags_updateNodeTable [OF t(1)] assms(3) by (simp add: step_result_def t(2) flags_in_def)
qed

lemma enumStep_devices:
  assumes "sys_ok h C z" "network_endpoints N" "flags a z = flags_in (Some (EnumDevices did seen todo))"
    and "phase_ok C N Z f a (EnumDevices did seen todo) z"
    and "enumStep h C N Z f a (EnumDevices did seen todo) z = Returns (next, z')"
  shows "step_result h C N Z f a next z z'"
proof (cases todo)
  case Nil
  with assms show ?thesis by (auto simp: step_result_def flags_in_def)
next
  case (Cons i todo')
  from assms(4) have ask: "asked N Z f a (seen @ todo)" and map: "mapped a did (seen @ todo) z"
    and seen: "\<forall>i \<in> set seen. \<forall>d. map_of did (uniqueId i) = Some d \<longrightarrow> asked_for C d i z" by simp_all
  have "uniqueId i \<in> keys did" using map Cons unfolding mapped_def by simp
  then obtain d where d: "map_of did (uniqueId i) = Some d" by (rule keys_obtain)
  obtain errs z1 where one: "updateCapabilitiesOnDevice h C d i z = (errs, z1)" by (metis prod.exhaust)
  have z': "z' = setResults d errs z1" "next = Some (EnumDevices did (seen @ [i]) todo')"
    using assms(5) d one Cons by simp_all
  have here: "getDevice d z \<noteq> None" using mapped_known [OF map] d by blast
  note up = updateCapabilitiesOnDevice_ok [OF sys_okD(1) [OF assms(1)] here one]
  note change = dev_changeD [OF up(2)]
  have ids: "ids d' z' = ids d' z" for d' using dev_change_ids [OF up(2)] by (simp add: z')
  have addr: "IEEEAddress d = a" by (rule mapped_address [OF map d])
  have other: "getDevice d' z' = getDevice d' z" if "d' \<noteq> d" for d' using that change(1) by (simp add: z')
  have "asked_for C d i z'" using up(3) by (simp add: asked_for_def z')
  moreover have "asked_for C d' j z'" if "j \<in> set seen" "map_of did (uniqueId j) = Some d'" for j d'
  proof -
    have "distinct (map uniqueId (seen @ i # todo'))" using asked_inventory(1) [OF ask assms(2)] Cons by simp
    then have "uniqueId i \<notin> uniqueId ` set seen" by simp
    then have "uniqueId j \<noteq> uniqueId i" using that(1) by (metis imageI)
    then have "d' \<noteq> d" using mapped_inj [OF map] d that(2) by blast
    moreover have "asked_for C d' j z" using seen that by blast
    ultimately show ?thesis using other by (simp add: asked_for_def deviceCaps_def)
  qed
  ultimately have all: "\<forall>j \<in> set (seen @ [i]). \<forall>d'. map_of did (uniqueId j) = Some d' \<longrightarrow> asked_for C d' j z'"
    using d by auto
  have "mapped a did (seen @ todo) z'" by (rule mapped_cong [OF map]) (rule ids)
  then have "phase_ok C N Z f a (EnumDevices did (seen @ [i]) todo') z'"
    using ask all Cons by simp
  moreover have "sys_ok h C z'"
    by (rule sys_ok_cong [OF assms(1) _ ids]) (simp add: z' gateway_ok_setResults up(1))
  moreover have "(getNode b z' = None) = (getNode b z = None)" for b using change(2) by (simp add: z')
  moreover have "flags b z' = flags b z" for b using flags_updateCapabilitiesOnDevice [OF one] by (simp add: z')
  moreover have "getDevice d' z' = getDevice d' z" if "IEEEAddress d' \<noteq> a" for d' using that addr by (intro other) auto
  ultimately show ?thesis using assms(3) by (simp add: step_result_def z'(2) flags_in_def)
qed

lemma enumStep_query:
  assumes "sys_ok h C z" "network_ok N" "flags a z = flags_in (Some ph)" "query_phase ph"
    and "phase_ok C N Z f a ph z" "enumStep h C N Z f a ph z = Returns (next, z')"
  shows "step_result h C N Z f a next z z'"
proof -
  obtain e where z': "z' = z\<lparr>env := e\<rparr>" "quiet (env z) e" using query_step [OF assms(2,6,4)] by blast
  have "\<exists>ph'. next = Some ph' \<and> ph' \<noteq> EnumStart"
    using assms(4,6)
    by (cases "(h, C, N, Z, f, a, ph, z)" rule: enumStep.cases)
       (auto simp: query_phase_def split: prod.splits sum.splits outcome.splits if_splits)
  then obtain ph' where nx: "next = Some ph'" "ph' \<noteq> EnumStart" by blast
  have "phase_ok C N Z f a ph' z'" by (rule query_learns [OF assms(2,5) assms(6) [unfolded nx(1)] assms(4)])
  moreover have "ph \<noteq> EnumStart" using assms(4) by (auto simp: query_phase_def)
  ultimately show ?thesis
    using assms(3) nx z' sys_ok_quiet [OF assms(1) z'(2)] by (simp add: step_result_def flags_in_def)
qed

lemma enumStep_ok:
  assumes "sys_ok h C z" "network_ok N" "network_endpoints N" "flags a z = flags_in (Some ph)"
    and "phase_ok C N Z f a ph z" "enumStep h C N Z f a ph z = Returns (next, z')"
  shows "step_result h C N Z f a next z z'"
proof (cases "query_phase ph")
  case True
  then show ?thesis using enumStep_query assms by blast
next
  case False
  with assms enumStep_start enumStep_end enumStep_table enumStep_devices show ?thesis
    by (cases ph) (auto simp: query_phase_def simp del: phase_ok.simps enumStep.simps)
qed

end

end
