(* ===== verification/System.thy ===== *)
theory System
  imports Messages Restart Discovery Enumerate_Steps
begin

text \<open>
  The running program: what the provider, the callers of the gateway, the enumeration
  goroutines, the pollers and the timers do to it, in any order, over any number of process
  lifetimes. Any number of enumerations run at a time, their steps interleaved with each other
  and with everything else; the other functions run as one step. Between the steps the world
  outside may change. The one invariant of all components holds in every reachable state.
\<close>

section \<open>What a capability does on its own\<close>

text \<open>The ticks and the end of a poller, the timers of the identify capability, and the calls
  of its interface that change something.\<close>

inductive implAct ::
  "('s, 'x) zdaInterface \<Rightarrow> implementation \<Rightarrow> ('s, 'x) env \<Rightarrow> implementation \<Rightarrow> ('s, 'x) env \<Rightarrow> bool"
  for I :: "('s, 'x) zdaInterface" where
  tick: "m \<in> set (implMonitors c) \<Longrightarrow> 0 < m_pollers m \<Longrightarrow> implAct I c e c (pollerTicks I m e)"
| stop_temperature: "0 < m_pollers (s_monitor i) \<Longrightarrow>
    implAct I (ImplTemperature i) e (ImplTemperature (i\<lparr>s_monitor := pollerStops (s_monitor i)\<rparr>)) e"
| stop_humidity: "0 < m_pollers (s_monitor i) \<Longrightarrow>
    implAct I (ImplHumidity i) e (ImplHumidity (i\<lparr>s_monitor := pollerStops (s_monitor i)\<rparr>)) e"
| stop_pressure: "0 < m_pollers (s_monitor i) \<Longrightarrow>
    implAct I (ImplPressure i) e (ImplPressure (i\<lparr>s_monitor := pollerStops (s_monitor i)\<rparr>)) e"
| stop_identify: "0 < m_pollers (id_monitor i) \<Longrightarrow>
    implAct I (ImplIdentify i) e (ImplIdentify (i\<lparr>id_monitor := pollerStops (id_monitor i)\<rparr>)) e"
| stop_power: "0 < m_pollers (getMonitor sl i) \<Longrightarrow>
    implAct I (ImplPower i) e (ImplPower (setMonitor sl (pollerStops (getMonitor sl i)) i)) e"
| identify_timer: "0 < id_timers i \<Longrightarrow> timerFires I i e = (i', e') \<Longrightarrow>
    implAct I (ImplIdentify i) e (ImplIdentify i') e'"
| identify_call: "Identify I duration i e = (err, i', e') \<Longrightarrow>
    implAct I (ImplIdentify i) e (ImplIdentify i') e'"

lemma pollerStops_same [simp]: "same_monitor m (pollerStops m)"
  by (simp add: pollerStops_def same_monitor_def)

lemma implAct_contract:
  assumes "implAct I c e c' e'" "section_store (sections I)"
  shows "implCapability c' = implCapability c \<and> implName c' = implName c \<and> implSection c' = implSection c \<and>
    cap_effect (sections I) (implSection c) e e'"
  using assms
proof (induction rule: implAct.induct)
  case (tick m c e)
  then show ?case by (auto intro: effect_rules)
next
  case (stop_power sl i e)
  have "same_power i (setMonitor sl (pollerStops (getMonitor sl i)) i)"
    by (rule same_power_setMonitor) simp_all
  from same_power_section [OF this] show ?case by simp
next
  case (identify_timer i e i' e')
  from identify_timer(1,2) have "periodicSendEvent I (i\<lparr>id_timers := id_timers i - 1\<rparr>) e = (i', e')"
    by (simp add: Identify.timerFires_def)
  from periodicSendEvent_effect [OF this cap_effect_refl] show ?case by simp
next
  case (identify_call duration i e err i' e')
  from identify_call(1) obtain ieee lep ack sq e1 where t: "transmissionLookup (Some (id_device i)) e = ((ieee, lep, ack, sq), e1)"
    by (metis prod.exhaust)
  obtain r e2 where w: "onWorld (RequestIdentify I
              \<lparr>identAddress = ieee, identAck = ack, identSequence = sq, identSource = lep,
               identDestination = id_remote i, identTime = identifySeconds duration\<rparr>) e1 = (r, e2)"
    by (metis prod.exhaust)
  have eff: "cap_effect (sections I) (implSection (ImplIdentify i)) e e2"
    by (rule effect_onWorld [OF w effect_transmissionLookup [OF t cap_effect_refl]])
  show ?case
  proof (cases r)
    case (Inl err')
    with identify_call(1) t w eff show ?thesis by (simp add: Identify_def)
  next
    case (Inr u)
    with identify_call(1) t w have "updateDuration I (uint (identifySeconds duration) * second) i e2 = (i', e')"
      by (simp add: Identify_def split: prod.splits)
    from updateDuration_effect [OF this identify_call(2) sectionOf_below(1)] eff show ?thesis by simp
  qed
qed (simp_all add: sectionOf_def same_monitor_def pollerStops_def)

section \<open>The system\<close>

text \<open>\<open>reachable\<close>: the states of the table, with the phases the running enumerations are in. A
  process starts with no node, nothing announced, no enumeration, and on the store of an
  earlier one, if there was any; \<open>providerLoop\<close> loads it first. A panic ends the process: it
  has no successor but a restart.

  A node does not leave while it is being enumerated. The code does not see to this, and
  \<open>Enumeration_Properties\<close> shows what happens if it does.\<close>

definition newProcess :: "('c, 's, 'x) ZDA \<Rightarrow> bool" where
  "newProcess z \<longleftrightarrow> node z = [] \<and> events (env z) = []"

definition emptyStore :: "'s persist \<Rightarrow> 's \<Rightarrow> bool" where
  "emptyStore P s \<longleftrightarrow> (\<forall>q. p_keys P q s = [] \<and> (\<forall>j. p_get P q j s = None))"

type_synonym goroutines = "IEEEAddress \<Rightarrow> enumPhase option"

text \<open>The goroutines after an event: a join of an unknown node starts an enumeration.\<close>

definition goroutinesAfter :: "'m providerEvent \<Rightarrow> ('c, 's, 'x) ZDA \<Rightarrow> goroutines \<Rightarrow> goroutines" where
  "goroutinesAfter ev z R =
     (case ev of
        NodeJoinEvent a \<Rightarrow> if getNode a z = None then R(a \<mapsto> EnumStart) else R
      | _ \<Rightarrow> R)"

inductive reachable ::
  "'s host \<Rightarrow> ('s, 'x) zdaInterface \<Rightarrow> ('s, 'x) network \<Rightarrow> (Input \<Rightarrow> 'e + Output) \<Rightarrow> ('m \<Rightarrow> goerr + zclMessage)
    \<Rightarrow> goroutines \<Rightarrow> (implementation, 's, 'x) ZDA \<Rightarrow> bool"
  for h :: "'s host" and I :: "('s, 'x) zdaInterface" and N :: "('s, 'x) network"
    and f :: "Input \<Rightarrow> 'e + Output" and parse :: "'m \<Rightarrow> goerr + zclMessage" where
  first: "newProcess z \<Longrightarrow> emptyStore (persist h) (store (env z)) \<Longrightarrow> reachable h I N f parse (\<lambda>_. None) z"
| restart: "reachable h I N f parse R z0 \<Longrightarrow> newProcess z \<Longrightarrow> store (env z) = store (env z0) \<Longrightarrow>
    reachable h I N f parse (\<lambda>_. None) (providerLoad h (Implementations I) z)"
| provider: "reachable h I N f parse R z \<Longrightarrow> (\<forall>a. ev = NodeLeaveEvent a \<longrightarrow> R a = None) \<Longrightarrow>
    handleEvent h (Implementations I) (receiveNodeIncomingMessageEvent I parse) ev z = Returns z' \<Longrightarrow>
    reachable h I N f parse (goroutinesAfter ev z R) z'"
| request: "reachable h I N f parse R z \<Longrightarrow> startEnumeration a z = (err, z') \<Longrightarrow>
    reachable h I N f parse (if err = None then R(a \<mapsto> EnumStart) else R) z'"
| enumeration: "reachable h I N f parse R z \<Longrightarrow> R a = Some ph \<Longrightarrow>
    enumStep h (Implementations I) N (zcl I) f a ph z = Returns (next, z') \<Longrightarrow>
    reachable h I N f parse (R(a := next)) z'"
| capability: "reachable h I N f parse R z \<Longrightarrow> map_of (deviceCaps d z) cf = Some c \<Longrightarrow>
    implAct I c (env z) c' e' \<Longrightarrow> reachable h I N f parse R (writeBack d cf c' (z\<lparr>env := e'\<rparr>))"
| discovery: "reachable h I N f parse R z \<Longrightarrow> discoveryStep J b (now, dd, env z) (now', dd', e') \<Longrightarrow>
    reachable h I N f parse R (z\<lparr>env := e'\<rparr>)"
| outside: "reachable h I N f parse R z \<Longrightarrow> reachable h I N f parse R (z\<lparr>env := (env z)\<lparr>world := x\<rparr>\<rparr>)"

section \<open>Steps that leave the flags of the nodes alone\<close>

lemma flags_deliverAll: "deliverAll I msg slots z = Returns z' \<Longrightarrow> flags b z' = flags b z"
  by (induction I msg slots z rule: deliverAll.induct) (auto split: option.splits outcome.splits prod.splits)

lemma flags_message: "receiveNodeIncomingMessageEvent I parse m z = Returns z' \<Longrightarrow> flags b z' = flags b z"
  by (auto simp: receiveNodeIncomingMessageEvent_def dest: flags_deliverAll split: sum.splits)

lemma flags_join:
  "flags b (receiveNodeJoinEvent h a z) = (if b = a \<and> getNode a z = None then Some (False, True) else flags b z)"
proof -
  obtain created z1 where c: "createNode h a z = (created, z1)" by (metis prod.exhaust)
  have created: "created \<longleftrightarrow> getNode a z = None"
    using c by (auto simp: createNode_def getNode_def split: option.splits)
  have f1: "flags b z1 = (if b = a \<and> getNode a z = None then Some (False, False) else flags b z)" for b
    using flags_createNode [of b h a z] c by simp
  obtain err z2 where s: "startEnumeration a (snd (createNextDevice h a z1)) = (err, z2)" by (metis prod.exhaust)
  show ?thesis
  proof (cases created)
    case True
    with created f1 flags_startEnumeration [OF s] c s show ?thesis
      by (auto simp: receiveNodeJoinEvent_def onNodeJoin_def)
  next
    case False
    with created c show ?thesis by (auto simp: receiveNodeJoinEvent_def createNode_def split: option.splits)
  qed
qed

lemma flags_leave: "flags b (receiveNodeLeaveEvent h C a z) = (if b = a then None else flags b z)"
  by (cases "getNode a z")
     (simp_all add: receiveNodeLeaveEvent_def flags_removeNode [unfolded flags_None] del: flags_None, simp_all)

lemma flags_loadCapability: "flags b (loadCapability h C d cName z) = flags b z"
  by (simp add: loadCapability_def Let_def split: option.split prod.split)

lemma flags_fold_load: "flags b (fold (loadCapability h C d) xs z) = flags b z"
  by (induction xs arbitrary: z) (simp_all add: flags_loadCapability)

lemma flags_loadDevice: "flags b (providerLoadDevice h C a i z) = flags b z"
proof -
  obtain d z1 where "createSpecificDevice h a (SubIdentifier i) z = (d, z1)" by (metis prod.exhaust)
  with flags_devices(1) [of b h a "SubIdentifier i" z] show ?thesis
    by (simp add: providerLoadDevice_def Let_def flags_fold_load split: option.split)
qed

lemma flags_fold_loadDevice: "flags b (fold (providerLoadDevice h C a) ds z) = flags b z"
  by (induction ds arbitrary: z) (simp_all add: flags_loadDevice)

lemma flags_loadNode:
  "flags b (providerLoadNode h C a z) = (if b = a \<and> getNode a z = None then Some (False, False) else flags b z)"
proof -
  obtain c z1 where c: "createNode h a z = (c, z1)" by (metis prod.exhaust)
  obtain ds s where "deviceListFromPersistence h a (store (env z1)) = (ds, s)" by (metis prod.exhaust)
  then have "flags b (providerLoadNode h C a z) = flags b z1"
    by (simp add: providerLoadNode_def c flags_fold_loadDevice)
  with flags_createNode [of b h a z] c show ?thesis by simp
qed

lemma flags_load:
  assumes "newProcess z"
  shows "flags b (providerLoad h C z) = None \<or> flags b (providerLoad h C z) = Some (False, False)"
proof -
  have "flags b (fold (providerLoadNode h C) as z) = None \<or> flags b (fold (providerLoadNode h C) as z) = Some (False, False)"
    if "flags b z = None \<or> flags b z = Some (False, False)" for as z
    using that by (induction as arbitrary: z) (simp_all add: flags_loadNode del: flags_None)
  moreover have "flags b (onStore g z) = None" for g using assms by (simp add: newProcess_def getNode_def)
  ultimately show ?thesis by (auto simp: providerLoad_def split: prod.split)
qed

lemma discoveryStep_effect:
  assumes "discoveryStep J b (now, dd, e) (now', dd', e')"
  shows "cap_effect P [] e e' \<and> store e' = store e"
proof -
  have world: "cap_effect P [] e e1 \<and> store e1 = store e" if "onWorld g e = (v, e1)" for g :: "('r, 'a) call" and v e1
    using effect_onWorld [OF that cap_effect_refl] that by (auto simp: onWorld_def split: prod.splits)
  have en: "cap_effect P [] e e' \<and> store e' = store e" if "Enable J now du d e = (r, d', e')" for d du d' r
  proof -
    obtain v e1 where w: "onWorld (PermitJoin J True) e = (v, e1)" by (cases "onWorld (PermitJoin J True) e")
    have "e' = e1 \<or> e' = sendEvent (EvDeviceDiscoveryEnabled du) e1"
      using that w by (cases v) (auto simp: Enable_def Let_def)
    with world [OF w] show ?thesis by (auto intro: effect_sendEvent)
  qed
  have di: "cap_effect P [] e e' \<and> store e' = store e" if "Disable J d e = (r, d', e')" for d d' r
  proof -
    obtain v e1 where w: "onWorld (DenyJoin J) e = (v, e1)" by (cases "onWorld (DenyJoin J) e")
    have "e' = e1 \<or> e' = sendEvent EvDeviceDiscoveryDisabled e1"
      using that w by (cases v) (auto simp: Disable_def)
    with world [OF w] show ?thesis by (auto intro: effect_sendEvent)
  qed
  show ?thesis
    using assms
  proof (cases rule: discoveryStep.cases)
    case (fire t due)
    then obtain r where "Disable J (dd\<lparr>timers := filter (\<lambda>(t', _). t' \<noteq> t) (timers dd)\<rparr>) e = (r, dd', e')"
      unfolding discoveryTimerFires_def by (metis prod.collapse)
    then show ?thesis by (rule di)
  qed (use en di in auto)
qed

text \<open>The goroutines and the table agree: a node's semaphore is held exactly by the enumeration
  that runs for it, its state flag is set exactly once that has begun, and what its phase
  relies on holds.\<close>

definition goroutines_ok ::
  "('s, 'x) zdaInterface \<Rightarrow> ('s, 'x) network \<Rightarrow> (Input \<Rightarrow> 'e + Output) \<Rightarrow> goroutines
    \<Rightarrow> (implementation, 's, 'x) ZDA \<Rightarrow> bool" where
  "goroutines_ok I N f R z \<longleftrightarrow>
     (\<forall>a. case R a of
        None \<Rightarrow> flags a z = None \<or> flags a z = Some (False, False)
      | Some ph \<Rightarrow> flags a z = flags_in (Some ph) \<and> phase_ok (Implementations I) N (zcl I) f a ph z)"

lemma goroutines_okI:
  assumes "\<And>a. R a = None \<Longrightarrow> flags a z = None \<or> flags a z = Some (False, False)"
    and "\<And>a ph. R a = Some ph \<Longrightarrow> flags a z = flags_in (Some ph) \<and> phase_ok (Implementations I) N (zcl I) f a ph z"
  shows "goroutines_ok I N f R z"
  unfolding goroutines_ok_def using assms by (simp split: option.split)

lemma goroutines_okD:
  assumes "goroutines_ok I N f R z"
  shows "R a = None \<Longrightarrow> flags a z = None \<or> flags a z = Some (False, False)"
    "R a = Some ph \<Longrightarrow> flags a z = flags_in (Some ph)"
    "R a = Some ph \<Longrightarrow> phase_ok (Implementations I) N (zcl I) f a ph z"
  using assms [unfolded goroutines_ok_def, rule_format, of a] by simp_all

text \<open>One goroutine, that of \<open>a\<close>, has changed; the others have not noticed.\<close>

lemma goroutines_ok_step:
  assumes "goroutines_ok I N f R z" "\<And>b. b \<noteq> a \<Longrightarrow> R' b = R b"
    and "\<And>b. b \<noteq> a \<Longrightarrow> node_kept (Implementations I) b z z'"
    and "R' a = None \<Longrightarrow> flags a z' = None \<or> flags a z' = Some (False, False)"
    and "\<And>ph. R' a = Some ph \<Longrightarrow> flags a z' = flags_in (Some ph) \<and> phase_ok (Implementations I) N (zcl I) f a ph z'"
  shows "goroutines_ok I N f R' z'"
proof (rule goroutines_okI)
  fix b
  assume "R' b = None"
  then show "flags b z' = None \<or> flags b z' = Some (False, False)"
    using assms(2,3) [of b] assms(4) goroutines_okD(1) [OF assms(1), of b]
    by (cases "b = a") (simp_all add: node_kept_def del: flags_None)
next
  fix b ph
  assume ph: "R' b = Some ph"
  show "flags b z' = flags_in (Some ph) \<and> phase_ok (Implementations I) N (zcl I) f b ph z'"
  proof (cases "b = a")
    case False
    with ph assms(2) have "R b = Some ph" by simp
    note ok = goroutines_okD(2,3) [OF assms(1) this] and kept = assms(3) [OF False]
    from phase_ok_kept [OF ok(2) kept] ok(1) kept show ?thesis by (simp add: node_kept_def)
  qed (use ph assms(5) in simp)
qed

lemma goroutines_ok_kept:
  assumes "goroutines_ok I N f R z" "\<And>b. node_kept (Implementations I) b z z'"
  shows "goroutines_ok I N f R z'"
proof (rule goroutines_okI)
  fix b
  assume "R b = None"
  with goroutines_okD(1) [OF assms(1)] assms(2) [of b]
  show "flags b z' = None \<or> flags b z' = Some (False, False)" by (simp add: node_kept_def del: flags_None)
next
  fix b ph
  assume ph: "R b = Some ph"
  from phase_ok_kept [OF goroutines_okD(3) [OF assms(1) ph] assms(2)] goroutines_okD(2) [OF assms(1) ph] assms(2) [of b]
  show "flags b z' = flags_in (Some ph) \<and> phase_ok (Implementations I) N (zcl I) f b ph z'"
    by (simp add: node_kept_def)
qed

lemma same_table_kept:
  assumes "same_table z z'" "\<And>b. flags b z' = flags b z"
  shows "node_kept (Implementations I) a z z'"
  using assms by (simp add: same_table_def node_kept_def Implementations_def)

lemma node_kept_env [intro]: "node_kept C a z (z\<lparr>env := e\<rparr>)"
  by (rule node_keptI) simp_all

context zda begin

lemma sys_ok_first:
  assumes "newProcess z" "emptyStore (persist h) (store (env z))"
  shows "sys_ok h (Implementations I) z"
proof -
  have none: "getNode a z = None" "getDevice d z = None" for a d
    using assms(1) by (simp_all add: newProcess_def getNode_def getDevice_def)
  have keys: "p_keys (persist h) q (store (env z)) = []" "p_get (persist h) q j (store (env z)) = None" for q j
    using assms(2) by (simp_all add: emptyStore_def)
  have "mirrors h (Implementations I) z"
    using assms(1)
    by (intro mirrorsI) (simp_all add: none keys newProcess_def table_wf_def getNode_def [of _ z] canonical_def
      clean_def nodeKeys_def deviceKeys_def)
  moreover have "announced z"
    using assms(1) none by (simp add: announced_def newProcess_def replay_def tableView_def fun_eq_iff)
  moreover have "unique_ids a z" "subIds a z = {}" for a
    using none by (simp_all add: unique_ids_def subIds_def)
  ultimately show ?thesis using none by (simp add: sys_ok_def gateway_ok_def sequences_full_def)
qed

lemma sys_ok_effect:
  assumes "sys_ok h (Implementations I) z" "cap_effect (persist h) [] (env z) e" "store e = store (env z)"
  shows "sys_ok h (Implementations I) (z\<lparr>env := e\<rparr>)"
proof (rule sys_ok_cong [OF assms(1)])
  note ok = gateway_okD [OF sys_okD(1) [OF assms(1)]]
  have "mirrors h (Implementations I) (z\<lparr>env := e\<rparr>)" using ok(1) assms(3) by (simp add: mirrors_def)
  moreover have "announced (z\<lparr>env := e\<rparr>)"
    by (rule announced_effect [of "persist h" "[]" z]) (use assms(2) ok(2) in simp_all)
  moreover have "sequences_full (z\<lparr>env := e\<rparr>)"
    by (rule sequences_full_effect [of "persist h" "[]" z]) (use assms(2) ok(3) in simp_all)
  ultimately show "gateway_ok h (Implementations I) (z\<lparr>env := e\<rparr>)" by (simp add: gateway_ok_def)
qed simp

text \<open>Each kind of step keeps the invariant of the table and the agreement of the goroutines.\<close>

lemma join_keeps:
  fixes a :: IEEEAddress
  assumes "sys_ok h (Implementations I) z" "goroutines_ok I N f R z"
  defines "z' \<equiv> receiveNodeJoinEvent h a z"
  shows "sys_ok h (Implementations I) z' \<and>
    goroutines_ok I N f (if getNode a z = None then R(a \<mapsto> EnumStart) else R) z'"
proof -
  note j = join_ok [OF assms(1), of a, folded z'_def]
  show ?thesis
  proof (cases "getNode a z")
    case None
    have "goroutines_ok I N f (R(a \<mapsto> EnumStart)) z'"
    proof (rule goroutines_ok_step [OF assms(2)])
      fix b
      assume "b \<noteq> a"
      with j None show "node_kept (Implementations I) b z z'"
        by (intro node_keptI) (auto simp: z'_def flags_join)
    qed (use None in \<open>auto simp: z'_def flags_join flags_in_def\<close>)
    with j None show ?thesis by simp
  next
    case (Some n)
    then have "z' = z" using j by blast
    with assms(1,2) Some show ?thesis by simp
  qed
qed

lemma leave_keeps:
  assumes "sys_ok h (Implementations I) z" "goroutines_ok I N f R z" "R a = None"
  defines "z' \<equiv> receiveNodeLeaveEvent h (Implementations I) a z"
  shows "sys_ok h (Implementations I) z' \<and> goroutines_ok I N f R z'"
proof -
  note l = leave_ok [OF assms(1), of a, folded z'_def]
  have "goroutines_ok I N f R z'"
  proof (rule goroutines_ok_step [OF assms(2)])
    fix b
    assume "b \<noteq> a"
    with l show "node_kept (Implementations I) b z z'"
      by (intro node_keptI) (auto simp: z'_def flags_leave)
  qed (use assms(3) in \<open>auto simp: z'_def flags_leave\<close>)
  with l show ?thesis by simp
qed

lemma provider_keeps:
  assumes "sys_ok h (Implementations I) z" "goroutines_ok I N f R z" "\<forall>a. ev = NodeLeaveEvent a \<longrightarrow> R a = None"
    and "handleEvent h (Implementations I) (receiveNodeIncomingMessageEvent I parse) ev z = Returns z'"
  shows "sys_ok h (Implementations I) z' \<and> goroutines_ok I N f (goroutinesAfter ev z R) z'"
proof (cases ev)
  case (NodeJoinEvent a)
  with join_keeps [OF assms(1,2), of a] assms(4) show ?thesis by (simp add: handleEvent_def goroutinesAfter_def)
next
  case (NodeLeaveEvent a)
  with leave_keeps [OF assms(1,2), of a] assms(3,4) show ?thesis by (simp add: handleEvent_def goroutinesAfter_def)
next
  case (NodeIncomingMessageEvent m)
  with assms(4) have m: "receiveNodeIncomingMessageEvent I parse m z = Returns z'" by (simp add: handleEvent_def)
  have "node_kept (Implementations I) b z z'" for b
    by (rule same_table_kept [OF message_ok(2) [OF assms(1) m] flags_message [OF m]])
  from goroutines_ok_kept [OF assms(2) this] message_ok(1) [OF assms(1) m] NodeIncomingMessageEvent
  show ?thesis by (simp add: goroutinesAfter_def)
qed (use assms in \<open>simp add: handleEvent_def goroutinesAfter_def\<close>)

lemma request_keeps:
  assumes "sys_ok h (Implementations I) z" "goroutines_ok I N f R z" "startEnumeration a z = (err, z')"
  shows "sys_ok h (Implementations I) z' \<and> goroutines_ok I N f (if err = None then R(a \<mapsto> EnumStart) else R) z'"
proof -
  note fl = flags_startEnumeration [OF assms(3)]
  have z': "z' = snd (startEnumeration a z)" using assms(3) by simp
  have dev: "getDevice d z' = getDevice d z" for d by (simp add: z')
  have "goroutines_ok I N f (if err = None then R(a \<mapsto> EnumStart) else R) z'"
  proof (cases err)
    case None
    show ?thesis
    proof (rule goroutines_ok_step [OF assms(2), where a = a])
      show "node_kept (Implementations I) b z z'" if "b \<noteq> a" for b
        using that fl [of b] by (intro node_keptI) (simp_all add: dev)
      have "flags a z = Some (False, False)"
        using fl None goroutines_okD(1,2) [OF assms(2), of a]
        by (cases "R a") (auto simp: flags_in_def simp del: flags_None)
      then show "flags a z' = flags_in (Some ph) \<and> phase_ok (Implementations I) N (zcl I) f a ph z'"
        if "(if err = None then R(a \<mapsto> EnumStart) else R) a = Some ph" for ph
        using that None fl [of a] by (simp add: flags_in_def)
    qed (use None in simp_all)
  next
    case (Some e)
    have "node_kept (Implementations I) b z z'" for b
      using fl [of b] Some by (intro node_keptI) (simp_all add: dev)
    from goroutines_ok_kept [OF assms(2) this] Some show ?thesis by simp
  qed
  with assms(1) z' show ?thesis by (simp add: sys_ok_startEnumeration)
qed

lemma enumeration_keeps:
  assumes "sys_ok h (Implementations I) z" "goroutines_ok I N f R z" "network_ok N" "network_endpoints N"
    and "R a = Some ph" "enumStep h (Implementations I) N (zcl I) f a ph z = Returns (nx, z')"
  shows "sys_ok h (Implementations I) z' \<and> goroutines_ok I N f (R(a := nx)) z'"
proof -
  note step = enumStep_ok [OF assms(1,3,4) goroutines_okD(2,3) [OF assms(2,5)] assms(6), unfolded step_result_def]
  have "goroutines_ok I N f (R(a := nx)) z'"
  proof (rule goroutines_ok_step [OF assms(2), where a = a])
    show "node_kept (Implementations I) b z z'" if "b \<noteq> a" for b
      using that step by (intro node_keptI) simp_all
    show "flags a z' = None \<or> flags a z' = Some (False, False)" if "(R(a := nx)) a = None"
      using that step by (simp add: flags_in_def)
    show "flags a z' = flags_in (Some ph) \<and> phase_ok (Implementations I) N (zcl I) f a ph z'"
      if "(R(a := nx)) a = Some ph" for ph
      using that step by simp
  qed simp
  with step show ?thesis by blast
qed

lemma capability_keeps:
  assumes "sys_ok h (Implementations I) z" "goroutines_ok I N f R z" "map_of (deviceCaps d z) cf = Some c"
    "implAct I c (env z) c' e'"
  shows "sys_ok h (Implementations I) (writeBack d cf c' (z\<lparr>env := e'\<rparr>)) \<and>
    goroutines_ok I N f R (writeBack d cf c' (z\<lparr>env := e'\<rparr>))"
proof -
  note k = implAct_contract [OF assms(4) sections_ok]
  have act: "sys_ok h (Implementations I) (writeBack d cf c' (z\<lparr>env := e'\<rparr>)) \<and>
      same_table z (writeBack d cf c' (z\<lparr>env := e'\<rparr>))"
    using assms(1,3) k by (intro conjI capability_acts) (simp_all add: same_store)
  have "node_kept (Implementations I) b z (writeBack d cf c' (z\<lparr>env := e'\<rparr>))" for b
    by (rule same_table_kept [OF act [THEN conjunct2]]) simp
  from goroutines_ok_kept [OF assms(2) this] act show ?thesis by simp
qed

lemma effect_keeps:
  assumes "sys_ok h (Implementations I) z" "goroutines_ok I N f R z"
    and "cap_effect (persist h) [] (env z) e" "store e = store (env z)"
  shows "sys_ok h (Implementations I) (z\<lparr>env := e\<rparr>) \<and> goroutines_ok I N f R (z\<lparr>env := e\<rparr>)"
  using sys_ok_effect [OF assms(1,3,4)] goroutines_ok_kept [OF assms(2) node_kept_env] by blast

lemma reachable_invariant:
  assumes "reachable h I N f parse R z" "network_ok N" "network_endpoints N"
  shows "sys_ok h (Implementations I) z \<and> goroutines_ok I N f R z"
  using assms
proof (induction rule: reachable.induct)
  case (first z)
  then have "goroutines_ok I N f (\<lambda>_. None) z" by (intro goroutines_okI) (simp_all add: newProcess_def getNode_def)
  with first show ?case by (simp add: sys_ok_first)
next
  case (restart R z0 z)
  have "goroutines_ok I N f (\<lambda>_. None) (providerLoad h (Implementations I) z)"
    using flags_load [OF restart(2)] by (intro goroutines_okI) simp_all
  moreover have "sys_ok h (Implementations I) (providerLoad h (Implementations I) z)"
    using restart by (intro restart_ok(1)) (simp_all add: newProcess_def)
  ultimately show ?case by simp
next
  case (discovery R z J b now dd now' dd' e')
  from discoveryStep_effect [OF discovery(2), of "persist h"] discovery show ?case by (intro effect_keeps) simp_all
next
  case (outside R z x)
  then show ?case by (intro effect_keeps) (simp_all add: quiet_effect quiet_def)
next
  case (provider R z ev z')
  then show ?case using provider_keeps [of z N f R ev parse z'] by blast
next
  case (request R z a err z')
  then show ?case using request_keeps [of z N f R a err z'] by blast
next
  case (enumeration R z a ph nx z')
  then show ?case using enumeration_keeps [of z N f R a ph nx z'] by blast
next
  case (capability R z d cf c c' e')
  then show ?case using capability_keeps [of z N f R d cf c c' e'] by blast
qed

text \<open>An enumeration may run to its end without interruption.\<close>

lemma reachable_enumRun:
  "reachable h I N f parse R z \<Longrightarrow> R a = Some ph \<Longrightarrow> network_ok N \<Longrightarrow> network_endpoints N \<Longrightarrow>
     enumRun h (Implementations I) N (zcl I) f a ph z = Returns z' \<Longrightarrow>
     reachable h I N f parse (R(a := None)) z' \<and> flags a z' = Some (False, False)"
proof (induction ph arbitrary: R z rule: wf_induct_rule [OF wf_measures [of "[stage, remaining]"]])
  case (1 ph)
  note ok = reachable_invariant [OF 1(2,4,5), THEN conjunct1] reachable_invariant [OF 1(2,4,5), THEN conjunct2]
  obtain nx z1 where step: "enumStep h (Implementations I) N (zcl I) f a ph z = Returns (nx, z1)"
    using 1(6) by (subst (asm) enumRun.simps) (auto split: outcome.splits)
  have r: "reachable h I N f parse (R(a := nx)) z1" by (rule reachable.enumeration [OF 1(2,3) step])
  show ?case
  proof (cases nx)
    case None
    have "flags a z1 = flags_in None"
      using enumStep_ok [OF ok(1) 1(4,5) goroutines_okD(2,3) [OF ok(2) 1(3)] step] None by (simp add: step_result_def)
    then have "flags a z1 = Some (False, False)" by (simp add: flags_in_def)
    moreover have "z' = z1" using 1(6) step None by (subst (asm) enumRun.simps) simp
    ultimately show ?thesis using r None by blast
  next
    case (Some ph')
    with 1(6) step have "enumRun h (Implementations I) N (zcl I) f a ph' z1 = Returns z'"
      by (subst (asm) enumRun.simps) simp
    from 1(1) [OF enumStep_decreases [OF step [unfolded Some]] r [unfolded Some] _ 1(4,5) this]
    show ?thesis by (simp only: fun_upd_upd fun_upd_same simp_thms)
  qed
qed

lemma reachable_ok:
  "reachable h I N f parse R z \<Longrightarrow> network_ok N \<Longrightarrow> network_endpoints N \<Longrightarrow> sys_ok h (Implementations I) z"
  using reachable_invariant by blast

end

end
