(* ===== verification/Gateway.thy ===== *)
theory Gateway
  imports System
begin

text \<open>
  \<open>gateway.go\<close>, \<open>device_removal.go\<close> and \<open>da_events.go\<close>: the gateway around the table. It makes
  the device that stands for itself, starts and stops the provider loop, lists devices and
  capabilities, asks the provider to remove nodes, and hands out the events.
\<close>

section \<open>The provider\<close>

text \<open>What the gateway itself calls of the Zigbee provider.\<close>

record 'x provider =
  AdapterNode :: IEEEAddress
  RegisterAdapterEndpoint :: "Endpoint \<Rightarrow> 16 word \<Rightarrow> (unit, 'x) call"
  Joining :: "'x networkJoining"
  RequestNodeLeave :: "IEEEAddress \<Rightarrow> (unit, 'x) call"
  ForceNodeLeave :: "IEEEAddress \<Rightarrow> (unit, 'x) call"

text \<open>\<open>zigbee.ProfileHomeAutomation\<close>.\<close>

definition ProfileHomeAutomation :: "16 word" where
  "ProfileHomeAutomation = 0x0104"

section \<open>State\<close>

text \<open>The gateway's own device. Before \<open>Start\<close> it has no identifier, and its discovery no
  network to open.\<close>

record 'x gatewayDevice =
  deviceIdentifier :: "address option"
  networkJoining :: "'x networkJoining option"
  dd :: deviceDiscovery

text \<open>\<open>cancelled\<close> is the gateway's context, \<open>loops\<close> counts the goroutines of \<open>providerLoop\<close>
  that were started.\<close>

record ('c, 's, 'x) Gateway =
  devices :: "('c, 's, 'x) ZDA"
  selfDevice :: "'x gatewayDevice"
  cancelled :: bool
  loops :: nat

definition NewGateway :: "('s, 'x) env \<Rightarrow> ('c, 's, 'x) Gateway" where
  "NewGateway e =
     \<lparr>devices = \<lparr>env = e\<lparr>events := []\<rparr>, node = []\<rparr>,
      selfDevice = \<lparr>deviceIdentifier = None, networkJoining = None, dd = newDiscovery\<rparr>,
      cancelled = False, loops = 0\<rparr>"

definition Start ::
  "'x provider \<Rightarrow> ('c, 's, 'x) Gateway \<Rightarrow> goerr option \<times> ('c, 's, 'x) Gateway" where
  "Start P g =
     (let g1 = g\<lparr>selfDevice := \<lparr>deviceIdentifier = Some (addressOf (AdapterNode P) 0),
                                networkJoining = Some (Joining P), dd = newDiscovery\<rparr>\<rparr>
      in case onWorld (RegisterAdapterEndpoint P DefaultGatewayHomeAutomationEndpoint ProfileHomeAutomation)
                (env (devices g1)) of
           (Inl err, e) \<Rightarrow> (Some err, g1\<lparr>devices := (devices g1)\<lparr>env := e\<rparr>\<rparr>)
         | (Inr _, e) \<Rightarrow> (None, g1\<lparr>devices := (devices g1)\<lparr>env := e\<rparr>, loops := Suc (loops g1)\<rparr>))"

definition Stop :: "('c, 's, 'x) Gateway \<Rightarrow> goerr option \<times> ('c, 's, 'x) Gateway" where
  "Stop g =
     (None, g\<lparr>selfDevice := (selfDevice g)\<lparr>dd := discoveryStop (dd (selfDevice g))\<rparr>, cancelled := True\<rparr>)"

text \<open>The goroutine \<open>Start\<close> starts: \<open>providerLoad\<close>, then the loop, over what \<open>ReadEvent\<close> of the
  provider returns.\<close>

definition gatewayLoop ::
  "'s host \<Rightarrow> ('c, 's, 'x) zdaCapability \<Rightarrow> ('m \<Rightarrow> ('c, 's, 'x) ZDA \<Rightarrow> ('c, 's, 'x) ZDA outcome)
    \<Rightarrow> (goerr + 'm providerEvent) list \<Rightarrow> ('c, 's, 'x) ZDA \<Rightarrow> (bool \<times> ('c, 's, 'x) ZDA) outcome" where
  "gatewayLoop h C process rs z = providerLoop h C process rs (providerLoad h C z)"

section \<open>Devices and capabilities\<close>

text \<open>The keys of a map the code fills with the two attachments and the values of the factory's
  mapping; Go gives them in any order.\<close>

definition gatewayCapabilities :: "Capability list" where
  "gatewayCapabilities = remdups ([DeviceRemovalFlag, EnumerateDeviceFlag] @ map snd Mapping)"

definition selfCapabilities :: "Capability list" where
  "selfCapabilities = [DeviceDiscoveryFlag]"

definition selfCapability :: "'x gatewayDevice \<Rightarrow> Capability \<Rightarrow> deviceDiscovery option" where
  "selfCapability g cf = (case cf of DeviceDiscoveryFlag \<Rightarrow> Some (dd g) | _ \<Rightarrow> None)"

datatype gatewayListing = Self | Listed address

definition Devices :: "('c, 's, 'x) Gateway \<Rightarrow> gatewayListing list" where
  "Devices g = Self # map Listed (getDevices (devices g))"

text \<open>What \<open>Capabilities()\<close> of a listed device returns.\<close>

definition listedCapabilities :: "('c, 's, 'x) Gateway \<Rightarrow> gatewayListing \<Rightarrow> Capability list" where
  "listedCapabilities g l =
     (case l of
        Self \<Rightarrow> selfCapabilities
      | Listed d \<Rightarrow> (case getDevice d (devices g) of None \<Rightarrow> [] | Some dev \<Rightarrow> deviceCapabilities dev))"

section \<open>Removal\<close>

datatype RemovalType = Request | Force | OtherRemoval nat

text \<open>The capability only asks the provider; the table changes when the leave is reported.\<close>

definition Remove ::
  "'x provider \<Rightarrow> address \<Rightarrow> RemovalType \<Rightarrow> ('s, 'x) env \<Rightarrow> goerr option \<times> ('s, 'x) env" where
  "Remove P d removalType e =
     (case removalType of
        Request \<Rightarrow> (case onWorld (RequestNodeLeave P (IEEEAddress d)) e of
            (Inl err, e') \<Rightarrow> (Some err, e') | (Inr _, e') \<Rightarrow> (None, e'))
      | Force \<Rightarrow> (case onWorld (ForceNodeLeave P (IEEEAddress d)) e of
            (Inl err, e') \<Rightarrow> (Some err, e') | (Inr _, e') \<Rightarrow> (None, e'))
      | OtherRemoval _ \<Rightarrow> (Some (Err ''remove device called with unknown removal type''), e))"

section \<open>The event channel\<close>

text \<open>The channel has room for one event. \<open>z.events <- e\<close> waits in \<open>senders\<close> when it is full;
  the runtime serves the waiting in their order. \<open>receiver\<close> is the select of \<open>ReadEvent\<close>, which
  may take either branch when both are ready; \<open>preferEvent\<close> says which.\<close>

record channel =
  buffer :: "event list"
  senders :: "event list"

definition newChannel :: channel where
  "newChannel = \<lparr>buffer = [], senders = []\<rparr>"

definition channelSend :: "event \<Rightarrow> channel \<Rightarrow> channel" where
  "channelSend ev ch =
     (if buffer ch = [] then ch\<lparr>buffer := [ev]\<rparr> else ch\<lparr>senders := senders ch @ [ev]\<rparr>)"

definition channelTake :: "channel \<Rightarrow> (event \<times> channel) option" where
  "channelTake ch =
     (case buffer ch of
        [] \<Rightarrow> None
      | ev # _ \<Rightarrow> Some (ev, \<lparr>buffer = take 1 (senders ch), senders = drop 1 (senders ch)\<rparr>))"

text \<open>\<open>None\<close> as the result: nothing is ready and the call waits.\<close>

definition ReadEvent :: "bool \<Rightarrow> bool \<Rightarrow> channel \<Rightarrow> (goerr + event) option \<times> channel" where
  "ReadEvent preferEvent expired ch =
     (case channelTake ch of
        None \<Rightarrow> (if expired then (Some (Inl DeadlineExceeded), ch) else (None, ch))
      | Some (ev, ch') \<Rightarrow>
          (if expired \<and> \<not> preferEvent then (Some (Inl DeadlineExceeded), ch) else (Some (Inr ev), ch')))"

end
