(* ===== verification/System_Properties.thy ===== *)
theory System_Properties
  imports System
begin

text \<open>
  What the invariant of the system says of the program, for any host, interface, network and
  rules that behave as documented, in any reachable state.
\<close>

section \<open>A concrete system\<close>

text \<open>For the witnesses: the in-memory store, a network of routers with one endpoint, rules
  that put out nothing. A node has joined.\<close>

abbreviation exampleRules :: "Input \<Rightarrow> unit + Output" where
  "exampleRules \<equiv> (\<lambda>_. Inr \<lparr>OutputCapabilities = []\<rparr>)"

abbreviation exampleParse :: "unit \<Rightarrow> goerr + zclMessage" where
  "exampleParse \<equiv> (\<lambda>_. Inl (Err ''no message''))"

abbreviation exampleReachable :: "goroutines \<Rightarrow> (implementation, memory, unit) ZDA \<Rightarrow> bool" where
  "exampleReachable \<equiv> reachable memoryHost exampleInterface exampleNetwork exampleRules exampleParse"

abbreviation exampleStart :: "(implementation, memory, unit) ZDA" where
  "exampleStart \<equiv> \<lparr>env = exampleEnv, node = []\<rparr>"

definition exampleJoined :: "(implementation, memory, unit) ZDA" where
  "exampleJoined = receiveNodeJoinEvent memoryHost 0xABCD exampleStart"

lemma exampleNetwork_endpoints: "network_endpoints exampleNetwork"
  by (simp add: network_endpoints_def exampleNetwork_def)

lemma exampleStart_reachable: "exampleReachable (\<lambda>_. None) exampleStart"
  by (rule reachable.first)
     (simp_all add: newProcess_def emptyStore_def exampleEnv_def memoryHost_def memory_store_def memory_keys_def
       memory_new_def)

lemma exampleJoined_reachable: "exampleReachable [0xABCD \<mapsto> EnumStart] exampleJoined"
proof -
  have "getNode 0xABCD exampleStart = None" by (simp add: getNode_def)
  then have R: "goroutinesAfter (NodeJoinEvent 0xABCD :: unit providerEvent) exampleStart (\<lambda>_. None) = [0xABCD \<mapsto> EnumStart]"
    by (simp only: goroutinesAfter_def providerEvent.case simp_thms if_True)
  show ?thesis
    unfolding R [symmetric]
    by (rule reachable.provider [OF exampleStart_reachable]) (simp_all add: handleEvent_def exampleJoined_def)
qed

lemma exampleJoined_table:
  "getDevice d exampleJoined = (if d = addressOf 0xABCD 0 then Some newDevice else None)"
  "\<exists>n. getNode 0xABCD exampleJoined = Some n \<and> enumerationSem n"
  "b \<noteq> 0xABCD \<Longrightarrow> getNode b exampleJoined = None"
proof -
  have zda: "zda memoryHost exampleInterface" by (rule zda.intro [OF memoryHost_ok exampleInterface_ok(2)])
  have "sys_ok memoryHost (Implementations exampleInterface) exampleStart"
    by (rule zda.reachable_ok [OF zda exampleStart_reachable exampleNetwork_ok exampleNetwork_endpoints])
  from gateway.join_ok [OF zda_gateway [OF zda] this, of "0xABCD"]
  have j: "\<forall>d. getDevice d exampleJoined = (if d = addressOf 0xABCD 0 then Some newDevice else getDevice d exampleStart)"
    "\<exists>n. getNode 0xABCD exampleJoined = Some n \<and> enumerationSem n"
    "\<forall>b. b \<noteq> 0xABCD \<longrightarrow> getNode b exampleJoined = None"
    by (auto simp: exampleJoined_def getNode_def [of _ exampleStart])
  then show "getDevice d exampleJoined = (if d = addressOf 0xABCD 0 then Some newDevice else None)"
    by (simp add: getDevice_def [of _ exampleStart] getNode_def [of _ exampleStart])
  show "\<exists>n. getNode 0xABCD exampleJoined = Some n \<and> enumerationSem n" by (rule j(2))
  show "b \<noteq> 0xABCD \<Longrightarrow> getNode b exampleJoined = None" using j(3) by simp
qed

lemma exampleNetwork_answers: "fst (interrogateNode exampleNetwork zclStandard a e) \<noteq> Panics"
proof -
  have same: "x\<lparr>world := ()\<rparr> = x" for x :: "(memory, unit) env" by simp
  obtain seq e' where seq: "takeSequence a e = (seq, e')" by (cases "takeSequence a e")
  show ?thesis
    by (simp add: interrogateNode_def exampleNetwork_def onWorld_def eval_nat_numeral
        readBasic_def same seq zclStandard_def setProductData_def exampleDetails_def)
qed

lemma exampleJoined_enumerates:
  "\<exists>z'. enumerate memoryHost (Implementations exampleInterface) exampleNetwork (zcl exampleInterface) exampleRules
      0xABCD exampleJoined = Returns z'"
proof -
  have "enumerate memoryHost (Implementations exampleInterface) exampleNetwork (zcl exampleInterface) exampleRules
      0xABCD exampleJoined \<noteq> Panics"
    using exampleNetwork_answers
    by (auto simp: enumerate_def enumerateBody_def exampleInterface_def Let_def
        split: outcome.splits prod.splits sum.splits) (metis fst_conv)
  then show ?thesis
    by (cases "enumerate memoryHost (Implementations exampleInterface) exampleNetwork (zcl exampleInterface) exampleRules
      0xABCD exampleJoined") auto
qed

section \<open>The store\<close>



section \<open>The events\<close>

text \<open>C4: a consumer that follows the events of the channel from the start of the process knows
  the table: the devices, and of each the capabilities \<open>Capabilities()\<close> would list.\<close>

theorem events_tell_table:
  assumes "host_ok h" "sections I = persist h" "network_ok N" "network_endpoints N" "reachable h I N f parse R z"
  shows "replay (events (env z)) d = map_option (\<lambda>dev. set (deviceCapabilities dev)) (getDevice d z)"
  using zda.reachable_ok [OF zda.intro [OF assms(1,2)] assms(5,3,4)]
  by (auto simp: announced_def tableView_def fun_eq_iff dest!: sys_okD(1) dest: gateway_okD(2))

theorem events_tell_table_witness:
  "replay (events (env exampleJoined)) (addressOf 0xABCD 0) = Some {EnumerateDeviceFlag, DeviceRemovalFlag}"
proof -
  have "replay (events (env exampleJoined)) (addressOf 0xABCD 0) =
      map_option (\<lambda>dev. set (deviceCapabilities dev)) (getDevice (addressOf 0xABCD 0) exampleJoined)"
    by (rule events_tell_table [OF memoryHost_ok exampleInterface_ok(2) exampleNetwork_ok exampleNetwork_endpoints
      exampleJoined_reachable])
  then show ?thesis by (simp add: exampleJoined_table newDevice_def deviceCapabilities_def)
qed

section \<open>Identities and transaction numbers\<close>



text \<open>C9: the channel of transaction sequence numbers of a known node always holds the 255
  numbers 0 to 254, so \<open>transmissionLookup\<close>, which takes one, never waits.\<close>

theorem transmissionLookup_never_waits:
  assumes "host_ok h" "sections I = persist h" "network_ok N" "network_endpoints N" "reachable h I N f parse R z"
    and "getDevice d z \<noteq> None"
  shows "\<exists>seq rest e'.
    nextTransactionSequence (sequence (nodeTx (env z) (IEEEAddress d))) = Some (seq, rest) \<and>
    mset rest = mset makeTransactionSequence \<and> seq \<noteq> 255 \<and>
    transmissionLookup (Some d) (env z) =
      ((IEEEAddress d, DefaultGatewayHomeAutomationEndpoint, useAPSAck (nodeTx (env z) (IEEEAddress d)), seq), e')"
proof -
  let ?q = "sequence (nodeTx (env z) (IEEEAddress d))"
  have "sys_ok h (Implementations I) z" by (rule zda.reachable_ok [OF zda.intro [OF assms(1,2)] assms(5,3,4)])
  then have full: "mset ?q = mset makeTransactionSequence"
    using assms(6) by (auto simp: sequences_full_def getDevice_def dest!: sys_okD(1) gateway_okD(3) split: option.splits)
  then have "?q \<noteq> []" using mset_eq_length [OF full] by auto
  then obtain seq rest where q: "?q = seq # rest" by (cases ?q) auto
  have "255 \<notin> set (makeTransactionSequence :: 8 word list)"
    by (auto simp: makeTransactionSequence_def word_unat_eq_iff unsigned_of_nat take_bit_eq_mod)
  then have "255 \<notin> set ?q" using mset_eq_setD [OF full] by simp
  then have "seq \<noteq> 255" using q by auto
  moreover have "mset (rest @ [seq]) = mset makeTransactionSequence" using full q by simp
  moreover have "\<exists>e'. transmissionLookup (Some d) (env z) =
      ((IEEEAddress d, DefaultGatewayHomeAutomationEndpoint, useAPSAck (nodeTx (env z) (IEEEAddress d)), seq), e')"
    by (simp add: transmissionLookup_def takeSequence_def q)
  ultimately show ?thesis by (simp add: q)
qed

theorem transmissionLookup_never_waits_witness:
  "\<exists>seq e'. seq \<noteq> 255 \<and> transmissionLookup (Some (addressOf 0xABCD 0)) (env exampleJoined) =
     ((0xABCD, DefaultGatewayHomeAutomationEndpoint, useAPSAck (nodeTx (env exampleJoined) 0xABCD), seq), e')"
  using transmissionLookup_never_waits [OF memoryHost_ok exampleInterface_ok(2) exampleNetwork_ok
      exampleNetwork_endpoints exampleJoined_reachable, of "addressOf 0xABCD 0"]
  by (simp add: exampleJoined_table) blast

section \<open>Joins and leaves\<close>

text \<open>C10: a join of a node the gateway does not know adds the node with one device, without a
  unique id, and starts its enumeration; of a node it knows it changes nothing. A leave removes
  the node and all its devices, and touches no other.\<close>

theorem join_and_leave:
  assumes "host_ok h" "sections I = persist h" "network_ok N" "network_endpoints N" "reachable h I N f parse R z"
  shows "(getNode a z \<noteq> None \<longrightarrow> receiveNodeJoinEvent h a z = z) \<and>
    (getNode a z = None \<longrightarrow>
       (\<exists>n. getNode a (receiveNodeJoinEvent h a z) = Some n \<and> enumerationSem n) \<and>
       (\<forall>d. getDevice d (receiveNodeJoinEvent h a z) =
          (if d = addressOf a 0 then Some newDevice else getDevice d z))) \<and>
    (\<forall>b. (getNode b (receiveNodeLeaveEvent h (Implementations I) a z) = None) = (b = a \<or> getNode b z = None)) \<and>
    (\<forall>d. getDevice d (receiveNodeLeaveEvent h (Implementations I) a z) =
       (if IEEEAddress d = a then None else getDevice d z))"
proof -
  note z = zda.intro [OF assms(1,2)]
  have sys: "sys_ok h (Implementations I) z" by (rule zda.reachable_ok [OF z assms(5,3,4)])
  note j = gateway.join_ok [OF zda_gateway [OF z] sys, of a] and l = gateway.leave_ok [OF zda_gateway [OF z] sys, of a]
  have "getNode a z = None \<longrightarrow> (\<exists>n. getNode a (receiveNodeJoinEvent h a z) = Some n \<and> enumerationSem n)"
    using j by blast
  with j l show ?thesis by simp
qed

theorem join_and_leave_witness:
  "getDevice (addressOf 7 0) (receiveNodeJoinEvent memoryHost 7 exampleJoined) = Some newDevice \<and>
   getDevice (addressOf 0xABCD 0) (receiveNodeLeaveEvent memoryHost (Implementations exampleInterface) 0xABCD exampleJoined) = None"
proof -
  note j = join_and_leave [OF memoryHost_ok exampleInterface_ok(2) exampleNetwork_ok exampleNetwork_endpoints
      exampleJoined_reachable]
  have "getNode 7 exampleJoined = None" by (rule exampleJoined_table(3)) simp
  with j [of 7] j [of "0xABCD"] show ?thesis by simp
qed

section \<open>Enumeration\<close>

text \<open>C3: an enumeration of any reachable state's node that does not panic gives the semaphore
  back and clears the state flag. If the node's queries and the rules succeed, the node's
  devices are then exactly one for each endpoint of the inventory, with that number as unique
  id, and each has only capabilities the rules put out for its endpoint; otherwise the table is
  as it was. Devices of other nodes keep their identities.\<close>

theorem enumeration_result:
  assumes "host_ok h" "sections I = persist h" "network_ok N" "network_endpoints N" "reachable h I N f parse R z"
    and "getNode a z = Some n" "enumerate h (Implementations I) N (zcl I) f a z = Returns z'"
  shows "map_option (\<lambda>n. (enumerationState n, enumerationSem n)) (getNode a z') = Some (False, False) \<and>
    enumerated (Implementations I) N (zcl I) f a
      (fold (\<lambda>(i, _). sendEvent (EvEnumerateDeviceStart (addressOf a i))) (device n) (env z)) z z'"
proof -
  note z = zda.intro [OF assms(1,2)]
  have sys: "sys_ok h (Implementations I) z" by (rule zda.reachable_ok [OF z assms(5,3,4)])
  from gateway.enumerate_ok(3,4) [OF zda_gateway [OF z] sys assms(6,3,4,7)] show ?thesis by blast
qed

theorem enumeration_result_witness:
  "\<exists>z'. enumerate memoryHost (Implementations exampleInterface) exampleNetwork (zcl exampleInterface) exampleRules
      0xABCD exampleJoined = Returns z' \<and>
    map_option (\<lambda>n. (enumerationState n, enumerationSem n)) (getNode 0xABCD z') = Some (False, False)"
proof -
  obtain n where n: "getNode 0xABCD exampleJoined = Some n" using exampleJoined_table(2) by blast
  obtain z' where z': "enumerate memoryHost (Implementations exampleInterface) exampleNetwork (zcl exampleInterface)
      exampleRules 0xABCD exampleJoined = Returns z'" using exampleJoined_enumerates by blast
  from enumeration_result [OF memoryHost_ok exampleInterface_ok(2) exampleNetwork_ok exampleNetwork_endpoints
      exampleJoined_reachable n z'] z'
  show ?thesis by blast
qed

section \<open>Restarts\<close>



end
