(* ===== verification/Gateway_Properties.thy ===== *)
theory Gateway_Properties
  imports Gateway System_Properties
begin

text \<open>
  What the gateway promises of its devices, capabilities, events, and of the end of its loop.
\<close>

section \<open>Listings\<close>

lemma getDevicesOnNode_IEEEAddress: "d \<in> set (getDevicesOnNode a n) \<Longrightarrow> IEEEAddress d = a"
  by (auto simp: getDevicesOnNode_def)

lemma distinct_getDevicesOnNode:
  assumes "wf_map (device n)"
  shows "distinct (getDevicesOnNode a n)"
proof -
  have "getDevicesOnNode a n = map (addressOf a) (map fst (device n))"
    by (auto simp: getDevicesOnNode_def)
  moreover have "distinct (map (addressOf a) (map fst (device n)))"
    using assms unfolding wf_map_def distinct_map [of _ "map fst (device n)"] by (auto simp: inj_on_def address_eq_iff)
  ultimately show ?thesis by simp
qed

lemma distinct_listing:
  assumes "wf_map ns" "\<And>a n. map_of ns a = Some n \<Longrightarrow> wf_map (device n)"
  shows "distinct (concat (map (\<lambda>(a, n). getDevicesOnNode a n) ns))"
  using assms
proof (induction ns)
  case (Cons x ns)
  obtain a n where x: "x = (a, n)" by (cases x)
  have ns: "wf_map ns" "a \<notin> keys ns" using Cons.prems(1) x by simp_all
  have "wf_map (device n')" if "map_of ns b = Some n'" for b n'
  proof -
    have "b \<noteq> a" using that ns(2) by (force dest: map_of_SomeD)
    with Cons.prems(2) [of b n'] that x show ?thesis by simp
  qed
  with Cons.IH ns(1) have "distinct (concat (map (\<lambda>(a, n). getDevicesOnNode a n) ns))" by blast
  moreover have "distinct (getDevicesOnNode a n)"
    using Cons.prems(2) [of a n] x by (intro distinct_getDevicesOnNode) simp
  moreover have "set (getDevicesOnNode a n) \<inter> set (concat (map (\<lambda>(a, n). getDevicesOnNode a n) ns)) = {}"
  proof (rule equals0I)
    fix d
    assume d: "d \<in> set (getDevicesOnNode a n) \<inter> set (concat (map (\<lambda>(a, n). getDevicesOnNode a n) ns))"
    then have "IEEEAddress d \<in> fst ` set ns" by (force dest: getDevicesOnNode_IEEEAddress)
    moreover have "IEEEAddress d = a" using d getDevicesOnNode_IEEEAddress by blast
    ultimately show False using ns(2) by simp
  qed
  ultimately show ?case by (simp add: x)
qed simp

lemma getDevices_table:
  assumes "table_wf z"
  shows "distinct (getDevices z)" "d \<in> set (getDevices z) \<longleftrightarrow> getDevice d z \<noteq> None"
proof -
  note wf = table_wfD [OF assms]
  show "distinct (getDevices z)"
    unfolding getDevices_def by (rule distinct_listing) (use wf in \<open>auto simp: getNode_def\<close>)
  have "d \<in> set (getDevices z) \<longleftrightarrow> (\<exists>a n i x. (a, n) \<in> set (node z) \<and> (i, x) \<in> set (device n) \<and> d = addressOf a i)"
    by (fastforce simp: getDevices_def getDevicesOnNode_def)
  also have "\<dots> \<longleftrightarrow> (\<exists>n x. getNode (IEEEAddress d) z = Some n \<and> map_of (device n) (SubIdentifier d) = Some x)"
    (is "?l \<longleftrightarrow> ?r")
  proof
    assume ?l
    then obtain a n i x where *: "(a, n) \<in> set (node z)" "(i, x) \<in> set (device n)" "d = addressOf a i" by blast
    then have n: "getNode a z = Some n" using wf(1) by (simp add: getNode_def)
    with * wf(2) show ?r by auto
  next
    assume ?r
    then obtain n x where "getNode (IEEEAddress d) z = Some n" "map_of (device n) (SubIdentifier d) = Some x" by blast
    then have "(IEEEAddress d, n) \<in> set (node z)" "(SubIdentifier d, x) \<in> set (device n)"
      by (auto simp: getNode_def dest: map_of_SomeD)
    moreover have "d = addressOf (IEEEAddress d) (SubIdentifier d)" by (simp add: address_eq_iff)
    ultimately show ?l by blast
  qed
  finally show "d \<in> set (getDevices z) \<longleftrightarrow> getDevice d z \<noteq> None"
    by (auto simp: getDevice_def split: option.splits)
qed

lemma set_gatewayCapabilities:
  "set gatewayCapabilities = {DeviceRemovalFlag, EnumerateDeviceFlag} \<union> snd ` set Mapping"
  unfolding gatewayCapabilities_def set_remdups set_append set_map by auto

text \<open>C22: in every reachable state, \<open>Devices()\<close> lists the gateway itself first and then every
  device of the table once. Each device lists distinct capabilities, all of them among the
  gateway's \<open>Capabilities()\<close>; a capability is listed exactly when \<open>Capability(..)\<close> returns
  something for it, and an implementation found under a flag is one of that flag, which the
  factory knows by its name.\<close>

theorem listings_typed:
  assumes "host_ok h" "sections I = persist h" "network_ok N" "network_endpoints N"
    "reachable h I N f parse R (devices g)"
  shows "distinct (Devices g) \<and> hd (Devices g) = Self \<and>
    (\<forall>d. Listed d \<in> set (Devices g) \<longleftrightarrow> getDevice d (devices g) \<noteq> None) \<and>
    (\<forall>d dev. getDevice d (devices g) = Some dev \<longrightarrow>
       distinct (deviceCapabilities dev) \<and> set (deviceCapabilities dev) \<subseteq> set gatewayCapabilities \<and>
       (\<forall>cf. cf \<in> set (deviceCapabilities dev) \<longleftrightarrow> deviceCapability d dev cf \<noteq> None) \<and>
       (\<forall>cf c. deviceCapability d dev cf = Some (Implementation c) \<longrightarrow>
          implCapability c = cf \<and> map_of Mapping (implName c) = Some cf))"
proof -
  have sys: "sys_ok h (Implementations I) (devices g)"
    by (rule zda.reachable_ok [OF zda.intro [OF assms(1,2)] assms(5,3,4)])
  note m = mirrorsD [OF gateway_okD(1) [OF sys_okD(1) [OF sys]]]
  note devs = getDevices_table [OF m(1)]
  have "distinct (deviceCapabilities dev) \<and> set (deviceCapabilities dev) \<subseteq> set gatewayCapabilities \<and>
       (\<forall>cf. cf \<in> set (deviceCapabilities dev) \<longleftrightarrow> deviceCapability d dev cf \<noteq> None) \<and>
       (\<forall>cf c. deviceCapability d dev cf = Some (Implementation c) \<longrightarrow>
          implCapability c = cf \<and> map_of Mapping (implName c) = Some cf)"
    if dev: "getDevice d (devices g) = Some dev" for d dev
  proof -
    have typed: "implCapability c = cf \<and> map_of Mapping (implName c) = Some cf"
      if "map_of (capabilities dev) cf = Some c" for cf c
      using m(6) [OF dev] that by (simp add: device_ok_def capability_ok_def)
    have wf: "wf_map (capabilities dev)" using table_wfD(3) [OF m(1) dev] .
    have in_mapping: "cf \<in> snd ` set Mapping" if "cf \<in> fst ` set (capabilities dev)" for cf
      using that wf typed by (force dest: map_of_SomeD)
    have no_attachment: "EnumerateDeviceFlag \<notin> snd ` set Mapping" "DeviceRemovalFlag \<notin> snd ` set Mapping"
      by (simp_all add: Mapping_def)
    have "distinct (deviceCapabilities dev)"
      using wf in_mapping no_attachment by (auto simp: deviceCapabilities_def wf_map_def)
    moreover have "set (deviceCapabilities dev) \<subseteq> set gatewayCapabilities"
      using in_mapping unfolding deviceCapabilities_def set_gatewayCapabilities by auto
    moreover have "cf \<in> set (deviceCapabilities dev) \<longleftrightarrow> deviceCapability d dev cf \<noteq> None" for cf
    proof -
      have "cf \<in> fst ` set (capabilities dev) \<longleftrightarrow> map_of (capabilities dev) cf \<noteq> None"
        by (simp add: map_of_eq_None_iff)
      then show ?thesis by (cases cf) (auto simp: deviceCapabilities_def deviceCapability_def)
    qed
    moreover have "implCapability c = cf \<and> map_of Mapping (implName c) = Some cf"
      if "deviceCapability d dev cf = Some (Implementation c)" for cf c
      using that typed by (auto simp: deviceCapability_def split: Capability.splits)
    ultimately show ?thesis by blast
  qed
  moreover have "distinct (Devices g) \<and> hd (Devices g) = Self \<and>
    (\<forall>d. Listed d \<in> set (Devices g) \<longleftrightarrow> getDevice d (devices g) \<noteq> None)"
    using devs by (auto simp: Devices_def distinct_map inj_on_def)
  ultimately show ?thesis by blast
qed

theorem listings_typed_witness:
  "Devices \<lparr>devices = exampleJoined, selfDevice = \<lparr>deviceIdentifier = None, networkJoining = (None :: unit networkJoining option),
      dd = newDiscovery\<rparr>, cancelled = False, loops = 0\<rparr> \<noteq> [] \<and>
   distinct (deviceCapabilities (newDevice :: implementation device))"
  (is "Devices ?g \<noteq> [] \<and> _")
proof -
  have r: "exampleReachable [0xABCD \<mapsto> EnumStart] (devices ?g)" using exampleJoined_reachable by simp
  have "getDevice (addressOf 0xABCD 0) (devices ?g) = Some newDevice" by (simp add: exampleJoined_table)
  with listings_typed [OF memoryHost_ok exampleInterface_ok(2) exampleNetwork_ok exampleNetwork_endpoints r]
  have "distinct (deviceCapabilities (newDevice :: implementation device))" by blast
  then show ?thesis by (simp add: Devices_def)
qed

section \<open>The loop\<close>

lemma providerLoop_total:
  assumes "\<forall>m z. Inr (NodeIncomingMessageEvent m) \<in> set rs \<longrightarrow> process m z \<noteq> Panics"
  shows "\<exists>fin z'. providerLoop h C process rs z = Returns (fin, z') \<and>
    (fin \<longleftrightarrow> (\<exists>err. Inl err \<in> set rs \<and> \<not> errorsIs err DeadlineExceeded)) \<and>
    (\<forall>post. fin \<longrightarrow> providerLoop h C process (rs @ post) z = Returns (True, z'))"
  using assms
proof (induction h C process rs z rule: providerLoop.induct)
  case (2 h C process err rs z)
  show ?case
  proof (cases "errorsIs err DeadlineExceeded")
    case True
    with 2 obtain fin z' where "providerLoop h C process rs z = Returns (fin, z')"
      "fin \<longleftrightarrow> (\<exists>err. Inl err \<in> set rs \<and> \<not> errorsIs err DeadlineExceeded)"
      "\<forall>post. fin \<longrightarrow> providerLoop h C process (rs @ post) z = Returns (True, z')" by auto
    with True show ?thesis by (intro exI [of _ fin] exI [of _ z']) auto
  qed auto
next
  case (3 h C process ev rs z)
  have "handleEvent h C process ev z \<noteq> Panics"
    using 3(2) by (cases ev) (auto simp: handleEvent_def)
  then obtain z1 where "handleEvent h C process ev z = Returns z1" by (cases "handleEvent h C process ev z") auto
  with 3 show ?case by auto
qed auto

text \<open>C34: as long as no handler panics on a message, the loop that \<open>Start\<close> begins is still
  running after any results of the provider's \<open>ReadEvent\<close> in which every error is an expired
  deadline, and has returned, whatever would come next, after the first error that is not, such
  as the cancellation that \<open>Stop\<close> brings about. So with a context whose own deadline expires it
  never returns.\<close>

theorem provider_loop_ends:
  assumes "\<forall>m z. Inr (NodeIncomingMessageEvent m) \<in> set rs \<longrightarrow> process m z \<noteq> Panics"
  shows "\<exists>fin z'. gatewayLoop h C process rs z = Returns (fin, z') \<and>
    (fin \<longleftrightarrow> (\<exists>err. Inl err \<in> set rs \<and> \<not> errorsIs err DeadlineExceeded)) \<and>
    (\<forall>post. fin \<longrightarrow> gatewayLoop h C process (rs @ post) z = Returns (True, z'))"
  using providerLoop_total [OF assms, of h C "providerLoad h C z"] by (simp add: gatewayLoop_def)

theorem provider_loop_ends_witness:
  "(\<exists>z'. gatewayLoop memoryHost (Implementations exampleInterface)
      (receiveNodeIncomingMessageEvent exampleInterface exampleParse)
      [Inr (NodeJoinEvent 7), Inr (NodeIncomingMessageEvent ()), Inl (Errorf ''read'' Canceled)] exampleStart = Returns (True, z')) \<and>
   (\<exists>z'. gatewayLoop memoryHost (Implementations exampleInterface)
      (receiveNodeIncomingMessageEvent exampleInterface exampleParse)
      (replicate 1000 (Inl DeadlineExceeded)) exampleStart = Returns (False, z'))"
proof -
  let ?p = "receiveNodeIncomingMessageEvent exampleInterface exampleParse"
  have p: "\<forall>m z. Inr (NodeIncomingMessageEvent m) \<in> set rs \<longrightarrow> ?p m z \<noteq> Panics" for rs :: "(goerr + unit providerEvent) list"
    by (simp add: receiveNodeIncomingMessageEvent_def)
  note e = provider_loop_ends [OF p, where h = memoryHost and C = "Implementations exampleInterface" and z = exampleStart]
  show ?thesis
    using e [of "[Inr (NodeJoinEvent 7), Inr (NodeIncomingMessageEvent ()), Inl (Errorf ''read'' Canceled)]"]
      e [of "replicate 1000 (Inl DeadlineExceeded)"]
    by (auto simp: in_set_replicate)
qed

section \<open>The event channel\<close>

text \<open>Any number of senders and readers, in any order.\<close>

inductive channelRun :: "channel \<Rightarrow> event list \<Rightarrow> event list \<Rightarrow> bool" where
  made: "channelRun newChannel [] []"
| send: "channelRun ch sent received \<Longrightarrow> channelRun (channelSend ev ch) (sent @ [ev]) received"
| read: "channelRun ch sent received \<Longrightarrow> ReadEvent preferEvent expired ch = (Some (Inr ev), ch') \<Longrightarrow>
    channelRun ch' sent (received @ [ev])"
| no_event: "channelRun ch sent received \<Longrightarrow> ReadEvent preferEvent expired ch = (r, ch') \<Longrightarrow>
    (\<forall>ev. r \<noteq> Some (Inr ev)) \<Longrightarrow> channelRun ch' sent received"

lemma channelRun_ok:
  assumes "channelRun ch sent received"
  shows "sent = received @ buffer ch @ senders ch \<and> length (buffer ch) \<le> 1 \<and> (senders ch \<noteq> [] \<longrightarrow> buffer ch \<noteq> [])"
  using assms
proof (induction rule: channelRun.induct)
  case (read ch sent received preferEvent expired ev ch')
  then show ?case
    by (cases "buffer ch"; cases "senders ch") (auto simp: ReadEvent_def channelTake_def split: if_splits)
next
  case (no_event ch sent received preferEvent expired r ch')
  then show ?case by (auto simp: ReadEvent_def split: if_splits option.splits)
qed (auto simp: newChannel_def channelSend_def)

text \<open>C35: whatever the interleaving of senders and readers, what \<open>ReadEvent\<close> has returned
  followed by what the channel and the waiting senders hold is what was sent, in that order;
  nothing is lost or repeated. A read waits exactly when everything sent has been received and
  its context is not done, and the only error it returns is the expired deadline.\<close>

theorem events_in_order:
  assumes "channelRun ch sent received"
  shows "sent = received @ buffer ch @ senders ch \<and> length (buffer ch) \<le> 1 \<and>
    (fst (ReadEvent preferEvent expired ch) = None \<longleftrightarrow> sent = received \<and> \<not> expired) \<and>
    (\<forall>err. fst (ReadEvent preferEvent expired ch) = Some (Inl err) \<longrightarrow> err = DeadlineExceeded \<and> expired)"
  using channelRun_ok [OF assms]
  by (auto simp: ReadEvent_def channelTake_def split: option.splits list.splits)

theorem events_in_order_witness:
  "[EvDeviceDiscoveryDisabled, EvDeviceDiscoveryEnabled 5] =
     [] @ buffer (channelSend (EvDeviceDiscoveryEnabled 5) (channelSend EvDeviceDiscoveryDisabled newChannel)) @
       senders (channelSend (EvDeviceDiscoveryEnabled 5) (channelSend EvDeviceDiscoveryDisabled newChannel))"
proof -
  have "channelRun (channelSend (EvDeviceDiscoveryEnabled 5) (channelSend EvDeviceDiscoveryDisabled newChannel))
      (([] @ [EvDeviceDiscoveryDisabled]) @ [EvDeviceDiscoveryEnabled 5]) []"
    by (intro channelRun.send channelRun.made)
  from events_in_order [OF this] show ?thesis by simp
qed

section \<open>Removing a device\<close>

lemma Remove_outside:
  fixes e :: "('s, 'x) env"
  assumes "Remove P d t e = (err, e')"
  shows "\<exists>x. e' = e\<lparr>world := x\<rparr>"
proof -
  have same: "\<exists>x. e = e\<lparr>world := x\<rparr>" by (rule exI [of _ "world e"]) simp
  have w: "\<exists>x. e'' = e\<lparr>world := x\<rparr>" if "onWorld g e = (r, e'')" for g :: "(unit, 'x) call" and r e''
    using that by (auto simp: onWorld_def split: prod.splits)
  show ?thesis
    using assms same by (cases t) (auto simp: Remove_def split: prod.splits sum.splits dest: w)
qed

text \<open>\<open>Remove\<close> on a device only asks the provider, and for an unknown kind of removal not even
  that; neither the table, the store nor the events change. When the provider then reports that
  the node has left, the device is gone, and so is every other device of the same node, from
  the table and from the store; the devices of other nodes stay.\<close>

theorem removal_takes_the_node:
  assumes "host_ok h" "sections I = persist h" "network_ok N" "network_endpoints N" "reachable h I N f parse R z"
    and "Remove P d t (env z) = (err, e')" "z' = z\<lparr>env := e'\<rparr>"
  shows "reachable h I N f parse R z' \<and> store e' = store (env z) \<and> events e' = events (env z) \<and>
    (\<forall>i. t = OtherRemoval i \<longrightarrow> err \<noteq> None \<and> z' = z) \<and>
    (\<forall>d'. getDevice d' (receiveNodeLeaveEvent h (Implementations I) (IEEEAddress d) z') =
       (if IEEEAddress d' = IEEEAddress d then None else getDevice d' z)) \<and>
    deviceKeys h (store (env (receiveNodeLeaveEvent h (Implementations I) (IEEEAddress d) z'))) =
      {d'. getDevice d' z \<noteq> None \<and> IEEEAddress d' \<noteq> IEEEAddress d}"
proof -
  note zda = zda.intro [OF assms(1,2)]
  obtain x where x: "e' = (env z)\<lparr>world := x\<rparr>" using Remove_outside [OF assms(6)] by blast
  have r: "reachable h I N f parse R z'" unfolding assms(7) x by (rule reachable.outside [OF assms(5)])
  have sys: "sys_ok h (Implementations I) z'" by (rule zda.reachable_ok [OF zda r assms(3,4)])
  note l = gateway.leave_ok [OF zda_gateway [OF zda] sys, of "IEEEAddress d"]
  let ?z = "receiveNodeLeaveEvent h (Implementations I) (IEEEAddress d) z'"
  have dev: "getDevice d' ?z = (if IEEEAddress d' = IEEEAddress d then None else getDevice d' z)" for d'
    using l assms(7) by simp
  have "deviceKeys h (store (env ?z)) = {d'. getDevice d' ?z \<noteq> None}"
    using l by (blast dest: sys_okD gateway_okD mirrorsD(5))
  also have "\<dots> = {d'. getDevice d' z \<noteq> None \<and> IEEEAddress d' \<noteq> IEEEAddress d}" by (auto simp: dev)
  finally show ?thesis using r x dev assms(6,7) by (auto simp: Remove_def)
qed

abbreviation exampleProvider :: "unit provider" where
  "exampleProvider \<equiv> \<lparr>AdapterNode = 1, RegisterAdapterEndpoint = (\<lambda>_ _ x. (Inr (), x)),
     Joining = \<lparr>PermitJoin = (\<lambda>_ x. (Inr (), x)), DenyJoin = (\<lambda>x. (Inr (), x))\<rparr>,
     RequestNodeLeave = (\<lambda>_ x. (Inr (), x)), ForceNodeLeave = (\<lambda>_ x. (Inr (), x))\<rparr>"

theorem removal_takes_the_node_witness:
  "\<exists>e'. Remove exampleProvider (addressOf 0xABCD 0) Request (env exampleJoined) = (None, e') \<and>
    getDevice (addressOf 0xABCD 0) (receiveNodeLeaveEvent memoryHost (Implementations exampleInterface) 0xABCD
      (exampleJoined\<lparr>env := e'\<rparr>)) = None"
proof -
  obtain e' where e': "Remove exampleProvider (addressOf 0xABCD 0) Request (env exampleJoined) = (None, e')"
    by (simp add: Remove_def onWorld_def)
  from removal_takes_the_node [OF memoryHost_ok exampleInterface_ok(2) exampleNetwork_ok exampleNetwork_endpoints
      exampleJoined_reachable e' refl] e' show ?thesis by auto
qed

section \<open>Messages\<close>



end
