(* ===== verification/Example_Run.thy ===== *)
theory Example_Run
  imports System_Properties Monitor_Properties
begin

text \<open>
  For witnesses: a node that joined the gateway of the example, interrogated in steps, with
  rules that put out a temperature sensor, up to a device that has one and listens for its
  reports.
\<close>

abbreviation sensorRules :: "Input \<Rightarrow> unit + Output" where
  "sensorRules \<equiv> (\<lambda>_. Inr \<lparr>OutputCapabilities = [(''ZCLTemperatureSensor'', [])]\<rparr>)"

abbreviation sensorParse :: "zclMessage \<Rightarrow> goerr + zclMessage" where
  "sensorParse \<equiv> Inr"

abbreviation sensorReachable :: "goroutines \<Rightarrow> (implementation, memory, unit) ZDA \<Rightarrow> bool" where
  "sensorReachable \<equiv> reachable memoryHost exampleInterface exampleNetwork sensorRules sensorParse"

abbreviation sensorStep ::
  "enumPhase \<Rightarrow> (implementation, memory, unit) ZDA \<Rightarrow> (enumPhase option \<times> (implementation, memory, unit) ZDA) outcome" where
  "sensorStep \<equiv> enumStep memoryHost (Implementations exampleInterface) exampleNetwork (zcl exampleInterface)
     sensorRules 0xABCD"

lemma nextDeviceSubIdentifier_empty [simp]: "nextDeviceSubIdentifier [] = 0"
  by (simp add: nextDeviceSubIdentifier_def upt_conv_Cons)

text \<open>A store without values but the identities of devices and the names of implementations.\<close>

definition noValues :: "memory \<Rightarrow> bool" where
  "noValues s \<longleftrightarrow> (\<forall>q j. j \<notin> {''UniqueId'', ''Implementation''} \<longrightarrow> p_get memory_store q j s = None)"

text \<open>A sensor enumerated for the first time listens for reports and does not poll.\<close>

lemma temperature_attaches:
  assumes "noValues (store e)"
  shows "\<exists>m e'. temperatureEnumerate exampleInterface [] (i\<lparr>s_monitor := monitorInit p d NewMonitor\<rparr>) e =
      (Returns (True, None), i\<lparr>s_monitor := m\<rparr>, e') \<and>
    m_registered m = [0] \<and> m_ieee m = IEEEAddress d \<and> m_remote m = 1 \<and> m_local m = 1 \<and>
    m_cluster m = 1026 \<and> m_attribute m = 0 \<and> m_dataType m = 0x29"
proof -
  have S: "section_store memory_store" using host_okD(1) [OF memoryHost_ok] by (simp add: memoryHost_def)
  obtain ieee lep ack sq e1 where t: "transmissionLookup (Some d) e = ((ieee, lep, ack, sq), e1)" by (metis prod.exhaust)
  note same = transmissionLookup_same [OF t]
  have none: "p_get memory_store q ''PollingConfigured'' (store e1) = None" for q
    using assms same by (simp add: noValues_def)
  have w: "onWorld f e = (fst (f (world e)), e\<lparr>world := snd (f (world e))\<rparr>)" for f :: "('r, unit) call" and e :: "(memory, unit) env"
    by (simp add: onWorld_def split: prod.split)
  show ?thesis
    using same none
    by (simp add: temperatureEnumerate_def sensorEnumerate_def temperatureSensor_def Let_def monitorAttach_def
        monitorInit_def t configureReporting_def storeConfig_def exampleInterface_def zclStandard_def w
        reattach_def registerMatch_def boolKey_def sectionBool_def putKey_def section_store.get_set [OF S]
        monitor_keys NewMonitor_def enumerateResult.simps Get_def DefaultGatewayHomeAutomationEndpoint_def)
       (rule exI, rule conjI, rule refl, simp)
qed

text \<open>The device while the node is interrogated: the one a join makes.\<close>

definition justJoined :: "(implementation, memory, unit) ZDA \<Rightarrow> bool" where
  "justJoined z \<longleftrightarrow> (\<exists>n. map_of (node z) 0xABCD = Some n \<and> device n = [(0, newDevice)]) \<and> noValues (store (env z))"

definition sensorAt :: "enumPhase \<Rightarrow> bool" where
  "sensorAt ph \<longleftrightarrow> (\<exists>z. sensorReachable [0xABCD \<mapsto> ph] z \<and> justJoined z)"

lemma sensorAt_step:
  assumes "sensorAt ph" "\<And>z. justJoined z \<Longrightarrow> \<exists>z'. sensorStep ph z = Returns (Some ph', z') \<and> justJoined z'"
  shows "sensorAt ph'"
proof -
  from assms obtain z z' where "sensorReachable [0xABCD \<mapsto> ph] z" "sensorStep ph z = Returns (Some ph', z')" "justJoined z'"
    unfolding sensorAt_def by blast
  moreover from this reachable.enumeration [OF this(1) _ this(2)] have "sensorReachable [0xABCD \<mapsto> ph'] z'"
    by (simp only: fun_upd_upd fun_upd_same simp_thms)
  ultimately show ?thesis unfolding sensorAt_def by blast
qed

text \<open>The queries change nothing the device knows.\<close>

lemma sensorAt_query:
  assumes "sensorAt ph" "query_phase ph" "\<And>z. \<exists>z'. sensorStep ph z = Returns (Some ph', z')"
  shows "sensorAt ph'"
proof (rule sensorAt_step [OF assms(1)])
  fix z
  assume z: "justJoined z"
  obtain z' where step: "sensorStep ph z = Returns (Some ph', z')" using assms(3) by blast
  obtain e where "z' = z\<lparr>env := e\<rparr>" "quiet (env z) e" using query_step [OF exampleNetwork_ok step assms(2)] by blast
  with z have "justJoined z'" by (simp add: justJoined_def quiet_def)
  with step show "\<exists>z'. sensorStep ph z = Returns (Some ph', z') \<and> justJoined z'" by blast
qed

lemma sensorAt_start: "sensorAt EnumStart"
proof -
  let ?z = "\<lparr>env = exampleEnv, node = []\<rparr> :: (implementation, memory, unit) ZDA"
  let ?ev = "NodeJoinEvent 0xABCD :: zclMessage providerEvent"
  have new: "sensorReachable (\<lambda>_. None) ?z"
    by (rule reachable.first)
       (simp_all add: newProcess_def emptyStore_def exampleEnv_def memoryHost_def memory_store_def memory_keys_def
         memory_new_def)
  have "getNode 0xABCD ?z = None" by (simp add: getNode_def)
  then have R: "goroutinesAfter ?ev ?z (\<lambda>_. None) = [0xABCD \<mapsto> EnumStart]"
    by (simp only: goroutinesAfter_def providerEvent.case simp_thms if_True)
  have "sensorReachable [0xABCD \<mapsto> EnumStart] (receiveNodeJoinEvent memoryHost 0xABCD ?z)"
    unfolding R [symmetric] by (rule reachable.provider [OF new]) (simp_all add: handleEvent_def)
  moreover have "justJoined (receiveNodeJoinEvent memoryHost 0xABCD ?z)"
    by (simp add: justJoined_def noValues_def receiveNodeJoinEvent_def createNode_def createNextDevice_def
        createSpecificDevice_def onNodeJoin_def startEnumeration_def updNode_def getNode_def Let_def onStore_def
        zSendEvent_def sendEvent_def newNode_def nextDeviceSubIdentifier_empty exampleEnv_def memoryHost_def memory_store_def
        memory_section_def sectionForNode_def sectionForDevice_def memory_new_def)
  ultimately show ?thesis unfolding sensorAt_def by blast
qed

text \<open>The answers of the network, and what the rules make of them.\<close>

abbreviation exampleNode :: NodeDescription where
  "exampleNode \<equiv> \<lparr>LogicalType = Router, ManufacturerCode = 0\<rparr>"

abbreviation exampleProduct :: endpointDetails where
  "exampleProduct \<equiv> exampleDetails\<lparr>productInformation := noProductData\<lparr>manufacturer := ''ACME''\<rparr>\<rparr>"

definition sensorInventory :: inventoryDevice where
  "sensorInventory = \<lparr>uniqueId = 1, invEndpoints =
     [exampleProduct\<lparr>rulesOutput := \<lparr>OutputCapabilities = [(''ZCLTemperatureSensor'', [])]\<rparr>\<rparr>]\<rparr>"

lemma sensorAt_table: "sensorAt (EnumTable [sensorInventory])"
proof -
  note defs = exampleNetwork_def exampleInterface_def onWorld_def eval_nat_numeral zclStandard_def exampleDetails_def
  have "sensorAt EnumNode"
    by (rule sensorAt_step [OF sensorAt_start])
       (auto simp: justJoined_def updNode_def getNode_def sendStarts_def devicesOf_def zSendEvent_def sendEvent_def)
  then have "sensorAt (EnumEndpoints exampleNode)"
    by (rule sensorAt_query) (simp_all add: defs query_phase_def)
  then have "sensorAt (EnumDescriptions exampleNode [1] [])"
    by (rule sensorAt_query) (simp_all add: defs query_phase_def)
  then have "sensorAt (EnumDescriptions exampleNode [] [(1, exampleDetails)])"
    by (rule sensorAt_query) (simp_all add: defs query_phase_def)
  then have "sensorAt (EnumProducts exampleNode [(1, exampleDetails)] [(1, exampleDetails)])"
    by (rule sensorAt_query) (simp_all add: query_phase_def)
  then have "sensorAt (EnumProducts exampleNode [] [(1, exampleProduct)])"
  proof (rule sensorAt_query)
    fix z :: "(implementation, memory, unit) ZDA"
    obtain seq e where "takeSequence 0xABCD (env z) = (seq, e)" by (metis prod.exhaust)
    then show "\<exists>z'. sensorStep (EnumProducts exampleNode [(1, exampleDetails)] [(1, exampleDetails)]) z =
        Returns (Some (EnumProducts exampleNode [] [(1, exampleProduct)]), z')"
      by (simp add: defs readBasic_def setProductData_def)
  qed (simp add: query_phase_def)
  then have "sensorAt (EnumRules \<lparr>nodeDescription = exampleNode, endpoints = [(1, exampleProduct)]\<rparr>)"
    by (rule sensorAt_query) (simp_all add: query_phase_def)
  then show ?thesis
    by (rule sensorAt_query)
       (simp_all add: defs runRules_def groupInventoryDevices_def inventoryMap_def sensorInventory_def query_phase_def)
qed

text \<open>The device gets its identity, and then the sensor.\<close>

abbreviation sensorDevice :: address where
  "sensorDevice \<equiv> addressOf 0xABCD 0"

lemma sensor_table:
  "\<exists>z. sensorReachable [0xABCD \<mapsto> EnumDevices [(1, sensorDevice)] [] [sensorInventory]] z \<and>
     noValues (store (env z)) \<and> (\<exists>dev. getDevice sensorDevice z = Some dev \<and> capabilities dev = [])"
proof -
  from sensorAt_table obtain z where r: "sensorReachable [0xABCD \<mapsto> EnumTable [sensorInventory]] z" and z: "justJoined z"
    unfolding sensorAt_def by blast
  let ?z = "setDeviceUniqueId memoryHost sensorDevice 1 z"
  have S: "section_store memory_store" using host_okD(1) [OF memoryHost_ok] by (simp add: memoryHost_def)
  from z obtain n where n: "map_of (node z) 0xABCD = Some n" "device n = [(0, newDevice)]" by (auto simp: justJoined_def)
  have "sensorStep (EnumTable [sensorInventory]) z = Returns (Some (EnumDevices [(1, sensorDevice)] [] [sensorInventory]), ?z)"
    using n
    by (simp add: updateNodeTable_def findUnset_def findExisting_def devicesOf_def devicesToRemove_def
        removeDevices_def setDeviceUniqueId_def updNode_def updDevice_def getNode_def Let_def newDevice_def
        sensorInventory_def)
  from reachable.enumeration [OF r _ this]
  have "sensorReachable [0xABCD \<mapsto> EnumDevices [(1, sensorDevice)] [] [sensorInventory]] ?z"
    by (simp only: fun_upd_upd fun_upd_same simp_thms)
  moreover have "noValues (store (env ?z))"
    using z by (simp add: justJoined_def noValues_def setDeviceUniqueId_def onStore_def memoryHost_def
        section_store.get_laws [OF S] sectionForDevice_def sectionForNode_def)
  moreover have "\<exists>dev. getDevice sensorDevice ?z = Some dev \<and> capabilities dev = []"
    using n by (simp add: setDeviceUniqueId_def updDevice_def updNode_def getDevice_def getNode_def onStore_def newDevice_def)
  ultimately show ?thesis by blast
qed

lemma sensor_attached:
  "\<exists>z i. sensorReachable [0xABCD \<mapsto> EnumDevices [(1, sensorDevice)] [sensorInventory] []] z \<and>
     map_of (deviceCaps sensorDevice z) TemperatureSensorFlag = Some (ImplTemperature i) \<and>
     m_registered (s_monitor i) = [0] \<and> m_ieee (s_monitor i) = 0xABCD \<and> m_remote (s_monitor i) = 1 \<and>
     m_local (s_monitor i) = 1 \<and> m_cluster (s_monitor i) = 1026 \<and> m_attribute (s_monitor i) = 0 \<and>
     m_dataType (s_monitor i) = 0x29"
proof -
  from sensor_table obtain z dev where
    r: "sensorReachable [0xABCD \<mapsto> EnumDevices [(1, sensorDevice)] [] [sensorInventory]] z"
    and s: "noValues (store (env z))" and dev: "getDevice sensorDevice z = Some dev" "capabilities dev = []" by blast
  have S: "section_store memory_store" using host_okD(1) [OF memoryHost_ok] by (simp add: memoryHost_def)
  have caps: "deviceCaps sensorDevice z = []" using dev by (simp add: deviceCaps_def)
  let ?C = "Implementations exampleInterface" and ?d = sensorDevice
  let ?q = "capabilityPath memoryHost ?d TemperatureSensorFlag @ [''Data'']"
  let ?mp = "?q @ [''AttributeMonitor'', ''TemperatureReading'']"
  let ?i = "newSensor\<lparr>s_section := ?q, s_device := ?d\<rparr>"
  have create: "Create ''ZCLTemperatureSensor'' = Some (ImplTemperature newSensor)"
    by (simp add: Create_def implementation_names)
  obtain e1 where new: "newImplementation memoryHost ?C ?d ''ZCLTemperatureSensor'' TemperatureSensorFlag z =
      (Some (ImplTemperature (?i\<lparr>s_monitor := monitorInit ?mp ?d NewMonitor\<rparr>)), z\<lparr>env := e1\<rparr>)"
    and e1: "noValues (store e1)"
    using s by (simp add: newImplementation_def create Implementations_def temperatureInit_def sensorInit_def
        temperatureSensor_def Let_def openSection_def noValues_def memoryHost_def exampleInterface_def
        section_store.get_laws [OF S] sectionForDevice_def sectionForNode_def)
  from temperature_attaches [OF e1, where i = ?i and p = ?mp and d = ?d] obtain m e2 where
    en: "temperatureEnumerate exampleInterface [] (?i\<lparr>s_monitor := monitorInit ?mp ?d NewMonitor\<rparr>) e1 =
      (Returns (True, None), ?i\<lparr>s_monitor := m\<rparr>, e2)"
    and m: "m_registered m = [0]" "m_ieee m = 0xABCD" "m_remote m = 1" "m_local m = 1" "m_cluster m = 1026"
      "m_attribute m = 0" "m_dataType m = 0x29" by auto
  let ?z2 = "attachCapabilityToDevice memoryHost ?C ?d (ImplTemperature (?i\<lparr>s_monitor := m\<rparr>)) (z\<lparr>env := e2\<rparr>)"
  have at: "enumerateCapabilityOnDevice memoryHost ?C ?d ''ZCLTemperatureSensor'' TemperatureSensorFlag [] [] z =
      ((True, []), ?z2)"
    using en by (simp add: enumerateCapabilityOnDevice_def caps new callEnumerate_def)
  have caps2: "deviceCaps ?d ?z2 = [(TemperatureSensorFlag, ImplTemperature (?i\<lparr>s_monitor := m\<rparr>))]"
    using dev by (simp add: attachCapabilityToDevice_def Let_def deviceCaps_def)
  have "\<exists>errs. updateCapabilitiesOnDevice memoryHost ?C ?d sensorInventory z = (errs, ?z2)"
    using at caps2
    by (simp add: updateCapabilitiesOnDevice_def sensorInventory_def enumerateCapabilities_def Mapping_def
        implementation_names Let_def)
  then obtain errs where "sensorStep (EnumDevices [(1, ?d)] [] [sensorInventory]) z =
      Returns (Some (EnumDevices [(1, ?d)] [sensorInventory] []), setResults ?d errs ?z2)"
    by (auto simp: sensorInventory_def)
  from reachable.enumeration [OF r _ this]
  have "sensorReachable [0xABCD \<mapsto> EnumDevices [(1, ?d)] [sensorInventory] []] (setResults ?d errs ?z2)"
    by (simp only: fun_upd_upd fun_upd_same simp_thms)
  moreover have "map_of (deviceCaps ?d (setResults ?d errs ?z2)) TemperatureSensorFlag =
      Some (ImplTemperature (?i\<lparr>s_monitor := m\<rparr>))" by (simp add: caps2)
  moreover have "m_registered (s_monitor (?i\<lparr>s_monitor := m\<rparr>)) = [0] \<and> m_ieee (s_monitor (?i\<lparr>s_monitor := m\<rparr>)) = 0xABCD \<and>
     m_remote (s_monitor (?i\<lparr>s_monitor := m\<rparr>)) = 1 \<and> m_local (s_monitor (?i\<lparr>s_monitor := m\<rparr>)) = 1 \<and>
     m_cluster (s_monitor (?i\<lparr>s_monitor := m\<rparr>)) = 1026 \<and> m_attribute (s_monitor (?i\<lparr>s_monitor := m\<rparr>)) = 0 \<and>
     m_dataType (s_monitor (?i\<lparr>s_monitor := m\<rparr>)) = 0x29" using m by simp
  ultimately show ?thesis by blast
qed

end
