(* ===== verification/Enumeration_Properties.thy ===== *)
theory Enumeration_Properties
  imports Example_Run
begin

text \<open>
  What holds of enumerations that run beside each other and beside everything else: at most one
  for a node at a time, what a running one relies on, that it can always be run to its end, and
  what becomes of a node that leaves in the middle of its own.
\<close>

section \<open>One at a time\<close>

text \<open>C15: in every reachable state, with enumerations running in any phase, a node's semaphore is
  held exactly by the enumeration that runs for it, and the state flag tells whether that has
  begun. A request to enumerate is accepted exactly when the node is known and none is running
  for it; a refused one changes nothing. If the enumeration then runs on to its end without a
  panic, its end state is reachable and the node can be enumerated again.\<close>

theorem one_enumeration_per_node:
  assumes "host_ok h" "sections I = persist h" "network_ok N" "network_endpoints N" "reachable h I N f parse R z"
    and "startEnumeration a z = (err, z1)"
  shows "(R a \<noteq> None \<longrightarrow> getNode a z \<noteq> None) \<and>
    (\<forall>n. getNode a z = Some n \<longrightarrow>
       (enumerationSem n \<longleftrightarrow> R a \<noteq> None) \<and> (enumerationState n \<longleftrightarrow> R a \<noteq> None \<and> R a \<noteq> Some EnumStart)) \<and>
    (err = None \<longleftrightarrow> getNode a z \<noteq> None \<and> R a = None) \<and> (err \<noteq> None \<longrightarrow> z1 = z) \<and>
    (\<forall>b. b \<noteq> a \<longrightarrow> getNode b z1 = getNode b z) \<and>
    (\<forall>ph z2. R a = Some ph \<and> enumRun h (Implementations I) N (zcl I) f a ph z = Returns z2 \<longrightarrow>
       reachable h I N f parse (R(a := None)) z2 \<and> fst (startEnumeration a z2) = None)"
proof -
  note zda = zda.intro [OF assms(1,2)]
  note ok = zda.reachable_invariant [OF zda assms(5,3,4), THEN conjunct2]
  have held: "R a \<noteq> None \<longrightarrow> getNode a z \<noteq> None"
    using goroutines_okD(2) [OF ok, of a] by (auto simp: flags_in_def flags_def)
  have fl: "(enumerationSem n \<longleftrightarrow> R a \<noteq> None) \<and> (enumerationState n \<longleftrightarrow> R a \<noteq> None \<and> R a \<noteq> Some EnumStart)"
    if "getNode a z = Some n" for n
    using goroutines_okD(1,2) [OF ok, of a] that by (cases "R a") (auto simp: flags_in_def flags_def)
  have started: "(err = None \<longleftrightarrow> getNode a z \<noteq> None \<and> R a = None) \<and> (err \<noteq> None \<longrightarrow> z1 = z) \<and>
      (\<forall>b. b \<noteq> a \<longrightarrow> getNode b z1 = getNode b z)"
    using assms(6) fl held
    by (auto simp: startEnumeration_def getNode_updNode split: option.splits if_splits)
  have "reachable h I N f parse (R(a := None)) z2 \<and> fst (startEnumeration a z2) = None"
    if "R a = Some ph" "enumRun h (Implementations I) N (zcl I) f a ph z = Returns z2" for ph z2
    using zda.reachable_enumRun [OF zda assms(5) that(1) assms(3,4) that(2)]
    by (auto simp: startEnumeration_def flags_def)
  with held fl started show ?thesis by blast
qed

theorem one_enumeration_per_node_witness:
  "fst (startEnumeration 0xABCD exampleJoined) \<noteq> None \<and>
   (\<exists>z. enumRun memoryHost (Implementations exampleInterface) exampleNetwork (zcl exampleInterface) exampleRules
      0xABCD EnumStart exampleJoined = Returns z \<and> fst (startEnumeration 0xABCD z) = None)"
proof -
  obtain err z1 where s: "startEnumeration 0xABCD exampleJoined = (err, z1)" by (metis prod.exhaust)
  obtain z where "enumRun memoryHost (Implementations exampleInterface) exampleNetwork (zcl exampleInterface)
      exampleRules 0xABCD EnumStart exampleJoined = Returns z"
    using exampleJoined_enumerates unfolding enumRun_start by blast
  with one_enumeration_per_node [OF memoryHost_ok exampleInterface_ok(2) exampleNetwork_ok exampleNetwork_endpoints
      exampleJoined_reachable s] s
  show ?thesis by auto
qed

section \<open>While others run\<close>



section \<open>A node that leaves in the middle\<close>

text \<open>Two stores with the same sections and values hold the same table.\<close>

definition same_sections :: "'s persist \<Rightarrow> 's \<Rightarrow> 's \<Rightarrow> bool" where
  "same_sections P s s' \<longleftrightarrow>
     (\<forall>p. set (p_keys P p s') = set (p_keys P p s) \<and> (\<forall>j. p_get P p j s' = p_get P p j s))"

lemma mirrors_same_sections:
  assumes "mirrors h C z" "same_sections (persist h) (store (env z)) s"
  shows "mirrors h C (z\<lparr>env := (env z)\<lparr>store := s\<rparr>\<rparr>)"
proof -
  have keys: "set (p_keys (persist h) p s) = set (p_keys (persist h) p (store (env z)))"
    and get: "p_get (persist h) p j s = p_get (persist h) p j (store (env z))" for p j
    using assms(2) by (simp_all add: same_sections_def)
  have none: "p_keys (persist h) p s = [] \<longleftrightarrow> p_keys (persist h) p (store (env z)) = []" for p
    using keys [of p] by (metis set_empty)
  have pres: "present (persist h) p s = present (persist h) p (store (env z))" for p by (simp add: present_def keys)
  have devs: "deviceKeys h s = deviceKeys h (store (env z))" by (simp add: deviceKeys_def keys)
  have "canonical h s = canonical h (store (env z))" "clean h s = clean h (store (env z))"
    "nodeKeys h s = nodeKeys h (store (env z))"
    by (simp_all add: canonical_def clean_def nodeKeys_def devs keys get none)
  moreover have "device_ok h C d s dev = device_ok h C d (store (env z)) dev" for d dev
    by (simp add: device_ok_def filed_def capability_ok_def pres get)
  ultimately show ?thesis using assms(1) by (simp add: mirrors_def devs)
qed

context gateway begin

lemma sys_ok_same_sections:
  assumes "sys_ok h C z" "same_sections (persist h) (store (env z)) s"
  shows "sys_ok h C (z\<lparr>env := (env z)\<lparr>store := s\<rparr>\<rparr>)"
proof (rule sys_ok_cong [OF assms(1)])
  note ok = gateway_okD [OF sys_okD(1) [OF assms(1)]]
  from mirrors_same_sections [OF ok(1) assms(2)] ok(2,3)
  show "gateway_ok h C (z\<lparr>env := (env z)\<lparr>store := s\<rparr>\<rparr>)"
    by (simp add: gateway_ok_def announced_def sequences_full_def tableView_def)
qed simp

text \<open>The table step of a node that is gone: the device it makes is announced and stored.\<close>

lemma late_table:
  assumes "getNode a z = None" "enumStep h C N Z f a (EnumTable [i]) z = Returns (next, z')"
  shows "getNode b z' = getNode b z" "EvDeviceAdded (addressOf a 0) \<in> set (events (env z'))"
    "store (env z') = p_set (persist h) (devicePath h (addressOf a 0)) ''UniqueId'' (PInt (uniqueId i))
       (sectionForDevice h (addressOf a 0) (sectionForDevice h (addressOf a 0) (store (env z))))"
proof -
  have "map_of (node z) a = None" using assms(1) by (simp add: getNode_def)
  then have "z' = setDeviceUniqueId h (addressOf a 0) (uniqueId i) (snd (createSpecificDevice h a 0 z))"
    using assms
    by (simp add: updateNodeTable_def findUnset_def findExisting_def devicesOf_def devicesToRemove_def
        removeDevices_def createNextDevice_def createSpecificDevice_def setDeviceUniqueId_def updNode_def updDevice_def
        getNode_def Let_def onStore_def zSendEvent_def)
  with \<open>map_of (node z) a = None\<close>
  show "getNode b z' = getNode b z" "EvDeviceAdded (addressOf a 0) \<in> set (events (env z'))"
    "store (env z') = p_set (persist h) (devicePath h (addressOf a 0)) ''UniqueId'' (PInt (uniqueId i))
       (sectionForDevice h (addressOf a 0) (sectionForDevice h (addressOf a 0) (store (env z))))"
    by (simp_all add: createSpecificDevice_def setDeviceUniqueId_def updNode_def updDevice_def getNode_def Let_def
        onStore_def zSendEvent_def sendEvent_def)
qed

text \<open>What it leaves in the store is what a join and the same step leave there.\<close>

lemma join_then_table:
  assumes "getNode a z = None" "uniqueId i \<noteq> 0"
    and "updateNodeTable h C a [i] (receiveNodeJoinEvent h a z) = (did, z')"
  shows "ids (addressOf a 0) z' = Some (uniqueId i, True)"
    "store (env z') = p_set (persist h) (devicePath h (addressOf a 0)) ''UniqueId'' (PInt (uniqueId i))
       (sectionForDevice h (addressOf a 0) (sectionForDevice h (addressOf a 0) (sectionForNode h a (store (env z)))))"
proof -
  let ?z = "receiveNodeJoinEvent h a z"
  have none: "map_of (node z) a = None" using assms(1) by (simp add: getNode_def)
  then have n: "\<exists>n. map_of (node ?z) a = Some n \<and> device n = [(0, newDevice)]"
    and s: "store (env ?z) = sectionForDevice h (addressOf a 0) (sectionForNode h a (store (env z)))"
    by (simp_all add: receiveNodeJoinEvent_def createNode_def createNextDevice_def createSpecificDevice_def
        onNodeJoin_def startEnumeration_def updNode_def getNode_def Let_def onStore_def zSendEvent_def sendEvent_def
        newNode_def)
  from n obtain n where n: "map_of (node ?z) a = Some n" "device n = [(0, newDevice)]" by blast
  have "z' = setDeviceUniqueId h (addressOf a 0) (uniqueId i) ?z"
    using assms(2,3) n
    by (simp add: updateNodeTable_def findUnset_def findExisting_def devicesOf_def devicesToRemove_def
        removeDevices_def setDeviceUniqueId_def updNode_def updDevice_def getNode_def Let_def newDevice_def)
  with n s show "ids (addressOf a 0) z' = Some (uniqueId i, True)"
    "store (env z') = p_set (persist h) (devicePath h (addressOf a 0)) ''UniqueId'' (PInt (uniqueId i))
       (sectionForDevice h (addressOf a 0) (sectionForDevice h (addressOf a 0) (sectionForNode h a (store (env z)))))"
    by (simp_all add: setDeviceUniqueId_def updDevice_def updNode_def ids_def getDevice_def getNode_def onStore_def)
qed

lemma late_restart:
  assumes "sys_ok h C z" "getNode a z = None" "uniqueId i \<noteq> 0"
    and "enumStep h C N Z f a (EnumTable [i]) z = Returns (next, z')"
    and "node z2 = []" "events (env z2) = []" "store (env z2) = store (env z')"
  shows "getNode a (providerLoad h C z2) \<noteq> None" "ids (addressOf a 0) (providerLoad h C z2) = Some (uniqueId i, True)"
proof -
  let ?w = "receiveNodeJoinEvent h a z"
  note j = join_ok [OF assms(1), of a]
  have w: "sys_ok h C ?w" "getNode a ?w \<noteq> None" using j assms(2) by auto
  obtain did w1 where u: "updateNodeTable h C a [i] ?w = (did, w1)" by (metis prod.exhaust)
  note w1 = updateNodeTable_sys(1,4) [OF w _ _ u]
  note store = join_then_table [OF assms(2,3) u]
  have "same_sections (persist h) (store (env w1)) (store (env z'))"
    unfolding same_sections_def store late_table(3) [OF assms(2,4)]
    by (simp add: sectionForDevice_def sectionForNode_def P.keys_laws P.get_laws)
  from sys_ok_same_sections [OF w1(1) this] assms(3)
  have sys: "sys_ok h C (w1\<lparr>env := (env w1)\<lparr>store := store (env z')\<rparr>\<rparr>)" by simp
  have st: "store (env z2) = store (env (w1\<lparr>env := (env w1)\<lparr>store := store (env z')\<rparr>\<rparr>))" using assms(7) by simp
  note r = restart_ok(2,3) [OF sys assms(5) st assms(6)]
  show "getNode a (providerLoad h C z2) \<noteq> None" using r(1) [of a] w1(2) [of a] w(2) assms(3) by simp
  show "ids (addressOf a 0) (providerLoad h C z2) = Some (uniqueId i, True)" using r(2) [of "addressOf a 0"] store(1) by simp
qed

end



end
