(* ===== verification/Failed_Attach.thy ===== *)
theory Failed_Attach
  imports Enumeration_Properties
begin

text \<open>
  What an enumeration leaves behind of a capability that would not attach: its section, with
  the name of the implementation, which is all a restart looks at.
\<close>

context gateway begin

text \<open>A new implementation that did not attach: the table is as it was, the section is that of
  an attached capability.\<close>

lemma callEnumerate_left_behind:
  assumes z: "gateway_ok h C z" "getDevice d z \<noteq> None" "ready h C d cf False c z"
    and call: "callEnumerate h C d name cf settings False c errs z = ((False, es), z')"
  shows "\<exists>c'. capability_ok h C d (store (env z')) cf c' \<and> c_ImplName C c' = c_ImplName C c"
proof -
  obtain r c1 e1 where e1: "c_Enumerate C settings c (env z) = (r, c1, e1)"
    by (cases "c_Enumerate C settings c (env z)")
  note same1 = enumerate_same [OF e1]
  let ?z1 = "z\<lparr>env := e1\<rparr>"
  have one: "gateway_ok h C ?z1" "getDevice d ?z1 \<noteq> None" "ready h C d cf False c1 ?z1"
    using ready_call [OF z enumerate_env [OF e1], of c1] same1 z(2) by simp_all
  show ?thesis
  proof (cases r)
    case Panics
    then have "z' = ?z1" using call e1 by (simp add: callEnumerate_def Let_def)
    with one(3) same1 show ?thesis by (auto simp: ready_def)
  next
    case (Returns res)
    obtain derr c2 e2 where e2: "c_Detach C FailedAttach c1 (env ?z1) = (derr, c2, e2)"
      by (cases "c_Detach C FailedAttach c1 (env ?z1)")
    note same2 = detach_same [OF e2]
    let ?z2 = "z\<lparr>env := e2\<rparr>"
    have two: "ready h C d cf False c2 ?z2"
      using ready_call [OF one detach_env [OF e2], of c2] same2 by simp
    have "\<not> fst res" using call e1 Returns by (auto simp: callEnumerate_def Let_def split: prod.splits if_splits)
    then have "z' = detachCapabilityFromDevice h C d c2 ?z2"
      using call e1 e2 Returns by (auto simp: callEnumerate_def Let_def split: prod.splits)
    moreover have "c_Capability C c2 = cf" using two by (simp add: ready_def capability_ok_def)
    ultimately have "z' = ?z2"
      using two by (auto simp: detachCapabilityFromDevice_def ready_def deviceCaps_def Let_def split: option.splits)
    with two same1 same2 show ?thesis by (auto simp: ready_def)
  qed
qed

text \<open>A restart cannot tell the section from that of an attached capability.\<close>

lemma left_behind_restart:
  assumes z: "gateway_ok h C z" "getDevice d z = Some dev" "capability_ok h C d (store (env z)) cf c"
    and new: "node zn = []" "store (env zn) = store (env z)" "events (env zn) = []"
  shows "case map_of (deviceCaps d (providerLoad h C zn)) cf of
      None \<Rightarrow> declined C (c_ImplName C c) | Some c1 \<Rightarrow> c_ImplName C c1 = c_ImplName C c"
proof -
  let ?f = "\<lambda>dev. dev\<lparr>capabilities := AList.update cf c (capabilities dev)\<rparr>"
  let ?z0 = "updDevice d ?f z"
  note m = gateway_okD(1) [OF z(1)]
  note ok = mirrorsD(6) [OF m z(2)]
  have "device_ok h C d (store (env z)) (?f dev)"
    by (rule device_ok_change_capability [OF ok, where cf = cf])
       (use ok z(3) in \<open>auto simp: device_ok_def capability_ok_def intro: filed_capability\<close>)
  moreover have "wf_map (capabilities (?f dev))" using table_wfD(3) [OF mirrorsD(1) [OF m] z(2)] by simp
  ultimately have m0: "mirrors h C ?z0"
    using mirrors_updDevice [OF m z(2), of "env z" ?f] by simp
  have c: "map_of (deviceCaps d ?z0) cf = Some c" using z(2) by (simp add: deviceCaps_def)
  have st: "store (env zn) = store (env ?z0)" using new(2) by simp
  note load = providerLoad_ok [OF m0 new(1) st new(3)]
  then have g: "gateway_ok h C (providerLoad h C zn)" and m1: "mirrors h C (?z0\<lparr>env := env (providerLoad h C zn)\<rparr>)"
    and again: "restored C ?z0 d (providerLoad h C zn)" by simp_all
  show ?thesis
  proof (cases "map_of (deviceCaps d (providerLoad h C zn)) cf")
    case None
    with again [unfolded restored_def, rule_format, OF c] show ?thesis by simp
  next
    case (Some c1)
    with mirrors_agree(3) [OF gateway_okD(1) [OF g] m1 Some] c show ?thesis by simp
  qed
qed

end



end
