(* ===== verification/Message_Properties.thy ===== *)
theory Message_Properties
  imports Gateway_Properties Example_Run
begin

text \<open>
  Where a message goes: to every capability of the table whose monitor listens for it, and to
  no other.
\<close>

section \<open>Sections of different capabilities\<close>

text \<open>The values at and below a path are those they were.\<close>

definition same_data :: "'s persist \<Rightarrow> path \<Rightarrow> 's \<Rightarrow> 's \<Rightarrow> bool" where
  "same_data P p s s' \<longleftrightarrow> (\<forall>q j. prefix p q \<longrightarrow> p_get P q j s' = p_get P q j s)"

lemma same_data_refl [simp, intro]: "same_data P p s s"
  by (simp add: same_data_def)

lemma same_data_trans [trans]: "same_data P p s s' \<Longrightarrow> same_data P p s' s'' \<Longrightarrow> same_data P p s s''"
  by (simp add: same_data_def)

lemma floatKey_same_data:
  "same_data (sections I) p (store e) (store e') \<Longrightarrow> prefix p q \<Longrightarrow> floatKey I q k e' = floatKey I q k e"
  by (simp add: same_data_def floatKey_def sectionFloat_def)

text \<open>Each slot of the table once.\<close>

lemma capabilitySlots_table:
  assumes "table_wf z"
  shows "distinct (capabilitySlots z)"
    "(d, cf) \<in> set (capabilitySlots z) \<longleftrightarrow> map_of (deviceCaps d z) cf \<noteq> None"
proof -
  have wf: "wf_map (deviceCaps d z)" for d
    using table_wfD(3) [OF assms] by (cases "getDevice d z") (auto simp: deviceCaps_def wf_map_def)
  have "distinct (concat (map (\<lambda>d. map (Pair d) (map fst (deviceCaps d z))) ds))" if "distinct ds" for ds
    using that wf by (induction ds) (auto simp: distinct_map inj_on_def wf_map_def)
  from this [OF getDevices_table(1) [OF assms]] show "distinct (capabilitySlots z)"
    by (simp add: capabilitySlots_def)
  have "(d, cf) \<in> set (capabilitySlots z) \<longleftrightarrow> d \<in> set (getDevices z) \<and> cf \<in> fst ` set (deviceCaps d z)"
    by (auto simp: capabilitySlots_def)
  also have "\<dots> \<longleftrightarrow> map_of (deviceCaps d z) cf \<noteq> None"
    using getDevices_table(2) [OF assms, of d]
    by (auto simp: map_of_eq_None_iff deviceCaps_def split: option.splits)
  finally show "(d, cf) \<in> set (capabilitySlots z) \<longleftrightarrow> map_of (deviceCaps d z) cf \<noteq> None" .
qed

context zda begin

lemma slot_section:
  assumes "sys_ok h (Implementations I) z" "map_of (deviceCaps d z) cf = Some c"
  shows "implSection c = dataPath h d cf" "present (persist h) (dataPath h d cf) (store (env z))"
proof -
  obtain dev where "getDevice d z = Some dev" "map_of (capabilities dev) cf = Some c"
    using assms(2) by (auto simp: deviceCaps_def split: option.splits)
  with mirrorsD(6) [OF gateway_okD(1) [OF sys_okD(1) [OF assms(1)]]]
  show "implSection c = dataPath h d cf" "present (persist h) (dataPath h d cf) (store (env z))"
    by (auto simp: device_ok_def capability_ok_def)
qed

lemma dataPath_disjoint:
  assumes "prefix (dataPath h d cf) q" "prefix (dataPath h d' cf') q"
  shows "d = d' \<and> cf = cf'"
proof -
  have below: "prefix (capabilityPath h d cf) (dataPath h d cf)" "prefix (devicePath h d) (capabilityPath h d cf)" for d cf
    by (simp_all add: dataPath_def)
  have "d = d'" using devicePath_disjoint assms below by (meson prefix_order.trans)
  moreover have "cf = cf'" using capabilityPath_disjoint [of d] assms below calculation by (meson prefix_order.trans)
  ultimately show ?thesis ..
qed

lemma other_section:
  assumes "sys_ok h (Implementations I) z" "map_of (deviceCaps d z) cf = Some c"
    and "cap_effect (persist h) (implSection c) (env z) e" "(d', cf') \<noteq> (d, cf)"
  shows "same_data (persist h) (dataPath h d' cf') (store (env z)) (store e)"
proof -
  note sec = slot_section [OF assms(1,2)]
  have "only_below (persist h) (dataPath h d cf) (store (env z)) (store e)"
    using assms(3) sec by (simp add: cap_effect_def)
  then show ?thesis
    using dataPath_disjoint assms(4) unfolding same_data_def by (metis only_belowD(2))
qed

text \<open>One delivery, and the rest of the slots.\<close>

lemma deliverAll_cons:
  assumes "sys_ok h (Implementations I) z" "deliverAll I msg ((d, cf) # slots) z = Returns z'"
    and "map_of (deviceCaps d z) cf = Some c"
  shows "\<exists>c1 e1. deliverTo I msg c (env z) = Returns (c1, e1) \<and>
    sys_ok h (Implementations I) (writeBack d cf c1 (z\<lparr>env := e1\<rparr>)) \<and>
    (\<forall>d' cf'. (d', cf') \<noteq> (d, cf) \<longrightarrow> same_data (persist h) (dataPath h d' cf') (store (env z)) (store e1)) \<and>
    deliverAll I msg slots (writeBack d cf c1 (z\<lparr>env := e1\<rparr>)) = Returns z'"
proof -
  from assms(2,3) obtain c1 e1 where one: "deliverTo I msg c (env z) = Returns (c1, e1)"
    and rest: "deliverAll I msg slots (writeBack d cf c1 (z\<lparr>env := e1\<rparr>)) = Returns z'"
    by (auto split: outcome.splits)
  note k = deliverTo_contract [OF sections_ok one]
  have eff: "cap_effect (persist h) (implSection c) (env z) e1" using k by (simp add: same_store)
  note other_section [OF assms(1,3) eff]
  with one rest capability_acts(1) [OF assms(1,3) eff] k show ?thesis by blast
qed

lemma env_writeBack [simp]: "env (writeBack d cf c z) = env z"
  by (simp add: writeBack_def)

lemma deviceCaps_writeBack:
  "map_of (deviceCaps d z) cf = Some c \<Longrightarrow>
     map_of (deviceCaps d' (writeBack d cf c1 (z\<lparr>env := e\<rparr>))) cf' =
       (if (d', cf') = (d, cf) then Some c1 else map_of (deviceCaps d' z) cf')"
  by (auto simp: writeBack_def deviceCaps_def split: option.splits)

lemma deliverAll_elsewhere:
  assumes "sys_ok h (Implementations I) z" "deliverAll I msg slots z = Returns z'" "(d, cf) \<notin> set slots"
  shows "map_of (deviceCaps d z') cf = map_of (deviceCaps d z) cf \<and>
    same_data (persist h) (dataPath h d cf) (store (env z)) (store (env z')) \<and>
    set (events (env z)) \<subseteq> set (events (env z'))"
  using assms
proof (induction slots arbitrary: z)
  case (Cons s slots)
  obtain d1 cf1 where s: "s = (d1, cf1)" by (cases s)
  show ?case
  proof (cases "map_of (deviceCaps d1 z) cf1")
    case None
    with Cons s show ?thesis by simp
  next
    case (Some c)
    from deliverAll_cons [OF Cons.prems(1) Cons.prems(2) [unfolded s] Some] obtain c1 e1 where
      one: "deliverTo I msg c (env z) = Returns (c1, e1)"
      and ok: "sys_ok h (Implementations I) (writeBack d1 cf1 c1 (z\<lparr>env := e1\<rparr>))"
      and kept: "\<forall>d' cf'. (d', cf') \<noteq> (d1, cf1) \<longrightarrow> same_data (persist h) (dataPath h d' cf') (store (env z)) (store e1)"
      and rest: "deliverAll I msg slots (writeBack d1 cf1 c1 (z\<lparr>env := e1\<rparr>)) = Returns z'" by blast
    have ne: "(d, cf) \<noteq> (d1, cf1)" "(d, cf) \<notin> set slots" using Cons.prems(3) s by auto
    have "set (events (env z)) \<subseteq> set (events e1)"
      using deliverTo_contract [OF sections_ok one] by (auto simp: cap_effect_def)
    with Cons.IH [OF ok rest ne(2)] kept ne(1) show ?thesis
      by (auto simp: deviceCaps_writeBack [OF Some] intro: same_data_trans)
  qed
qed simp

lemma deliverAll_at:
  assumes "sys_ok h (Implementations I) z" "deliverAll I msg slots z = Returns z'" "distinct slots"
    and "(d, cf) \<in> set slots" "map_of (deviceCaps d z) cf = Some c"
  shows "\<exists>e c1 e1. deliverTo I msg c e = Returns (c1, e1) \<and> map_of (deviceCaps d z') cf = Some c1 \<and>
    same_data (persist h) (dataPath h d cf) (store (env z)) (store e) \<and>
    same_data (persist h) (dataPath h d cf) (store e1) (store (env z')) \<and>
    set (events e1) \<subseteq> set (events (env z'))"
  using assms
proof (induction slots arbitrary: z)
  case (Cons s slots)
  obtain d1 cf1 where s: "s = (d1, cf1)" by (cases s)
  show ?case
  proof (cases "map_of (deviceCaps d1 z) cf1")
    case None
    with Cons s show ?thesis by auto
  next
    case (Some c0)
    from deliverAll_cons [OF Cons.prems(1) Cons.prems(2) [unfolded s] Some] obtain c1 e1 where
      one: "deliverTo I msg c0 (env z) = Returns (c1, e1)"
      and ok: "sys_ok h (Implementations I) (writeBack d1 cf1 c1 (z\<lparr>env := e1\<rparr>))"
      and kept: "\<forall>d' cf'. (d', cf') \<noteq> (d1, cf1) \<longrightarrow> same_data (persist h) (dataPath h d' cf') (store (env z)) (store e1)"
      and rest: "deliverAll I msg slots (writeBack d1 cf1 c1 (z\<lparr>env := e1\<rparr>)) = Returns z'" by blast
    show ?thesis
    proof (cases "(d, cf) = (d1, cf1)")
      case True
      then have "(d, cf) \<notin> set slots" using Cons.prems(3) s by simp
      note l = deliverAll_elsewhere [OF ok rest this]
      from True Some Cons.prems(5) have "c0 = c" by simp
      moreover have "map_of (deviceCaps d z') cf = Some c1"
        using l True unfolding deviceCaps_writeBack [OF Some] by simp
      ultimately show ?thesis using one l unfolding env_writeBack by (simp, blast)
    next
      case False
      have "map_of (deviceCaps d (writeBack d1 cf1 c1 (z\<lparr>env := e1\<rparr>))) cf = Some c"
        unfolding deviceCaps_writeBack [OF Some] using False Cons.prems(5) by (simp only: if_False)
      with Cons.IH [OF ok rest] Cons.prems(3,4) s False obtain e c2 e2 where
        "deliverTo I msg c e = Returns (c2, e2)" "map_of (deviceCaps d z') cf = Some c2"
        "same_data (persist h) (dataPath h d cf) (store e1) (store e)"
        "same_data (persist h) (dataPath h d cf) (store e2) (store (env z'))"
        "set (events e2) \<subseteq> set (events (env z'))" by auto
      with kept False show ?thesis by (blast intro: same_data_trans)
    qed
  qed
qed simp

text \<open>What a message does to one capability of the table.\<close>

lemma message_at:
  assumes "sys_ok h (Implementations I) z" "receiveNodeIncomingMessageEvent I parse m z = Returns z'"
    and "parse m = Inr msg" "map_of (deviceCaps d z) cf = Some c"
  shows "\<exists>e c1 e1. deliverTo I msg c e = Returns (c1, e1) \<and> map_of (deviceCaps d z') cf = Some c1 \<and>
    same_data (persist h) (dataPath h d cf) (store (env z)) (store e) \<and>
    same_data (persist h) (dataPath h d cf) (store e1) (store (env z')) \<and>
    set (events e1) \<subseteq> set (events (env z'))"
proof -
  note slots = capabilitySlots_table [OF mirrorsD(1) [OF gateway_okD(1) [OF sys_okD(1) [OF assms(1)]]]]
  have "deliverAll I msg (capabilitySlots z) z = Returns z'"
    using assms(2,3) by (simp add: receiveNodeIncomingMessageEvent_def)
  from deliverAll_at [OF assms(1) this slots(1) _ assms(4)] slots(2) assms(4) show ?thesis by simp
qed

end

section \<open>The properties\<close>

text \<open>A report of 20.00 degrees Celsius, from the node of the example and from another one.\<close>

definition exampleReport :: "IEEEAddress \<Rightarrow> zclMessage" where
  "exampleReport a = \<lparr>msgSource = a, msgSourceEndpoint = 1, msgDestinationEndpoint = 1, msgServerToClient = True,
     msgCluster = 1026, msgCommand = ReportAttributes
       [\<lparr>reportIdentifier = 0, reportValue = Some \<lparr>DataType = 0x29, Value = ZInt64 2000\<rparr>\<rparr>]\<rparr>"

lemma deliverAll_returns:
  assumes "\<And>m. \<not> snd (zclMessageCalls m msg)"
  shows "\<exists>z'. deliverAll I msg slots z = Returns z'"
proof (induction slots arbitrary: z)
  case (Cons s slots)
  obtain d cf where s: "s = (d, cf)" by (cases s)
  have "\<exists>c' e'. deliverTo I msg c e = Returns (c', e')" for c e
    using assms by (simp add: deliverTo_def list_ex_iff)
  with Cons s show ?case by (auto split: option.split outcome.split) (metis outcome.distinct(1))
qed simp

lemma exampleReport_returns:
  "\<exists>z'. receiveNodeIncomingMessageEvent exampleInterface sensorParse (exampleReport a) z = Returns z'"
proof -
  have "\<not> snd (zclMessageCalls m (exampleReport a))" for m by (simp add: zclMessageCalls_def exampleReport_def)
  from deliverAll_returns [OF this] show ?thesis by (simp add: receiveNodeIncomingMessageEvent_def)
qed

text \<open>C32: a message from a node leaves every capability alone that has no monitor listening for
  it: its state, and all it keeps in its section of the store. It does not matter what the
  handlers of other capabilities do before or after, or whether they listen for it.\<close>

theorem message_isolated:
  assumes "host_ok h" "sections I = persist h" "network_ok N" "network_endpoints N" "reachable h I N f parse R z"
    and "receiveNodeIncomingMessageEvent I parse m z = Returns z'" "parse m = Inr msg"
    and "map_of (deviceCaps d z) cf = Some c"
    and "\<forall>mon \<in> set (implMonitors c). zclFilter mon msg \<longrightarrow> m_registered mon = []"
  shows "map_of (deviceCaps d z') cf = Some c \<and>
    (\<forall>q j. prefix (dataPath h d cf) q \<longrightarrow> p_get (persist h) q j (store (env z')) = p_get (persist h) q j (store (env z)))"
proof -
  note zda = zda.intro [OF assms(1,2)]
  note sys = zda.reachable_ok [OF zda assms(5,3,4)]
  have "matching msg c = []" using assms(9) by (auto simp: matching_def)
  then have "deliverTo I msg c e = Returns (c, e)" for e by (simp add: deliverTo_def applyUpdates_def)
  with zda.message_at [OF zda sys assms(6-8)] show ?thesis by (auto simp: same_data_def)
qed

theorem message_isolated_witness:
  "\<exists>z z' i. sensorReachable [0xABCD \<mapsto> EnumDevices [(1, sensorDevice)] [sensorInventory] []] z \<and>
     receiveNodeIncomingMessageEvent exampleInterface sensorParse (exampleReport 7) z = Returns z' \<and>
     map_of (deviceCaps sensorDevice z) TemperatureSensorFlag = Some (ImplTemperature i) \<and>
     map_of (deviceCaps sensorDevice z') TemperatureSensorFlag = Some (ImplTemperature i)"
proof -
  from sensor_attached obtain z i where
    z: "sensorReachable [0xABCD \<mapsto> EnumDevices [(1, sensorDevice)] [sensorInventory] []] z"
    and c: "map_of (deviceCaps sensorDevice z) TemperatureSensorFlag = Some (ImplTemperature i)"
    and i: "m_ieee (s_monitor i) = 0xABCD" by blast
  obtain z' where z': "receiveNodeIncomingMessageEvent exampleInterface sensorParse (exampleReport 7) z = Returns z'"
    using exampleReport_returns by blast
  have "\<forall>mon \<in> set (implMonitors (ImplTemperature i)). zclFilter mon (exampleReport 7) \<longrightarrow> m_registered mon = []"
    using i by (simp add: zclFilter_def exampleReport_def)
  from message_isolated [OF memoryHost_ok exampleInterface_ok(2) exampleNetwork_ok exampleNetwork_endpoints z z' refl c this]
  show ?thesis using z z' c by blast
qed

text \<open>The capability as one of the three sensors.\<close>

fun sensorOf :: "('s, 'x) zdaInterface \<Rightarrow> implementation \<Rightarrow> (sensorKind \<times> sensor) option" where
  "sensorOf I (ImplTemperature i) = Some (temperatureSensor I, i)"
| "sensorOf I (ImplHumidity i) = Some (humiditySensor I, i)"
| "sensorOf I (ImplPressure i) = Some (pressureSensor I, i)"
| "sensorOf I _ = None"

lemma sensorOfD:
  assumes "sensorOf I c = Some (k, i)"
  shows "implMonitors c = [s_monitor i]" "prefix (implSection c) (s_section i)"
    "implUpdate I v c e = (c, sensorUpdate k I v i e)"
  using assms by (cases c; auto simp: sensor_instances sectionOf_below)+



end
