(* ===== verification/Identify_Properties.thy ===== *)
theory Identify_Properties
  imports Capability_Properties
begin

text \<open>
  What a consumer of the events of an identify capability is told: that a device identifies
  itself, and, in the end, that it no longer does.
\<close>

section \<open>What the events say\<close>

text \<open>The last word on a device.\<close>

fun identifyEvent :: "address \<Rightarrow> event \<Rightarrow> bool \<Rightarrow> bool" where
  "identifyEvent d (EvIdentifyUpdate d' b r) told = (if d' = d then b else told)"
| "identifyEvent d _ told = told"

definition toldIdentifying :: "address \<Rightarrow> event list \<Rightarrow> bool" where
  "toldIdentifying d evs = fold (identifyEvent d) evs False"

lemma toldIdentifying_append [simp]:
  "toldIdentifying d (evs @ evs') = fold (identifyEvent d) evs' (toldIdentifying d evs)"
  by (simp add: toldIdentifying_def)

lemma told_other: "\<forall>ev \<in> set evs. \<forall>b r. ev \<noteq> EvIdentifyUpdate d b r \<Longrightarrow> fold (identifyEvent d) evs told = told"
proof (induction evs arbitrary: told)
  case (Cons ev evs)
  have "identifyEvent d ev told = told" using Cons.prems by (cases ev) auto
  with Cons show ?case by simp
qed simp

text \<open>The capability in the running gateway: reports, calls of \<open>Identify\<close> and its timers, while
  everything else in the environment may change, short of events in its name.\<close>

inductive identifyRun :: "('s, 'x) zdaInterface \<Rightarrow> identify \<Rightarrow> ('s, 'x) env \<Rightarrow> bool"
  for I :: "('s, 'x) zdaInterface" where
  start: "id_timers i = 0 \<Longrightarrow> \<not> toldIdentifying (id_device i) (events e) \<Longrightarrow> identifyRun I i e"
| report: "identifyRun I i e \<Longrightarrow> identifyUpdate I v i e = (i', e') \<Longrightarrow> identifyRun I i' e'"
| call: "identifyRun I i e \<Longrightarrow> Identify I duration i e = (err, i', e') \<Longrightarrow> identifyRun I i' e'"
| timer: "identifyRun I i e \<Longrightarrow> timerFires I i e = (i', e') \<Longrightarrow> identifyRun I i' e'"
| elsewhere: "identifyRun I i e \<Longrightarrow> events e' = events e @ evs \<Longrightarrow>
    \<forall>ev \<in> set evs. \<forall>b r. ev \<noteq> EvIdentifyUpdate (id_device i) b r \<Longrightarrow> identifyRun I i e'"

section \<open>One round\<close>

lemma readClock_frame: "readClock I e = (t, e') \<Longrightarrow> store e' = store e \<and> events e' = events e"
  by (auto simp: readClock_def split: prod.splits)

lemma identifySendEvent_told:
  assumes "identifySendEvent I i e = (b, e')"
  shows "toldIdentifying (id_device i) (events e') = b" "store e' = store e"
  using assms
  by (auto simp: identifySendEvent_def sendEvent_def Let_def dest!: readClock_frame split: prod.splits)

lemma periodicSendEvent_told:
  assumes "periodicSendEvent I i e = (i', e')"
  shows "i' = i\<lparr>id_timers := (if toldIdentifying (id_device i) (events e') then 1 else 0) + id_timers i\<rparr>"
    "store e' = store e"
proof -
  obtain b e1 where s: "identifySendEvent I i e = (b, e1)" by (metis prod.exhaust)
  with assms have "i' = (if b then i\<lparr>id_timers := Suc (id_timers i)\<rparr> else i)" "e' = e1"
    by (simp_all add: periodicSendEvent_def)
  with identifySendEvent_told [OF s]
  show "i' = i\<lparr>id_timers := (if toldIdentifying (id_device i) (events e') then 1 else 0) + id_timers i\<rparr>"
    "store e' = store e" by simp_all
qed

lemma updateDuration_told:
  assumes "updateDuration I duration i e = (i', e')"
  shows "id_device i' = id_device i \<and>
    (i' = i \<and> events e' = events e \<or>
     id_timers i' = (if toldIdentifying (id_device i) (events e') then 1 else 0) + id_timers i)"
proof -
  let ?p = "id_section i"
  obtain now1 e1 where c1: "readClock I e = (now1, e1)" by (metis prod.exhaust)
  obtain now2 e2 where c2: "readClock I e1 = (now2, e2)" by (metis prod.exhaust)
  obtain now3 e3 where c3: "readClock I e2 = (now3, e3)" by (metis prod.exhaust)
  have same: "events e2 = events e" using readClock_frame [OF c1] readClock_frame [OF c2] by simp
  let ?e5 = "storeNow I ?p LastChangedKey (putKey I ?p EndTimeKey (encTime I (now3 + duration)) e3)"
  obtain i6 e6 where p: "periodicSendEvent I i ?e5 = (i6, e6)" by (metis prod.exhaust)
  have "(i', e') = (i6, storeNow I ?p LastUpdatedKey e6) \<or> (i', e') = (i, storeNow I ?p LastUpdatedKey e2)"
    using assms c1 c2 c3 p by (simp add: updateDuration_def Let_def split: if_splits) auto
  with same periodicSendEvent_told(1) [OF p] show ?thesis by auto
qed

lemma identifyRun_ok:
  assumes "identifyRun I i e"
  shows "toldIdentifying (id_device i) (events e) \<longrightarrow> 0 < id_timers i"
  using assms
proof (induction rule: identifyRun.induct)
  case (report i e v i' e')
  then show ?case
    by (auto simp: identifyUpdate_def dest!: updateDuration_told split: if_splits option.splits)
next
  case (call i e duration err i' e')
  obtain ieee lep ack sq e1 where t: "transmissionLookup (Some (id_device i)) e = ((ieee, lep, ack, sq), e1)"
    by (metis prod.exhaust)
  have e1: "events e1 = events e" using t
    by (auto simp: transmissionLookup_def takeSequence_def split: option.splits prod.splits)
  obtain r e2 where w: "onWorld (RequestIdentify I \<lparr>identAddress = ieee, identAck = ack, identSequence = sq,
      identSource = lep, identDestination = id_remote i, identTime = identifySeconds duration\<rparr>) e1 = (r, e2)"
    by (metis prod.exhaust)
  have e2: "events e2 = events e" using w e1 by (auto simp: onWorld_def split: prod.splits)
  show ?case
  proof (cases r)
    case (Inl x)
    with call(2,3) t w e2 show ?thesis by (simp add: Identify_def)
  next
    case (Inr u)
    with call(2) t w obtain d where "updateDuration I d i e2 = (i', e')"
      by (auto simp: Identify_def split: prod.splits)
    from updateDuration_told [OF this] call(3) e2 show ?thesis by auto
  qed
next
  case (timer i e i' e')
  then show ?case
    by (auto simp: Identify.timerFires_def dest!: periodicSendEvent_told(1) split: if_splits)
next
  case (elsewhere i e e' evs)
  then show ?case by (simp add: told_other)
qed simp

section \<open>The end\<close>

text \<open>Timers that fire, one after the other.\<close>

fun timersFire :: "('s, 'x) zdaInterface \<Rightarrow> nat \<Rightarrow> identify \<Rightarrow> ('s, 'x) env \<Rightarrow> identify \<times> ('s, 'x) env" where
  "timersFire I 0 i e = (i, e)"
| "timersFire I (Suc n) i e = (case timerFires I i e of (i1, e1) \<Rightarrow> timersFire I n i1 e1)"

text \<open>Worlds in which an instant is over, now and however long the clock runs on.\<close>

definition over :: "('s, 'x) zdaInterface \<Rightarrow> int \<Rightarrow> 'x set \<Rightarrow> bool" where
  "over I t W \<longleftrightarrow> (\<forall>x \<in> W. t \<le> fst (Now I x) \<and> snd (Now I x) \<in> W)"

lemma timer_after_end:
  assumes "retrieve I (decTime I) (id_section i) EndTimeKey e = Some t" "over I t W" "world e \<in> W" "0 < id_timers i"
  shows "\<exists>e'. timerFires I i e = (i\<lparr>id_timers := id_timers i - 1\<rparr>, e') \<and> store e' = store e \<and> world e' \<in> W \<and>
    events e' = events e @ [EvIdentifyUpdate (id_device i) False 0]"
proof -
  obtain now e1 where c: "readClock I e = (now, e1)" by (metis prod.exhaust)
  then have "Now I (world e) = (now, world e1)" by (auto simp: readClock_def split: prod.splits)
  with assms(2,3) have "t \<le> now" "world e1 \<in> W" unfolding over_def by (metis fst_conv snd_conv)+
  then have "\<not> 0 < timeSub t now" "world e1 \<in> W" by (simp_all add: timeSub_def)
  moreover have "retrieve I (decTime I) (id_section i) EndTimeKey e1 = Some t"
    using assms(1) readClock_frame [OF c] by (simp add: retrieve_def)
  ultimately show ?thesis
    using c readClock_frame [OF c] assms(4)
    by (simp add: Identify.timerFires_def periodicSendEvent_def identifySendEvent_def retrieveOr_def sendEvent_def Let_def)
qed

lemma timers_after_end:
  "retrieve I (decTime I) (id_section i) EndTimeKey e = Some t \<Longrightarrow> over I t W \<Longrightarrow> world e \<in> W \<Longrightarrow> id_timers i = n \<Longrightarrow>
     timersFire I n i e = (i', e') \<Longrightarrow>
     id_timers i' = 0 \<and> events e' = events e @ replicate n (EvIdentifyUpdate (id_device i) False 0)"
proof (induction n arbitrary: i e)
  case (Suc n)
  from timer_after_end [OF Suc.prems(1-3)] Suc.prems(4) obtain e1 where
    one: "timerFires I i e = (i\<lparr>id_timers := n\<rparr>, e1)" "store e1 = store e" "world e1 \<in> W"
    "events e1 = events e @ [EvIdentifyUpdate (id_device i) False 0]" by auto
  have "timersFire I n (i\<lparr>id_timers := n\<rparr>) e1 = (i', e')" using Suc.prems(5) one(1) by simp
  moreover have "retrieve I (decTime I) (id_section (i\<lparr>id_timers := n\<rparr>)) EndTimeKey e1 = Some t"
    using Suc.prems(1) one(2) by (simp add: retrieve_def)
  ultimately show ?case using Suc.IH [of "i\<lparr>id_timers := n\<rparr>" e1] Suc.prems(2) one(3,4) by simp
qed simp

text \<open>C27: whatever reports, calls and timers there have been, a consumer whose last word on a device
  is that it identifies itself will hear from the capability again: a timer is pending. Once the
  stored end has passed, each pending timer tells that it is over and starts no other, so that
  when they have fired the last word is that the device no longer identifies itself.\<close>

theorem identify_ends:
  assumes "identifyRun I i e" "retrieve I (decTime I) (id_section i) EndTimeKey e = Some t"
    and "over I t W" "world e \<in> W" "timersFire I (id_timers i) i e = (i', e')"
  shows "(toldIdentifying (id_device i) (events e) \<longrightarrow> 0 < id_timers i) \<and> id_timers i' = 0 \<and>
    \<not> toldIdentifying (id_device i) (events e') \<and>
    events e' = events e @ replicate (id_timers i) (EvIdentifyUpdate (id_device i) False 0)"
proof -
  note run = identifyRun_ok [OF assms(1)] and fired = timers_after_end [OF assms(2-4) refl assms(5)]
  have "\<not> toldIdentifying (id_device i) (events e')"
  proof (cases "id_timers i")
    case (Suc n)
    have "events e' = (events e @ replicate n (EvIdentifyUpdate (id_device i) False 0)) @ [EvIdentifyUpdate (id_device i) False 0]"
      using fired Suc by (simp add: replicate_append_same)
    then show ?thesis by (simp only: toldIdentifying_append) simp
  qed (use run fired in simp)
  with run fired show ?thesis by blast
qed

section \<open>Too many timers\<close>

text \<open>Reports of the seconds left, one after the other, each one that follows another number.\<close>

fun updateDurations ::
  "('s, 'x) zdaInterface \<Rightarrow> int list \<Rightarrow> identify \<Rightarrow> ('s, 'x) env \<Rightarrow> identify \<times> ('s, 'x) env" where
  "updateDurations I [] i e = (i, e)"
| "updateDurations I (n # ns) i e = (case updateDuration I (n * second) i e of (i1, e1) \<Rightarrow> updateDurations I ns i1 e1)"

text \<open>A time in milliseconds survives being stored.\<close>

definition times_kept :: "('s, 'x) zdaInterface \<Rightarrow> bool" where
  "times_kept I \<longleftrightarrow> (\<forall>t. 10 ^ 6 dvd t \<longrightarrow> decTime I (encTime I t) = Some t)"

lemma retrieve_putKey_time:
  "section_store (sections I) \<Longrightarrow> retrieve I dec p j (putKey I p k v e) = (if j = k then dec v else retrieve I dec p j e)"
  by (simp add: retrieve_def putKey_def section_store.get_set)

lemma retrieve_storeNow:
  "section_store (sections I) \<Longrightarrow> j \<noteq> k \<Longrightarrow> retrieve I dec p j (storeNow I p k e) = retrieve I dec p j e"
  by (simp add: retrieve_def storeNow_store section_store.get_set)

lemma retrieve_sendEvent: "retrieve I dec p j (sendEvent ev (e\<lparr>world := x\<rparr>)) = retrieve I dec p j e"
  by (simp add: retrieve_def sendEvent_def)

lemma updateDuration_starts:
  assumes S: "section_store (sections I)" and times: "times_kept I" and now: "\<forall>x. fst (Now I x) = now" "10 ^ 6 dvd now"
    and n: "0 < n" "n \<le> 65535" "0 \<le> m" "m \<le> 65535" "n \<noteq> m"
    and left: "retrieveOr I (decTime I) (id_section i) EndTimeKey now e = now + m * second"
  shows "\<exists>e'. updateDuration I (n * second) i e = (i\<lparr>id_timers := Suc (id_timers i)\<rparr>, e') \<and>
    retrieveOr I (decTime I) (id_section i) EndTimeKey now e' = now + n * second"
proof -
  let ?p = "id_section i"
  have clock: "\<exists>x. readClock I e = (now, e\<lparr>world := x\<rparr>)" for e
    using now(1) by (simp add: readClock_def split: prod.split) (metis fst_conv)
  obtain x1 where c1: "readClock I e = (now, e\<lparr>world := x1\<rparr>)" using clock by blast
  obtain x2 where c2: "readClock I (e\<lparr>world := x1\<rparr>) = (now, e\<lparr>world := x2\<rparr>)" using clock [of "e\<lparr>world := x1\<rparr>"] by auto
  obtain x3 where c3: "readClock I (e\<lparr>world := x2\<rparr>) = (now, e\<lparr>world := x3\<rparr>)" using clock [of "e\<lparr>world := x2\<rparr>"] by auto
  let ?e5 = "storeNow I ?p LastChangedKey (putKey I ?p EndTimeKey (encTime I (now + n * second)) (e\<lparr>world := x3\<rparr>))"
  have dec: "decTime I (encTime I (now + n * second)) = Some (now + n * second)"
    using times now(2) by (simp add: times_kept_def)
  have keys: "EndTimeKey \<noteq> LastChangedKey" "EndTimeKey \<noteq> LastUpdatedKey"
    by (simp_all add: EndTimeKey_def implementation_keys)
  have end5: "retrieve I (decTime I) ?p EndTimeKey ?e5 = Some (now + n * second)"
    using keys by (simp add: retrieve_storeNow [OF S] retrieve_putKey_time [OF S] dec)
  obtain x6 where c6: "readClock I ?e5 = (now, ?e5\<lparr>world := x6\<rparr>)" using clock by blast
  have "timeSub (now + n * second) now = n * second" using n by (simp add: timeSub_def)
  then have "\<exists>ev. periodicSendEvent I i ?e5 = (i\<lparr>id_timers := Suc (id_timers i)\<rparr>, sendEvent ev (?e5\<lparr>world := x6\<rparr>))"
    using end5 n(1)
    by (auto simp: periodicSendEvent_def identifySendEvent_def c6 retrieveOr_def retrieve_def Let_def)
  then obtain ev where p: "periodicSendEvent I i ?e5 = (i\<lparr>id_timers := Suc (id_timers i)\<rparr>, sendEvent ev (?e5\<lparr>world := x6\<rparr>))"
    by blast
  have "retrieveOr I (decTime I) ?p EndTimeKey now (e\<lparr>world := x1\<rparr>) = now + m * second"
    using left by (simp add: retrieveOr_def retrieve_def)
  moreover have "max 0 (timeSub (now + m * second) now) = m * second" using n by (simp add: timeSub_def)
  moreover have "250000000 \<le> durationAbs (wrap64 (m * second - n * second))"
  proof -
    have "wrap64 (m * second - n * second) = m * second - n * second"
      unfolding wrap64_def signed_of_int of_int_eq_id id_def by (rule signed_take_bit_int_eq_self) (use n in simp_all)
    then show ?thesis using n by (auto simp: durationAbs_def abs_if)
  qed
  ultimately have "updateDuration I (n * second) i e =
      (i\<lparr>id_timers := Suc (id_timers i)\<rparr>, storeNow I ?p LastUpdatedKey (sendEvent ev (?e5\<lparr>world := x6\<rparr>)))"
    using c1 c2 c3 p by (simp add: updateDuration_def Let_def)
  moreover have "retrieve I (decTime I) ?p EndTimeKey (storeNow I ?p LastUpdatedKey (sendEvent ev (?e5\<lparr>world := x6\<rparr>))) =
      Some (now + n * second)"
    unfolding retrieve_storeNow [OF S keys(2)] retrieve_sendEvent by (rule end5)
  ultimately show ?thesis by (simp add: retrieveOr_def)
qed

text \<open>Five seconds were reported; then the stored end is set back to the present.\<close>

theorem identify_ends_witness:
  "\<exists>i e i' e'. identifyRun exampleInterface i e \<and> id_timers i = 1 \<and> timersFire exampleInterface 1 i e = (i', e') \<and>
     \<not> toldIdentifying (id_device i) (events e')"
proof -
  let ?I = exampleInterface and ?i = NewIdentify
  have S: "section_store (sections ?I)" using host_okD(1) [OF memoryHost_ok] by (simp add: exampleInterface_ok(2))
  have I: "times_kept ?I" "\<forall>x. fst (Now ?I x) = 0" by (simp_all add: times_kept_def exampleInterface_def)
  have none: "retrieveOr ?I (decTime ?I) (id_section ?i) EndTimeKey 0 exampleEnv = 0 + 0 * second"
    by (simp add: retrieveOr_def retrieve_def exampleInterface_def exampleEnv_def memory_store_def memory_new_def)
  from updateDuration_starts [OF S I _ _ _ _ _ _ none, of 5] obtain e1 where
    "updateDuration ?I (5 * second) ?i exampleEnv = (?i\<lparr>id_timers := Suc (id_timers ?i)\<rparr>, e1)" by auto
  then have u: "updateDuration ?I (5 * second) ?i exampleEnv = (?i\<lparr>id_timers := 1\<rparr>, e1)" by (simp add: NewIdentify_def)
  have start: "identifyRun ?I ?i exampleEnv"
    by (rule identifyRun.start) (simp_all add: NewIdentify_def exampleEnv_def toldIdentifying_def)
  have "identifyUpdate ?I (0, \<lparr>DataType = TypeUnsignedInt16 (zcl ?I), Value = ZUint64 5\<rparr>) ?i exampleEnv = (?i\<lparr>id_timers := 1\<rparr>, e1)"
    using u by (simp add: identifyUpdate_def wrap64_def)
  from identifyRun.report [OF start this] have r1: "identifyRun ?I (?i\<lparr>id_timers := 1\<rparr>) e1" .
  let ?e = "putKey ?I (id_section ?i) EndTimeKey (encTime ?I 0) e1"
  have r: "identifyRun ?I (?i\<lparr>id_timers := 1\<rparr>) ?e" by (rule identifyRun.elsewhere [OF r1, where evs = "[]"]) simp_all
  have t: "retrieve ?I (decTime ?I) (id_section (?i\<lparr>id_timers := 1\<rparr>)) EndTimeKey ?e = Some 0"
    using I(1) by (simp add: retrieve_putKey_time [OF S] times_kept_def)
  have over: "over ?I 0 UNIV" using I(2) by (simp add: over_def)
  obtain i' e' where f: "timersFire ?I (id_timers (?i\<lparr>id_timers := 1\<rparr>)) (?i\<lparr>id_timers := 1\<rparr>) ?e = (i', e')"
    by (metis prod.exhaust)
  from identify_ends [OF r t over UNIV_I f] r f show ?thesis
    by (intro exI [of _ "?i\<lparr>id_timers := 1\<rparr>"] exI [of _ ?e] exI [of _ i'] exI [of _ e']) simp
qed

text \<open>Every report that changes the seconds left starts a timer of its own, and no timer is ever
  stopped: after reports of different numbers, one after the other, as many timers run as there
  were reports.\<close>

theorem identify_timers_add_up:
  assumes "section_store (sections I)" "times_kept I" "\<forall>x. fst (Now I x) = now" "10 ^ 6 dvd now"
    and "retrieve I (decTime I) (id_section i) EndTimeKey e = None"
    and "distinct_adj ns" "set ns \<subseteq> {1..65535}" "updateDurations I ns i e = (i', e')"
  shows "id_timers i' = id_timers i + length ns"
proof -
  have "id_timers i' = id_timers i + length ns"
    if "retrieveOr I (decTime I) (id_section i) EndTimeKey now e = now + m * second" "0 \<le> m" "m \<le> 65535"
      "distinct_adj (m # ns)" "set ns \<subseteq> {1..65535}" "updateDurations I ns i e = (i', e')" for m i e
    using that
  proof (induction ns arbitrary: m i e)
    case (Cons n ns)
    have n: "0 < n" "n \<le> 65535" "n \<noteq> m" "distinct_adj (n # ns)" "set ns \<subseteq> {1..65535}" using Cons.prems(4,5) by auto
    from updateDuration_starts [OF assms(1-4) n(1,2) Cons.prems(2,3) n(3) Cons.prems(1)] obtain e1 where
      one: "updateDuration I (n * second) i e = (i\<lparr>id_timers := Suc (id_timers i)\<rparr>, e1)"
      "retrieveOr I (decTime I) (id_section i) EndTimeKey now e1 = now + n * second" by blast
    have "updateDurations I ns (i\<lparr>id_timers := Suc (id_timers i)\<rparr>) e1 = (i', e')" using Cons.prems(6) one(1) by simp
    from Cons.IH [OF _ _ n(2) n(4,5) this] one(2) n(1) show ?case by simp
  qed simp
  from this [of i e 0] assms(5-8) show ?thesis
    by (cases ns) (auto simp: retrieveOr_def)
qed

theorem identify_timers_add_up_witness:
  "id_timers (fst (updateDurations exampleInterface [3, 2, 1] NewIdentify exampleEnv)) = 3"
proof -
  have S: "section_store (sections exampleInterface)" using host_okD(1) [OF memoryHost_ok] by (simp add: exampleInterface_ok(2))
  have I: "times_kept exampleInterface" "\<forall>x. fst (Now exampleInterface x) = 0"
    by (simp_all add: times_kept_def exampleInterface_def)
  have none: "retrieve exampleInterface (decTime exampleInterface) (id_section NewIdentify) EndTimeKey exampleEnv = None"
    by (simp add: retrieve_def exampleInterface_def exampleEnv_def memory_store_def memory_new_def)
  obtain i' e' where u: "updateDurations exampleInterface [3, 2, 1] NewIdentify exampleEnv = (i', e')" by (metis prod.exhaust)
  from identify_timers_add_up [OF S I _ none _ _ u] u show ?thesis by (simp add: NewIdentify_def)
qed

end
