(* ===== verification/Power_Properties.thy ===== *)
theory Power_Properties
  imports Monitor_Properties
begin

text \<open>
  The power supply over a restart: what it says is present is stored, and found again if it
  loads; a supply of which the mains frequency is known does not load.
\<close>

section \<open>Where values are stored\<close>

lemma boolKey_putBool:
  "section_store (sections I) \<Longrightarrow> boolKey I p j (putKey I p k (PBool b) e) = (if j = k then b else boolKey I p j e)"
  by (simp add: boolKey_def sectionBool_def section_store.get_set)

text \<open>Two stores that agree on one section.\<close>

definition agree :: "('s, 'x) zdaInterface \<Rightarrow> path \<Rightarrow> ('s, 'x) env \<Rightarrow> ('s, 'x) env \<Rightarrow> bool" where
  "agree I q e e' \<longleftrightarrow> (\<forall>j. p_get (sections I) q j (store e') = p_get (sections I) q j (store e))"

lemma agree_store: "store e' = store e \<Longrightarrow> agree I q e e'"
  by (simp add: agree_def)

lemma agree_trans: "agree I q e e' \<Longrightarrow> agree I q e' e'' \<Longrightarrow> agree I q e e''"
  by (simp add: agree_def)

lemma agree_boolKey: "agree I q e e' \<Longrightarrow> boolKey I q k e' = boolKey I q k e"
  by (simp add: agree_def boolKey_def sectionBool_def)

lemma agree_putKey: "section_store (sections I) \<Longrightarrow> q \<noteq> p \<Longrightarrow> agree I q e (putKey I p k v e)"
  by (simp add: agree_def section_store.get_set)

lemma monitorAttach_elsewhere:
  assumes S: "section_store (sections I)" and "monitorAttach I ep c a dt rc pc m e = (r, m', e')" "q \<noteq> m_config m"
  shows "agree I q e e'"
proof -
  obtain ieee lep ack sq e1 where t: "transmissionLookup (Some (m_device m)) e = ((ieee, lep, ack, sq), e1)"
    by (metis prod.exhaust)
  let ?m = "m\<lparr>m_ieee := ieee, m_local := lep, m_remote := ep, m_cluster := c, m_attribute := a, m_dataType := dt\<rparr>"
  obtain err e2 where conf: "configureReporting I rc ack sq ?m (storeConfig I ?m e1) = (err, e2)" by (metis prod.exhaust)
  have "agree I q e1 (storeConfig I ?m e1)" using assms(3) by (simp add: storeConfig_def Let_def agree_def section_store.get_set [OF S])
  moreover have "agree I q (storeConfig I ?m e1) e2"
    using configureReporting_store [OF conf] assms(3) by (auto simp: agree_def section_store.get_set [OF S])
  moreover have "agree I q e2 e'"
    using assms(2,3) t conf
    by (auto simp: monitorAttach_def Let_def agree_def section_store.get_set [OF S] split: if_splits option.splits prod.splits)
  ultimately show ?thesis using transmissionLookup_store [OF t] by (simp add: agree_def)
qed

lemma monitorLoad_store: "monitorLoad I m e = (r, m', e') \<Longrightarrow> store e' = store e"
  by (auto simp: monitorLoad_def Let_def dest!: transmissionLookup_store split: prod.splits option.splits)

section \<open>What is present\<close>

text \<open>The flags of a power supply with the keys they are stored under.\<close>

definition presence :: "(string \<times> (powerSupply \<Rightarrow> bool)) list" where
  "presence =
     [(MainsPresentKey, mainsPresent), (MainsVoltagePresentKey, mainsVoltagePresent),
      (MainsFrequencyPresentKey, mainsFrequencyPresent)] @
     concat (map (\<lambda>n. [(BatteryPresentKey n, \<lambda>i. batteryPresent i ! n),
        (BatteryPercentagePresentKey n, \<lambda>i. batteryPercentagePresent i ! n),
        (BatteryVoltagePresentKey n, \<lambda>i. batteryVoltagePresent i ! n)]) [0, 1, 2])"

lemmas power_keys = MainsPresentKey_def MainsVoltageKey_def MainsFrequencyKey_def MainsVoltagePresentKey_def
  MainsFrequencyPresentKey_def BatteryVoltageKey_def BatteryPercentageKey_def BatteryPresentKey_def
  BatteryVoltagePresentKey_def BatteryPercentagePresentKey_def

lemma Itoa_batteries: "Itoa 0 = ''0''" "Itoa 1 = ''1''" "Itoa 2 = ''2''"
  by code_simp+

lemma presence_distinct: "distinct (map fst presence)"
  by (simp add: presence_def power_keys Itoa_batteries)

lemma presence_unique: "(k, f) \<in> set presence \<Longrightarrow> (k, g) \<in> set presence \<Longrightarrow> f = g"
  using presence_distinct by (rule eq_key_imp_eq_value)

lemma presence_cases:
  "(\<forall>(k, f) \<in> set presence. P k f) \<longleftrightarrow>
     P MainsPresentKey mainsPresent \<and> P MainsVoltagePresentKey mainsVoltagePresent \<and>
     P MainsFrequencyPresentKey mainsFrequencyPresent \<and>
     (\<forall>n < 3. P (BatteryPresentKey n) (\<lambda>i. batteryPresent i ! n) \<and>
        P (BatteryPercentagePresentKey n) (\<lambda>i. batteryPercentagePresent i ! n) \<and>
        P (BatteryVoltagePresentKey n) (\<lambda>i. batteryVoltagePresent i ! n))"
proof -
  have "(\<forall>n < 3. Q n) \<longleftrightarrow> Q 0 \<and> Q 1 \<and> Q 2" for Q :: "nat \<Rightarrow> bool"
    by (auto simp: numeral_3_eq_3 less_Suc_eq numeral_2_eq_2)
  then show ?thesis by (auto simp: presence_def)
qed

text \<open>The monitors keep their configuration elsewhere.\<close>

definition power_shape :: "powerSupply \<Rightarrow> bool" where
  "power_shape i \<longleftrightarrow>
     length (batteryVoltageMonitor i) = 3 \<and> length (batteryPercentageMonitor i) = 3 \<and>
     length (batteryPresent i) = 3 \<and> length (batteryVoltagePresent i) = 3 \<and> length (batteryPercentagePresent i) = 3 \<and>
     (\<forall>m \<in> set (powerMonitors i). m_config m \<noteq> ps_section i)"

text \<open>A key that is stored belongs to a flag that is set; for the keys in \<open>D\<close> the converse.\<close>

definition flagged :: "('s, 'x) zdaInterface \<Rightarrow> string set \<Rightarrow> powerSupply \<Rightarrow> ('s, 'x) env \<Rightarrow> bool" where
  "flagged I D i e \<longleftrightarrow> power_shape i \<and>
     (\<forall>(k, f) \<in> set presence. (boolKey I (ps_section i) k e \<longrightarrow> f i) \<and>
        (k \<in> D \<and> f i \<longrightarrow> boolKey I (ps_section i) k e))"

lemma flaggedD:
  assumes "flagged I D i e"
  shows "power_shape i" "(k, f) \<in> set presence \<Longrightarrow> boolKey I (ps_section i) k e \<Longrightarrow> f i"
    "(k, f) \<in> set presence \<Longrightarrow> k \<in> D \<Longrightarrow> f i \<Longrightarrow> boolKey I (ps_section i) k e"
  using assms unfolding flagged_def by blast+

lemma flaggedI:
  assumes "power_shape i" "\<And>k f. (k, f) \<in> set presence \<Longrightarrow> boolKey I (ps_section i) k e \<Longrightarrow> f i"
    "\<And>k f. (k, f) \<in> set presence \<Longrightarrow> k \<in> D \<Longrightarrow> f i \<Longrightarrow> boolKey I (ps_section i) k e"
  shows "flagged I D i e"
  using assms unfolding flagged_def by blast

lemma flagged_agree: "flagged I D i e \<Longrightarrow> agree I (ps_section i) e e' \<Longrightarrow> flagged I D i e'"
  by (simp add: flagged_def agree_boolKey)

lemma flagged_put:
  assumes "section_store (sections I)" "flagged I D i e" "(k, f) \<in> set presence" "f i = b"
  shows "flagged I (insert k D) i (putKey I (ps_section i) k (PBool b) e)"
  using assms(4) flaggedD [OF assms(2)] presence_unique [OF assms(3)]
  by (intro flaggedI) (auto simp: boolKey_putBool [OF assms(1)] split: if_splits)

lemma flagged_put_other:
  assumes "section_store (sections I)" "flagged I D i e" "k \<notin> fst ` set presence"
  shows "flagged I D i (putKey I (ps_section i) k v e)"
proof -
  have "boolKey I (ps_section i) j (putKey I (ps_section i) k v e) = boolKey I (ps_section i) j e"
    if "(j, f) \<in> set presence" for j f
    using that assms(3) by (auto simp: boolKey_def sectionBool_def section_store.get_set [OF assms(1)] rev_image_eqI)
  with flaggedD [OF assms(2)] show ?thesis by (intro flaggedI) auto
qed

lemma flagged_absent:
  assumes "flagged I D i e" "(k, f) \<in> set presence" "\<not> f i"
  shows "flagged I (insert k D) i e"
  using flaggedD [OF assms(1)] assms(3) presence_unique [OF assms(2)] by (intro flaggedI) auto

text \<open>Flags that go up, those of \<open>K\<close> at most.\<close>

definition raises :: "string set \<Rightarrow> powerSupply \<Rightarrow> powerSupply \<Rightarrow> bool" where
  "raises K i i' \<longleftrightarrow> ps_section i' = ps_section i \<and> powerMonitors i' = powerMonitors i \<and> (power_shape i \<longrightarrow> power_shape i') \<and>
     (power_shape i \<longrightarrow> (\<forall>(k, f) \<in> set presence. (f i \<longrightarrow> f i') \<and> (k \<notin> K \<longrightarrow> f i' = f i)))"

lemma raises_refl [simp, intro]: "raises K i i"
  by (auto simp: raises_def)

lemma raises_trans: "raises K i i' \<Longrightarrow> raises K i' i'' \<Longrightarrow> raises K i i''"
  unfolding raises_def by fastforce

lemma flagged_raises:
  assumes "flagged I D i e" "raises K i i'"
  shows "flagged I (D - K) i' e"
proof (rule flaggedI)
  note ok = flaggedD [OF assms(1)] and up = assms(2) [unfolded raises_def]
  show "power_shape i'" using ok(1) up by blast
  fix k f
  assume k: "(k, f) \<in> set presence"
  with ok(1) up have f: "f i \<longrightarrow> f i'" "k \<notin> K \<longrightarrow> f i' = f i" by blast+
  show "boolKey I (ps_section i') k e \<Longrightarrow> f i'" using ok(2) [OF k] f(1) up by simp
  show "k \<in> D - K \<Longrightarrow> f i' \<Longrightarrow> boolKey I (ps_section i') k e" using ok(3) [OF k] f(2) up by simp
qed

lemma raisesI:
  assumes "ps_section i' = ps_section i" "powerMonitors i' = powerMonitors i"
    and "length (batteryVoltageMonitor i') = length (batteryVoltageMonitor i)"
      "length (batteryPercentageMonitor i') = length (batteryPercentageMonitor i)"
      "length (batteryPresent i') = length (batteryPresent i)"
      "length (batteryVoltagePresent i') = length (batteryVoltagePresent i)"
      "length (batteryPercentagePresent i') = length (batteryPercentagePresent i)"
    and "power_shape i \<Longrightarrow> \<forall>(k, f) \<in> set presence. (f i \<longrightarrow> f i') \<and> (k \<notin> K \<longrightarrow> f i' = f i)"
  shows "raises K i i'"
  using assms unfolding raises_def power_shape_def by simp

lemma nth_set_True: "m < length bs \<Longrightarrow> bs[n := True] ! m \<longleftrightarrow> m = n \<or> bs ! m"
  by (cases "n < length bs") (auto simp: nth_list_update)

abbreviation basicKeys :: "string set" where
  "basicKeys \<equiv> {MainsPresentKey, BatteryPresentKey 0, BatteryPresentKey 1}"

lemma applyPowerSource_raises: "raises basicKeys i (applyPowerSource v i)"
proof -
  have one: "raises basicKeys i (i\<lparr>mainsPresent := True\<rparr>)" for i
    by (rule raisesI) (simp_all add: presence_cases powerMonitors_def)
  have two: "raises basicKeys i (i\<lparr>batteryPresent := (batteryPresent i)[n := True]\<rparr>)" if "n = 0 \<or> n = 1" for n i
    by (rule raisesI) (use that in \<open>auto simp: presence_cases powerMonitors_def nth_set_True power_shape_def\<close>)
  show ?thesis
  proof -
    let ?low = "and v 0x0f"
    define i1 where "i1 = (if ?low \<in> {0x01, 0x02, 0x04, 0x05, 0x06} then i\<lparr>mainsPresent := True\<rparr>
        else if ?low = 0x03 then i\<lparr>batteryPresent := (batteryPresent i)[0 := True]\<rparr> else i)"
    have "raises basicKeys i i1" unfolding i1_def using one two [of 0] by (simp split: if_split)
    moreover have "applyPowerSource v i = (if and v 0x80 = 0x80 then
          i1\<lparr>batteryPresent := (batteryPresent i1)[(if batteryPresent i1 ! 0 then 1 else 0) := True]\<rparr> else i1)"
      unfolding applyPowerSource_def Let_def i1_def [symmetric] by simp
    ultimately show ?thesis using two [of "if batteryPresent i1 ! 0 then 1 else 0" i1] by (auto intro: raises_trans)
  qed
qed

lemma applyMains_raises: "raises UNIV i (snd (fold (applyMains Z) resp (a, i)))"
proof (induction resp arbitrary: a i)
  case (Cons d resp)
  have "raises UNIV i (snd (applyMains Z d (a, i)))"
    by (rule raisesI) (auto simp: applyMains_def presence_cases powerMonitors_def)
  with Cons [of "snd (applyMains Z d (a, i))" "fst (applyMains Z d (a, i))"] show ?case by (auto intro: raises_trans)
qed simp

lemma applyBattery_raises: "raises UNIV i (snd (fold (applyBattery Z n) resp (a, i)))"
proof (induction resp arbitrary: a i)
  case (Cons d resp)
  have "raises UNIV i (snd (applyBattery Z n d (a, i)))"
    by (rule raisesI)
       (auto simp: applyBattery_def presence_cases powerMonitors_def nth_set_True power_shape_def)
  with Cons [of "snd (applyBattery Z n d (a, i))" "fst (applyBattery Z n d (a, i))"] show ?case by (auto intro: raises_trans)
qed simp

section \<open>Enumerating\<close>

lemma flagged_put_if:
  assumes "section_store (sections I)" "flagged I D i e" "(k, f) \<in> set presence"
  shows "flagged I (insert k D) i (if f i then putKey I (ps_section i) k (PBool True) e else e)"
  using flagged_put [OF assms, of True] flagged_absent [OF assms(2,3)] by simp

lemma presence_members:
  "(MainsPresentKey, mainsPresent) \<in> set presence" "(MainsVoltagePresentKey, mainsVoltagePresent) \<in> set presence"
  "(MainsFrequencyPresentKey, mainsFrequencyPresent) \<in> set presence"
  "n < 3 \<Longrightarrow> (BatteryPresentKey n, \<lambda>i. batteryPresent i ! n) \<in> set presence"
  "n < 3 \<Longrightarrow> (BatteryPercentagePresentKey n, \<lambda>i. batteryPercentagePresent i ! n) \<in> set presence"
  "n < 3 \<Longrightarrow> (BatteryVoltagePresentKey n, \<lambda>i. batteryVoltagePresent i ! n) \<in> set presence"
  using presence_cases [of "\<lambda>k f. (k, f) \<in> set presence"] by auto

lemma storeBasic_flagged:
  assumes "section_store (sections I)" "flagged I (UNIV - basicKeys) i e"
  shows "flagged I UNIV i (storeBasic I i e)"
proof -
  let ?p = "ps_section i"
  define e1 where "e1 = (if mainsPresent i then putKey I ?p MainsPresentKey (PBool True) e else e)"
  define e2 where "e2 = (if batteryPresent i ! 0 then putKey I ?p (BatteryPresentKey 0) (PBool True) e1 else e1)"
  have "flagged I (insert MainsPresentKey (UNIV - basicKeys)) i e1"
    unfolding e1_def by (rule flagged_put_if [OF assms presence_members(1)])
  then have "flagged I (insert (BatteryPresentKey 0) (insert MainsPresentKey (UNIV - basicKeys))) i e2"
    unfolding e2_def using flagged_put_if [OF assms(1) _ presence_members(4) [of 0]] by simp
  note e2 = this
  have e3: "storeBasic I i e = (if batteryPresent i ! 1 then putKey I ?p (BatteryPresentKey 1) (PBool True) e2 else e2)"
    by (simp add: storeBasic_def e1_def e2_def Let_def)
  have "flagged I (insert (BatteryPresentKey 1) (insert (BatteryPresentKey 0) (insert MainsPresentKey (UNIV - basicKeys)))) i
      (storeBasic I i e)"
    unfolding e3 by (rule flagged_put_if [OF assms(1) e2 presence_members(4)]) simp
  moreover have "insert (BatteryPresentKey 1) (insert (BatteryPresentKey 0) (insert MainsPresentKey (UNIV - basicKeys))) = UNIV"
    by auto
  ultimately show ?thesis by simp
qed

lemma enumerateBasicCluster_flagged:
  assumes S: "section_store (sections I)" and "flagged I UNIV i e"
    and "enumerateBasicCluster I i e = (Returns r, i', e')"
  shows "flagged I UNIV i' e' \<and> ps_section i' = ps_section i \<and> powerMonitors i' = powerMonitors i"
proof -
  obtain ieee lep ack seq e1 where t: "transmissionLookup (Some (ps_device i)) e = ((ieee, lep, ack, seq), e1)"
    by (metis prod.exhaust)
  obtain resp e2 where q: "readPower I ieee lep ack seq (BasicId (zcl I)) [PowerSource (zcl I)] i e1 = (resp, e2)"
    by (metis prod.exhaust)
  have "store e2 = store e" using transmissionLookup_store [OF t] onWorld_store [OF q [unfolded readPower_def]] by simp
  with assms(2) have e2: "flagged I UNIV i e2" by (auto intro: flagged_agree agree_store)
  have "i' = i \<and> e' = storeBasic I i e2 \<or> (\<exists>v. i' = applyPowerSource v i \<and> e' = storeBasic I i' e2)"
    using assms(3) t q
    by (auto simp: enumerateBasicCluster_def Let_def split: sum.splits list.splits if_splits option.splits)
  then obtain up: "raises basicKeys i i'" and e': "e' = storeBasic I i' e2" using applyPowerSource_raises by blast
  from storeBasic_flagged [OF S flagged_raises [OF e2 up]] up e' show ?thesis by (simp add: raises_def)
qed

text \<open>Reading raises flags, and stores nothing.\<close>

lemma readMains_raises:
  assumes "readMains I ieee lep ack seq i e = (r, i', e')"
  shows "raises UNIV i i' \<and> store e' = store e"
proof -
  obtain resp e1 where q: "readPower I ieee lep ack seq (PowerConfigurationId (zcl I))
      [AttrMainsVoltage (zcl I), AttrMainsFrequency (zcl I)] i e = (resp, e1)" by (metis prod.exhaust)
  have "i' = i \<or> (\<exists>rs. i' = snd (fold (applyMains (zcl I)) rs (False, i)))" "e' = e1"
    using assms q by (auto simp: readMains_def split: sum.splits prod.splits) (metis snd_conv)
  with applyMains_raises onWorld_store [OF q [unfolded readPower_def]] show ?thesis by blast
qed

lemma readBattery_raises:
  assumes "readBattery I ieee lep ack n (r, i, e) = (r', i', e')"
  shows "raises UNIV i i' \<and> store e' = store e"
proof -
  obtain a err where r: "r = (a, err)" by (cases r)
  obtain x y z seq e1 where t: "transmissionLookup (Some (ps_device i)) e = ((x, y, z, seq), e1)" by (metis prod.exhaust)
  obtain resp e2 where q: "readPower I ieee lep ack seq (PowerConfigurationId (zcl I))
      [AttrBatteryVoltage (zcl I) ! n, AttrBatteryPercentage (zcl I) ! n] i e1 = (resp, e2)" by (metis prod.exhaust)
  have "i' = i \<or> (\<exists>rs. i' = snd (fold (applyBattery (zcl I) n) rs (a, i)))" "e' = e2"
    using assms q t r by (auto simp: readBattery_def split: sum.splits prod.splits) (metis snd_conv)
  with applyBattery_raises transmissionLookup_store [OF t] onWorld_store [OF q [unfolded readPower_def]]
  show ?thesis by force
qed

lemma readBatteries_raises:
  "fold (readBattery I ieee lep ack) ns (r, i, e) = (r', i', e') \<Longrightarrow> raises UNIV i i' \<and> store e' = store e"
proof (induction ns arbitrary: r i e)
  case (Cons n ns)
  obtain r1 i1 e1 where one: "readBattery I ieee lep ack n (r, i, e) = (r1, i1, e1)" by (metis prod.exhaust)
  with Cons.prems have "fold (readBattery I ieee lep ack) ns (r1, i1, e1) = (r', i', e')" by simp
  from Cons.IH [OF this] readBattery_raises [OF one] show ?case by (auto intro: raises_trans)
qed simp

text \<open>Attaching stores the flags and leaves them as they are.\<close>

definition kept :: "powerSupply \<Rightarrow> powerSupply \<Rightarrow> bool" where
  "kept i0 i \<longleftrightarrow> same_power i0 i \<and> (\<forall>(k, f) \<in> set presence. f i = f i0)"

lemma setMonitor_kept:
  assumes "kept i0 i" "same_monitor (getMonitor sl i) m"
  shows "kept i0 (setMonitor sl m i)"
proof -
  have "\<forall>(k, f) \<in> set presence. f (setMonitor sl m i) = f i" by (cases sl) (simp_all add: presence_cases)
  with assms same_power_setMonitor show ?thesis unfolding kept_def by fastforce
qed

lemma setMonitor_shape:
  assumes "power_shape i" "slot_ok sl" "same_monitor (getMonitor sl i) m"
  shows "power_shape (setMonitor sl m i)"
proof -
  have "m_config m \<noteq> ps_section i"
    using assms by (cases sl) (auto simp: power_shape_def powerMonitors_def same_monitor_def)
  with assms(1) show ?thesis
    by (cases sl) (auto simp: power_shape_def powerMonitors_def dest!: set_update_subset_insert [THEN subsetD])
qed

lemma flagged_setMonitor:
  assumes "flagged I D i e" "slot_ok sl" "same_monitor (getMonitor sl i) m"
  shows "flagged I D (setMonitor sl m i) e"
proof -
  have f: "f (setMonitor sl m i) = f i" if "(k, f) \<in> set presence" for k f
    using setMonitor_kept [of i i sl m] assms(3) that by (auto simp: kept_def)
  have p: "ps_section (setMonitor sl m i) = ps_section i" by (cases sl) simp_all
  note ok = flaggedD [OF assms(1)]
  show ?thesis
  proof (rule flaggedI)
    show "power_shape (setMonitor sl m i)" by (rule setMonitor_shape [OF ok(1) assms(2,3)])
    fix k g
    assume k: "(k, g) \<in> set presence"
    show "boolKey I (ps_section (setMonitor sl m i)) k e \<Longrightarrow> g (setMonitor sl m i)"
      unfolding f [OF k] p by (rule ok(2) [OF k])
    show "k \<in> D \<Longrightarrow> g (setMonitor sl m i) \<Longrightarrow> boolKey I (ps_section (setMonitor sl m i)) k e"
      unfolding f [OF k] p by (rule ok(3) [OF k])
  qed
qed

definition storing :: "('s, 'x) zdaInterface \<Rightarrow> powerSupply \<Rightarrow> string set \<Rightarrow> ('s, 'x) power \<Rightarrow> bool" where
  "storing I i0 D st \<longleftrightarrow> (case st of (Panics, i, e) \<Rightarrow> True | (Returns r, i, e) \<Rightarrow> kept i0 i \<and> flagged I D i e)"

lemma attachMonitor_storing:
  assumes S: "section_store (sections I)" and "storing I i0 D st" "(key, f) \<in> set presence" "b = f i0" "slot_ok sl"
  shows "storing I i0 (insert key D) (attachMonitor I sl b key a dt change st)"
proof -
  obtain r i e where st: "st = (r, i, e)" by (metis prod.exhaust)
  show ?thesis
  proof (cases r)
    case Panics
    then show ?thesis by (simp add: st attachMonitor_def storing_def)
  next
    case (Returns r1)
    then have kept: "kept i0 i" and ok: "flagged I D i e" using assms(2) by (simp_all add: storing_def st)
    have f: "f i = b" using kept assms(3,4) by (auto simp: kept_def)
    show ?thesis
    proof (cases b)
      case False
      with Returns f flagged_absent [OF ok assms(3)] kept show ?thesis
        by (simp add: st attachMonitor_def storing_def split: prod.split)
    next
      case True
      obtain att err where r1: "r1 = (att, err)" by (cases r1)
      let ?rc = "\<lparr>reportMode = AttemptConfigureReporting, MinimumInterval = 1 * minute,
          MaximumInterval = 5 * minute, ReportableChange = change\<rparr>"
      let ?pc = "\<lparr>pollMode = PollIfReportingFailed, Interval = 5 * minute\<rparr>"
      let ?e = "putKey I (ps_section i) key (PBool True) e"
      obtain r2 m e2 where at: "monitorAttach I (ps_remote i) (PowerConfigurationId (zcl I)) a dt ?rc ?pc
          (getMonitor sl i) ?e = (r2, m, e2)" by (metis prod.exhaust)
      note same = monitorAttach_same [OF at]
      have "getMonitor sl i \<in> set (powerMonitors i)"
        using assms(5) flaggedD(1) [OF ok] by (cases sl) (auto simp: power_shape_def powerMonitors_def)
      then have "ps_section i \<noteq> m_config (getMonitor sl i)" using flaggedD(1) [OF ok] by (auto simp: power_shape_def)
      note elsewhere = monitorAttach_elsewhere [OF S at this]
      have "f i = True" using f True by simp
      from flagged_agree [OF flagged_put [OF S ok assms(3) this] elsewhere]
      have "flagged I (insert key D) i e2" .
      from flagged_setMonitor [OF this assms(5) same] setMonitor_kept [OF kept same]
      show ?thesis
        by (simp add: st Returns r1 attachMonitor_def True at [simplified] storing_def
            split: outcome.split option.split)
    qed
  qed
qed

lemma put_storing:
  assumes S: "section_store (sections I)" and "storing I i0 D st" "(k, f) \<in> set presence"
  shows "storing I i0 (insert k D) (onPowerEnv (\<lambda>i. putKey I (ps_section i) k (PBool (f i))) st)"
  using assms(2) flagged_put [OF S _ assms(3)]
  by (auto simp: storing_def onPowerEnv_def split: prod.splits outcome.splits)

text \<open>The present flags the code looks at are those of the state it has read into.\<close>

lemma storing_flags:
  assumes "storing I i0 D (r, i, e)" "(k, f) \<in> set presence" "r \<noteq> Panics"
  shows "f i = f i0"
  using assms by (auto simp: storing_def kept_def split: outcome.splits)

lemma attachMains_storing:
  assumes S: "section_store (sections I)" and st: "storing I i0 D st"
  shows "storing I i0 (insert MainsFrequencyPresentKey (insert MainsVoltagePresentKey D)) (attachMains I st)"
proof -
  obtain r i e where eq: "st = (r, i, e)" by (metis prod.exhaust)
  show ?thesis
  proof (cases "r = Panics")
    case True
    then show ?thesis by (simp add: eq attachMains_def attachMonitor_def storing_def)
  next
    case False
    then have "mainsVoltagePresent i = mainsVoltagePresent i0" "mainsFrequencyPresent i = mainsFrequencyPresent i0"
      using storing_flags [OF st [unfolded eq]] presence_members(2,3) by blast+
    then show ?thesis
      unfolding attachMains_def Let_def eq fst_conv snd_conv
      by (intro attachMonitor_storing [OF S _ presence_members(3)] attachMonitor_storing [OF S _ presence_members(2)])
         (use st eq in simp_all)
  qed
qed

lemma attachBattery_storing:
  assumes S: "section_store (sections I)" and st: "storing I i0 D st" and n: "n < 3"
  shows "storing I i0 (insert (BatteryVoltagePresentKey n) (insert (BatteryPercentagePresentKey n)
    (insert (BatteryPresentKey n) D))) (attachBattery I n st)"
proof -
  obtain r i e where eq: "st = (r, i, e)" by (metis prod.exhaust)
  show ?thesis
  proof (cases "r = Panics")
    case True
    then show ?thesis by (simp add: eq attachBattery_def attachMonitor_def onPowerEnv_def storing_def)
  next
    case False
    then have "batteryVoltagePresent i ! n = batteryVoltagePresent i0 ! n"
      "batteryPercentagePresent i ! n = batteryPercentagePresent i0 ! n"
      using storing_flags [OF st [unfolded eq]] presence_members(5,6) [OF n] by blast+
    then show ?thesis
      unfolding attachBattery_def Let_def eq fst_conv snd_conv
      by (intro attachMonitor_storing [OF S _ presence_members(6) [OF n]]
            attachMonitor_storing [OF S _ presence_members(5) [OF n]] put_storing [OF S _ presence_members(4) [OF n]])
         (use st eq n in simp_all)
  qed
qed

lemma enumeratePower_flagged:
  assumes S: "section_store (sections I)" and "flagged I UNIV i e"
    and "enumeratePowerConfigurationCluster I i e = (Returns r, i', e')"
  shows "flagged I UNIV i' e'"
proof -
  obtain ieee lep ack seq e1 where t: "transmissionLookup (Some (ps_device i)) e = ((ieee, lep, ack, seq), e1)"
    by (metis prod.exhaust)
  obtain r2 i2 e2 where m: "readMains I ieee lep ack seq i e1 = (r2, i2, e2)" by (metis prod.exhaust)
  obtain r3 i3 e3 where b: "fold (readBattery I ieee lep ack) [0, 1, 2] (r2, i2, e2) = (r3, i3, e3)" by (metis prod.exhaust)
  note rm = readMains_raises [OF m] and rb = readBatteries_raises [OF b]
  have "flagged I (UNIV - UNIV) i3 e"
    by (rule flagged_raises [OF assms(2) raises_trans [OF rm [THEN conjunct1] rb [THEN conjunct1]]])
  then have "flagged I {} i3 e3"
    using rm rb transmissionLookup_store [OF t] by (auto intro: flagged_agree agree_store)
  then have s0: "storing I i3 {} (Returns r3, i3, e3)" by (simp add: storing_def kept_def)
  define st where "st = onPowerEnv (\<lambda>i. putKey I (ps_section i) MainsPresentKey (PBool (mainsPresent i))) (Returns r3, i3, e3)"
  have "storing I i3 {MainsPresentKey} st" unfolding st_def by (rule put_storing [OF S s0 presence_members(1)])
  from attachMains_storing [OF S this]
  have "storing I i3 {MainsFrequencyPresentKey, MainsVoltagePresentKey, MainsPresentKey} (attachMains I st)" .
  from attachBattery_storing [OF S attachBattery_storing [OF S attachBattery_storing [OF S this, of 0], of 1], of 2]
  have all: "storing I i3 ({BatteryVoltagePresentKey 2, BatteryPercentagePresentKey 2, BatteryPresentKey 2,
      BatteryVoltagePresentKey 1, BatteryPercentagePresentKey 1, BatteryPresentKey 1,
      BatteryVoltagePresentKey 0, BatteryPercentagePresentKey 0, BatteryPresentKey 0,
      MainsFrequencyPresentKey, MainsVoltagePresentKey, MainsPresentKey})
      (fold (attachBattery I) [0, 1, 2] (attachMains I st))" by simp
  have "fold (attachBattery I) [0, 1, 2] (attachMains I st) = (Returns r, i', e')"
    using assms(3) by (simp only: enumeratePowerConfigurationCluster_def t m b prod.case st_def)
  with all have "flagged I {BatteryVoltagePresentKey 2, BatteryPercentagePresentKey 2, BatteryPresentKey 2,
      BatteryVoltagePresentKey 1, BatteryPercentagePresentKey 1, BatteryPresentKey 1,
      BatteryVoltagePresentKey 0, BatteryPercentagePresentKey 0, BatteryPresentKey 0,
      MainsFrequencyPresentKey, MainsVoltagePresentKey, MainsPresentKey} i' e'" by (simp only: storing_def) simp
  then show ?thesis unfolding flagged_def by (auto simp: presence_def)
qed

lemma RemoteEndpointKey_other: "RemoteEndpointKey \<notin> fst ` set presence"
  by (simp add: presence_def power_keys Itoa_batteries RemoteEndpointKey_def)

lemma powerEnumerate_flagged:
  assumes S: "section_store (sections I)" and "flagged I UNIV i e" and "powerEnumerate I m i e = (Returns r, i', e')"
  shows "flagged I UNIV i' e'"
proof -
  let ?remote = "Get castEndpoint m ''ZigbeeEndpoint'' 1"
  let ?i = "i\<lparr>ps_remote := ?remote\<rparr>" and ?e = "putKey I (ps_section i) RemoteEndpointKey (PInt (uint ?remote)) e"
  have "raises {} i ?i" by (rule raisesI) (simp_all add: powerMonitors_def presence_cases)
  from flagged_raises [OF flagged_put_other [OF S assms(2) RemoteEndpointKey_other] this]
  have start: "flagged I UNIV ?i ?e" by simp
  obtain r1 i1 e1 where basic: "(if Get castBool m ''ZigbeeBasicClusterPresent'' False then
        (case enumerateBasicCluster I ?i ?e of
           (r, i2, e2) \<Rightarrow> (mergeCluster ''enumerating basic cluster'' (False, None) r, i2, e2))
      else (Returns (False, None), ?i, ?e)) = (r1, i1, e1)" by (metis prod.exhaust)
  have first: "flagged I UNIV i1 e1" if "r1 \<noteq> Panics"
    using basic that start enumerateBasicCluster_flagged [OF S start]
    by (auto simp: mergeCluster_def split: if_splits prod.splits outcome.splits)
  from assms(3) basic show ?thesis
    using first enumeratePower_flagged [OF S]
    by (auto simp: powerEnumerate_def Let_def mergeCluster_def split: if_splits outcome.splits prod.splits)
qed

section \<open>Loading\<close>

text \<open>The flags of the mains and of the first \<open>n\<close> batteries are those stored.\<close>

definition loads :: "('s, 'x) zdaInterface \<Rightarrow> path \<Rightarrow> ('s, 'x) env \<Rightarrow> nat \<Rightarrow> goerr option \<times> powerSupply \<times> ('s, 'x) env \<Rightarrow> bool" where
  "loads I p e0 n st \<longleftrightarrow> (case st of (failed, i, e) \<Rightarrow>
     store e = store e0 \<and> ps_section i = p \<and>
     length (batteryPresent i) = 3 \<and> length (batteryVoltagePresent i) = 3 \<and> length (batteryPercentagePresent i) = 3 \<and>
     (failed = None \<longrightarrow>
        mainsPresent i = boolKey I p MainsPresentKey e0 \<and>
        mainsVoltagePresent i = boolKey I p MainsVoltagePresentKey e0 \<and>
        mainsFrequencyPresent i = boolKey I p MainsFrequencyPresentKey e0 \<and>
        (\<forall>m < n. batteryPresent i ! m = boolKey I p (BatteryPresentKey m) e0 \<and>
           batteryPercentagePresent i ! m = boolKey I p (BatteryPercentagePresentKey m) e0 \<and>
           batteryVoltagePresent i ! m = boolKey I p (BatteryVoltagePresentKey m) e0)))"

lemma loadMonitor_loads:
  assumes "loads I p e0 n st"
  shows "loads I p e0 n (loadMonitor I sl b t st)"
proof -
  obtain failed i e where st: "st = (failed, i, e)" by (metis prod.exhaust)
  obtain r m e1 where load: "monitorLoad I (getMonitor sl i) e = (r, m, e1)" by (metis prod.exhaust)
  have "loads I p e0 n (failed', setMonitor sl (crashOn r m) i, e1)" if "failed' = None \<longrightarrow> failed = None" for failed'
    using assms that monitorLoad_store [OF load] by (cases sl) (auto simp: loads_def st)
  then show ?thesis using assms by (simp add: loadMonitor_def st load)
qed

lemma loadBattery_loads:
  assumes "loads I p e0 n st" "n < 3"
  shows "loads I p e0 (Suc n) (loadBattery I n st)"
proof -
  obtain failed i e where st: "st = (failed, i, e)" by (metis prod.exhaust)
  show ?thesis
  proof (cases failed)
    case (Some err)
    with assms(1) show ?thesis by (simp add: loadBattery_def st loads_def)
  next
    case None
    let ?i = "i\<lparr>batteryPresent := (batteryPresent i)[n := boolKey I p (BatteryPresentKey n) e],
        batteryPercentagePresent := (batteryPercentagePresent i)[n := boolKey I p (BatteryPercentagePresentKey n) e],
        batteryVoltagePresent := (batteryVoltagePresent i)[n := boolKey I p (BatteryVoltagePresentKey n) e]\<rparr>"
    have "store e = store e0" using assms(1) by (simp add: loads_def st)
    then have same: "boolKey I p k e = boolKey I p k e0" for k by (simp add: boolKey_def)
    have "loads I p e0 (Suc n) (None, ?i, e)"
      using assms by (auto simp: loads_def st None same nth_list_update less_Suc_eq)
    moreover have "ps_section i = p" using assms(1) by (simp add: loads_def st)
    ultimately show ?thesis
      by (simp add: loadBattery_def st None Let_def) (intro loadMonitor_loads)
  qed
qed

lemma powerLoad_flags:
  assumes "power_shape i0" "powerLoad I i0 e = ((ok, failed), i, e')"
  shows "store e' = store e \<and> ps_section i = ps_section i0 \<and> (ok \<longleftrightarrow> failed = None) \<and>
    (ok \<longrightarrow> (\<forall>(k, f) \<in> set presence. f i = boolKey I (ps_section i0) k e))"
proof -
  let ?p = "ps_section i0"
  let ?i = "i0\<lparr>mainsPresent := boolKey I ?p MainsPresentKey e, mainsVoltagePresent := boolKey I ?p MainsVoltagePresentKey e,
      mainsFrequencyPresent := boolKey I ?p MainsFrequencyPresentKey e\<rparr>"
  have "loads I ?p e 0 (None, ?i, e)" using assms(1) by (simp add: loads_def power_shape_def)
  then have "loads I ?p e (Suc 2) (fold (loadBattery I) [0, 1, 2]
      (loadMonitor I SMainsFrequency (mainsFrequencyPresent ?i) ''mains voltage frequency, attach failed''
        (loadMonitor I SMainsVoltage (mainsVoltagePresent ?i) ''mains voltage monitor, attach failed'' (None, ?i, e))))"
    (is "loads I ?p e (Suc 2) ?st")
    using loadBattery_loads [of I ?p e 0] loadBattery_loads [of I ?p e 1] loadBattery_loads [of I ?p e 2]
    by (simp add: loadMonitor_loads eval_nat_numeral)
  moreover have "?st = (failed, i, e') \<and> (ok \<longleftrightarrow> failed = None)"
    using assms(2) by (auto simp only: powerLoad_def Let_def split: prod.splits)
  ultimately show ?thesis by (simp add: loads_def presence_cases eval_nat_numeral)
qed

section \<open>The mains frequency\<close>

text \<open>No monitor but that of the frequency is configured in its section.\<close>

definition apart :: "powerSupply \<Rightarrow> bool" where
  "apart i \<longleftrightarrow> ps_section i \<noteq> m_config (mainsFrequencyMonitor i) \<and>
     (\<forall>sl. slot_ok sl \<and> sl \<noteq> SMainsFrequency \<longrightarrow> m_config (getMonitor sl i) \<noteq> m_config (mainsFrequencyMonitor i))"

definition away :: "('s, 'x) zdaInterface \<Rightarrow> powerSupply \<Rightarrow> ('s, 'x) env \<Rightarrow> 'r \<times> powerSupply \<times> ('s, 'x) env \<Rightarrow> bool" where
  "away I i0 e0 st \<longleftrightarrow> (case st of (r, i, e) \<Rightarrow>
     same_power i0 i \<and> power_shape i \<and> agree I (m_config (mainsFrequencyMonitor i0)) e0 e)"

lemma same_power_configs:
  assumes "same_power i0 i" "power_shape i" "slot_ok sl"
  shows "m_config (getMonitor sl i) = m_config (getMonitor sl i0)" "ps_section i = ps_section i0"
  using assms
  by (cases sl; auto simp: same_power_def same_monitor_def power_shape_def dest: list_all2_nthD2)+

lemma away_put:
  assumes S: "section_store (sections I)" and "apart i0" "away I i0 e0 (r, i, e)"
  shows "away I i0 e0 (r', i, putKey I (ps_section i) k v e)"
  using assms same_power_configs(2) [of i0 i SMainsVoltage] agree_putKey [OF S]
  by (auto simp: away_def apart_def intro: agree_trans)

lemma away_store: "away I i0 e0 (r, i, e) \<Longrightarrow> store e' = store e \<Longrightarrow> away I i0 e0 (r', i, e')"
  by (auto simp: away_def agree_def)

lemma away_raises: "away I i0 e0 (r, i, e) \<Longrightarrow> raises K i i' \<Longrightarrow> same_power i0 i' \<Longrightarrow> away I i0 e0 (r', i', e)"
  by (auto simp: away_def raises_def)

lemma away_attach:
  assumes S: "section_store (sections I)" and "apart i0" "away I i0 e0 st" "slot_ok sl" "sl \<noteq> SMainsFrequency"
  shows "away I i0 e0 (attachMonitor I sl b key a dt change st)"
proof -
  obtain r i e where st: "st = (r, i, e)" by (metis prod.exhaust)
  let ?rc = "\<lparr>reportMode = AttemptConfigureReporting, MinimumInterval = 1 * minute,
      MaximumInterval = 5 * minute, ReportableChange = change\<rparr>"
  let ?pc = "\<lparr>pollMode = PollIfReportingFailed, Interval = 5 * minute\<rparr>"
  let ?e = "putKey I (ps_section i) key (PBool True) e"
  obtain r2 m e2 where at: "monitorAttach I (ps_remote i) (PowerConfigurationId (zcl I)) a dt ?rc ?pc
      (getMonitor sl i) ?e = (r2, m, e2)" by (metis prod.exhaust)
  note same = monitorAttach_same [OF at]
  have i: "same_power i0 i" "power_shape i" using assms(3) by (simp_all add: st away_def)
  have "m_config (mainsFrequencyMonitor i0) \<noteq> m_config (getMonitor sl i)"
    using same_power_configs(1) [OF i assms(4)] assms(2,4,5) by (auto simp: apart_def)
  from monitorAttach_elsewhere [OF S at this]
  have "agree I (m_config (mainsFrequencyMonitor i0)) ?e e2" .
  moreover have "agree I (m_config (mainsFrequencyMonitor i0)) e0 ?e"
    using away_put [OF S assms(2) assms(3) [unfolded st], of r key "PBool True"] by (simp add: away_def)
  ultimately have "agree I (m_config (mainsFrequencyMonitor i0)) e0 e2" by (rule agree_trans [rotated])
  then have "away I i0 e0 (r', setMonitor sl m i, e2)" for r' :: "(bool \<times> goerr option) outcome"
    using same_power_setMonitor [OF i(1) same] setMonitor_shape [OF i(2) assms(4) same] by (simp add: away_def)
  then show ?thesis
    using assms(3) by (auto simp: st attachMonitor_def at [simplified] split: outcome.split prod.split option.split)
qed

lemma away_onPowerEnv:
  assumes "section_store (sections I)" "apart i0" "away I i0 e0 st"
  shows "away I i0 e0 (onPowerEnv (\<lambda>i. putKey I (ps_section i) k (v i)) st)"
proof -
  obtain r i e where st: "st = (r, i, e)" by (metis prod.exhaust)
  show ?thesis
    using assms(3) away_put [OF assms(1,2) assms(3) [unfolded st]] by (cases r) (simp_all add: st onPowerEnv_def)
qed

lemma away_fold:
  assumes "\<And>n st. n \<in> set ns \<Longrightarrow> away I i0 e0 st \<Longrightarrow> away I i0 e0 (f n st)" "away I i0 e0 st"
  shows "away I i0 e0 (fold f ns st)"
  using assms by (induction ns arbitrary: st) simp_all

lemma away_storeBasic:
  assumes S: "section_store (sections I)" and "apart i0" "away I i0 e0 (r, i, e)"
  shows "away I i0 e0 (r', i, storeBasic I i e)"
proof -
  have if_put: "away I i0 e0 (r', i, if b then putKey I (ps_section i) k v e else e)"
    if "away I i0 e0 (r', i, e)" for b k v e
    by (simp add: that away_put [OF S assms(2) that])
  have "away I i0 e0 (r', i, e)" using assms(3) by (simp add: away_def)
  then show ?thesis unfolding storeBasic_def Let_def by (simp add: if_put del: if_split)
qed

lemma away_enumerateBasic:
  assumes S: "section_store (sections I)" and "apart i0" "away I i0 e0 (r, i, e)"
  shows "away I i0 e0 (enumerateBasicCluster I i e)"
proof -
  obtain ieee lep ack seq e1 where t: "transmissionLookup (Some (ps_device i)) e = ((ieee, lep, ack, seq), e1)"
    by (metis prod.exhaust)
  obtain resp e2 where q: "readPower I ieee lep ack seq (BasicId (zcl I)) [PowerSource (zcl I)] i e1 = (resp, e2)"
    by (metis prod.exhaust)
  have "store e2 = store e" using transmissionLookup_store [OF t] onWorld_store [OF q [unfolded readPower_def]] by simp
  from away_store [OF assms(3) this] have e2: "away I i0 e0 (r', i, e2)" for r' :: "(bool \<times> goerr option) outcome" .
  have up: "away I i0 e0 (r', applyPowerSource v i, e2)" for v and r' :: "(bool \<times> goerr option) outcome"
    by (rule away_raises [OF e2 applyPowerSource_raises])
       (use assms(3) in \<open>simp add: away_def same_power_apply\<close>)
  show ?thesis
    by (simp add: enumerateBasicCluster_def t q Let_def e2 away_storeBasic [OF S assms(2) e2]
        away_storeBasic [OF S assms(2) up] split: sum.split list.split option.split)
qed

lemma away_enumeratePower:
  assumes S: "section_store (sections I)" and "apart i0" "away I i0 e0 (r, i, e)"
  shows "away I i0 e0 (enumeratePowerConfigurationCluster I i e)"
proof -
  obtain ieee lep ack seq e1 where t: "transmissionLookup (Some (ps_device i)) e = ((ieee, lep, ack, seq), e1)"
    by (metis prod.exhaust)
  obtain r2 i2 e2 where m: "readMains I ieee lep ack seq i e1 = (r2, i2, e2)" by (metis prod.exhaust)
  obtain r3 i3 e3 where b: "fold (readBattery I ieee lep ack) [0, 1, 2] (r2, i2, e2) = (r3, i3, e3)" by (metis prod.exhaust)
  note rm = readMains_raises [OF m] and rb = readBatteries_raises [OF b]
  have "pinv I i e1 (readMains I ieee lep ack seq i e1)" by (rule readMains_pinv) (rule pinv_init)
  then have "pinv I i e1 (fold (readBattery I ieee lep ack) [0, 1, 2] (readMains I ieee lep ack seq i e1))"
    by (intro pinv_fold readBattery_pinv)
  then have "same_power i i3" by (simp add: m b [simplified])
  moreover have "same_power i0 i" using assms(3) by (simp add: away_def)
  ultimately have same: "same_power i0 i3" by (rule same_power_trans [rotated])
  have "away I i0 e0 (r3, i3, e)"
    by (rule away_raises [OF assms(3) raises_trans [OF rm [THEN conjunct1] rb [THEN conjunct1]] same])
  then have "away I i0 e0 (Returns r3, i3, e3)"
    by (rule away_store) (use rm rb transmissionLookup_store [OF t] in simp)
  then have "away I i0 e0 (fold (attachBattery I) [0, 1, 2] (attachMains I (onPowerEnv
      (\<lambda>i. putKey I (ps_section i) MainsPresentKey (PBool (mainsPresent i))) (Returns r3, i3, e3))))"
    unfolding attachMains_def attachBattery_def Let_def
    by (intro away_fold away_attach away_onPowerEnv S assms(2)) auto
  then show ?thesis by (simp only: enumeratePowerConfigurationCluster_def t m b prod.case)
qed

lemma away_result: "away I i0 e0 (r, i, e) \<Longrightarrow> away I i0 e0 (r', i, e)"
  by (simp add: away_def)

lemma powerEnumerate_away:
  assumes S: "section_store (sections I)" and "apart i" "power_shape i" and "powerEnumerate I m i e = (r, i', e')"
  shows "away I i e (r, i', e')"
proof -
  let ?remote = "Get castEndpoint m ''ZigbeeEndpoint'' 1"
  let ?i = "i\<lparr>ps_remote := ?remote\<rparr>" and ?e = "putKey I (ps_section i) RemoteEndpointKey (PInt (uint ?remote)) e"
  have "raises {} i ?i" by (rule raisesI) (simp_all add: powerMonitors_def presence_cases)
  moreover have "away I i e (r, i, e)" using assms(3) by (simp add: away_def agree_store)
  ultimately have "away I i e (r, ?i, e)" by (auto intro: away_raises)
  from away_put [OF S assms(2) this]
  have start: "away I i e (r', ?i, ?e)" for r' :: "(bool \<times> goerr option) outcome" by simp
  define st where "st = (if Get castBool m ''ZigbeeBasicClusterPresent'' False then
        (case enumerateBasicCluster I ?i ?e of
           (r, i2, e2) \<Rightarrow> (mergeCluster ''enumerating basic cluster'' (False, None) r, i2, e2))
      else (Returns (False, None), ?i, ?e))"
  obtain r1 i1 e1 where st1: "st = (r1, i1, e1)" by (metis prod.exhaust)
  have "away I i e st"
    using away_enumerateBasic [OF S assms(2) start] start unfolding st_def by (auto split: prod.split intro: away_result)
  then have basic: "away I i e (r', i1, e1)" for r' :: "(bool \<times> goerr option) outcome"
    unfolding st1 by (rule away_result)
  have "away I i e (case enumeratePowerConfigurationCluster I i1 e1 of (r, i3, e3) \<Rightarrow> (f r, i3, e3))"
    for f :: "_ \<Rightarrow> (bool \<times> goerr option) outcome"
    using away_enumeratePower [OF S assms(2) basic] by (auto split: prod.split intro: away_result)
  then have "away I i e (powerEnumerate I m i e)"
    unfolding powerEnumerate_def Let_def st_def [symmetric] st1 by (simp add: basic split: outcome.split)
  then show ?thesis by (simp only: assms(4))
qed

section \<open>Restarting\<close>

text \<open>The flags are those in the section, as they are before the first enumeration.\<close>

definition power_stored :: "('s, 'x) zdaInterface \<Rightarrow> powerSupply \<Rightarrow> ('s, 'x) env \<Rightarrow> bool" where
  "power_stored I i e \<longleftrightarrow> power_shape i \<and>
     list_all (\<lambda>(k, f). f i \<longleftrightarrow> boolKey I (ps_section i) k e) presence"

lemma power_stored_flagged: "power_stored I i e \<longleftrightarrow> flagged I UNIV i e"
  unfolding power_stored_def flagged_def list_all_iff by blast

text \<open>The status depends on the flags and on what is stored.\<close>

lemma powerStatus_cong:
  assumes "\<And>k f. (k, f) \<in> set presence \<Longrightarrow> f i' = f i" and "\<And>k. floatKey I (ps_section i') k e' = floatKey I (ps_section i) k e"
  shows "powerStatus I i' e' = powerStatus I i e"
proof -
  have same: "mainsPresent i' = mainsPresent i" "mainsVoltagePresent i' = mainsVoltagePresent i"
    "mainsFrequencyPresent i' = mainsFrequencyPresent i"
    using presence_members(1-3) by (simp_all only: assms(1))
  have bat: "batteryPresent i' ! n = batteryPresent i ! n" "batteryVoltagePresent i' ! n = batteryVoltagePresent i ! n"
    "batteryPercentagePresent i' ! n = batteryPercentagePresent i ! n" if "n < 3" for n
    using assms(1) [OF presence_members(4) [OF that]] assms(1) [OF presence_members(5) [OF that]]
      assms(1) [OF presence_members(6) [OF that]] by simp_all
  have "batteryState I i' e' n = batteryState I i e n" if "n < 3" for n
    by (simp only: batteryState_def assms(2) bat [OF that])
  moreover have "filter (\<lambda>n. batteryPresent i' ! n) [0, 1, 2] = filter (\<lambda>n. batteryPresent i ! n) [0, 1, 2]"
    by (rule filter_cong) (auto simp: bat)
  ultimately have "map (batteryState I i' e') (filter (\<lambda>n. batteryPresent i' ! n) [0, 1, 2]) =
      map (batteryState I i e) (filter (\<lambda>n. batteryPresent i ! n) [0, 1, 2])"
    by (auto intro!: map_cong)
  then show ?thesis by (simp only: powerStatus_def mainsState_def same assms(2))
qed

text \<open>A power supply just initialised in an empty section.\<close>

lemma frequency_key:
  "MainsVoltageKey \<noteq> MainsFrequencyKey" "BatteryVoltageKey n \<noteq> MainsFrequencyKey" "BatteryPercentageKey n \<noteq> MainsFrequencyKey"
  by (simp_all add: MainsVoltageKey_def MainsFrequencyKey_def BatteryVoltageKey_def BatteryPercentageKey_def)

lemma monitorPath_other: "monitorPath p k \<noteq> p" "p \<noteq> monitorPath p k" "monitorPath p k = monitorPath p k' \<longleftrightarrow> k = k'"
  by (simp_all add: monitorPath_def)

lemma powerInit_shape:
  assumes "powerInit I d p NewPowerSupply e = (i, e')"
  shows "power_shape i" "ps_section i = p" "m_config (mainsFrequencyMonitor i) = monitorPath p MainsFrequencyKey"
    "(k, f) \<in> set presence \<Longrightarrow> \<not> f i" "apart i"
proof -
  let ?mon = "\<lambda>k. monitorInit (monitorPath p k) d NewMonitor"
  have i: "i = NewPowerSupply\<lparr>ps_section := p, ps_device := d, mainsVoltageMonitor := ?mon MainsVoltageKey,
      mainsFrequencyMonitor := ?mon MainsFrequencyKey,
      batteryVoltageMonitor := map (\<lambda>n. ?mon (BatteryVoltageKey n)) [0, 1, 2],
      batteryPercentageMonitor := map (\<lambda>n. ?mon (BatteryPercentageKey n)) [0, 1, 2]\<rparr>"
    using assms by (simp only: powerInit_def Let_def prod.inject)
  have mon: "m_config (?mon k) = monitorPath p k" for k by (simp add: monitorInit_def)
  have nth: "map g [0, 1, 2] ! n = g n" if "n < 3" for g :: "nat \<Rightarrow> zclMonitor" and n
    using that by (auto simp: numeral_3_eq_3 less_Suc_eq numeral_2_eq_2)
  show "power_shape i" "ps_section i = p" "m_config (mainsFrequencyMonitor i) = monitorPath p MainsFrequencyKey"
    unfolding i by (simp_all add: power_shape_def powerMonitors_def mon monitorPath_other NewPowerSupply_def)
  have "\<forall>(k, f) \<in> set presence. \<not> f i" unfolding presence_cases i by (simp add: NewPowerSupply_def)
  then show "(k, f) \<in> set presence \<Longrightarrow> \<not> f i" by blast
  have "m_config (getMonitor sl i) \<noteq> monitorPath p MainsFrequencyKey" if "slot_ok sl" "sl \<noteq> SMainsFrequency" for sl
    using that by (cases sl) (simp_all add: i nth mon monitorPath_other frequency_key del: list.map)
  then show "apart i" unfolding apart_def by (simp add: i mon monitorPath_other)
qed

text \<open>C26: what the enumeration has found of a power supply is still there after a restart: a
  power supply that loads from the same section has the same parts present, and its status is
  that before the restart.\<close>

theorem power_restart:
  assumes "section_store (sections I)" "power_stored I i e"
    and "powerEnumerate I m i e = (Returns r, i1, e1)"
    and "store e2 = store e1" "power_shape i0" "ps_section i0 = ps_section i"
    and "powerLoad I i0 e2 = ((True, failed), i2, e3)"
  shows "list_all (\<lambda>(k, f). f i2 = f i1) presence \<and>
    powerStatus I i2 e3 = powerStatus I i1 e1"
proof -
  have f1: "flagged I UNIV i1 e1"
    using powerEnumerate_flagged [OF assms(1) _ assms(3)] assms(2) by (simp only: power_stored_flagged)
  have "same_power i i1" using powerEnumerate_pinv [OF assms(1), of i e m] assms(3) by simp
  then have p1: "ps_section i1 = ps_section i" by (simp add: same_power_def)
  from powerLoad_flags [OF assms(5,7)]
  have st: "store e3 = store e1" and p2: "ps_section i2 = ps_section i"
    and loaded: "\<forall>(k, f) \<in> set presence. f i2 = boolKey I (ps_section i) k e2" by (simp_all add: assms(4,6))
  have key: "boolKey I p k e2 = boolKey I p k e1" "boolKey I p k e3 = boolKey I p k e1"
    "floatKey I p k e3 = floatKey I p k e1" for p k
    by (simp_all add: boolKey_def floatKey_def assms(4) st)
  have same: "f i2 = f i1" if k: "(k, f) \<in> set presence" for k f
  proof -
    from loaded k have "f i2 = boolKey I (ps_section i1) k e1" by (auto simp: key p1)
    with flaggedD(2,3) [OF f1 k] show ?thesis by blast
  qed
  have "powerStatus I i2 e3 = powerStatus I i1 e1"
    by (rule powerStatus_cong) (simp_all only: same key p1 p2)
  with same show ?thesis by (auto simp: list_all_iff)
qed

text \<open>A monitor with no endpoint in its section does not load, and once one monitor of a power
  supply has not loaded, no more are tried.\<close>

lemma monitorLoad_nothing:
  assumes "retrieve I (decEndpoint I) (m_config m) RemoteEndpointKey e = None"
  shows "\<exists>m' e'. monitorLoad I m e = (Returns (Some (Err (''monitor missing config parameter: '' @ RemoteEndpointKey))), m', e')"
proof -
  obtain ieee lep ack seq e1 where t: "transmissionLookup (Some (m_device m)) e = ((ieee, lep, ack, seq), e1)"
    by (metis prod.exhaust)
  have "retrieve I (decEndpoint I) (m_config m) RemoteEndpointKey e1 = None"
    using assms transmissionLookup_store [OF t] by (simp add: retrieve_def)
  then show ?thesis by (simp add: monitorLoad_def t missing_def Let_def)
qed

lemma failed_stays: "fold (loadBattery I) ns (Some err, i, e) = (Some err, i, e)"
  by (induction ns) (simp_all add: loadBattery_def)

lemma frequency_does_not_load:
  assumes "boolKey I (ps_section i) MainsFrequencyPresentKey e"
    and "retrieve I (decEndpoint I) (m_config (mainsFrequencyMonitor i)) RemoteEndpointKey e = None"
  shows "\<exists>err i' e'. powerLoad I i e = ((False, Some err), i', e')"
proof -
  let ?p = "ps_section i"
  let ?i = "i\<lparr>mainsPresent := boolKey I ?p MainsPresentKey e, mainsVoltagePresent := boolKey I ?p MainsVoltagePresentKey e,
      mainsFrequencyPresent := boolKey I ?p MainsFrequencyPresentKey e\<rparr>"
  let ?st1 = "loadMonitor I SMainsVoltage (mainsVoltagePresent ?i) ''mains voltage monitor, attach failed'' (None, ?i, e)"
  obtain failed i1 e1 where st1: "?st1 = (failed, i1, e1)" by (metis prod.exhaust)
  have "mainsFrequencyMonitor i1 = mainsFrequencyMonitor i \<and> store e1 = store e"
    using st1 by (auto simp: loadMonitor_def dest: monitorLoad_store split: if_splits prod.splits)
  with assms(2) obtain m2 e2 where load: "failed = None \<Longrightarrow> monitorLoad I (getMonitor SMainsFrequency i1) e1 =
      (Returns (Some (Err (''monitor missing config parameter: '' @ RemoteEndpointKey))), m2, e2)"
    using monitorLoad_nothing [of I "getMonitor SMainsFrequency i1" e1] by (auto simp: retrieve_def)
  obtain err i2 e2' where "loadMonitor I SMainsFrequency (mainsFrequencyPresent ?i) ''mains voltage frequency, attach failed''
      (failed, i1, e1) = (Some err, i2, e2')"
    using load assms(1) by (cases failed) (auto simp: loadMonitor_def)
  then show ?thesis unfolding powerLoad_def Let_def st1 by (simp only: failed_stays prod.case) simp
qed

text \<open>C40: the frequency of the mains is monitored by the monitor of the voltage, whose section then
  holds its configuration, and the monitor of the frequency is never attached. \<open>Load\<close> asks for
  that monitor and finds no configuration, so a device whose mains supply has told its frequency
  loses the capability when the gateway restarts.\<close>

theorem mains_frequency_not_loaded:
  assumes "section_store (sections I)" "power_stored I i e" "apart i"
    and "retrieve I (decEndpoint I) (m_config (mainsFrequencyMonitor i)) RemoteEndpointKey e = None"
    and "powerEnumerate I m i e = (Returns r, i1, e1)" "mainsFrequencyPresent i1"
    and "store e2 = store e1" "ps_section i0 = ps_section i"
      "m_config (mainsFrequencyMonitor i0) = m_config (mainsFrequencyMonitor i)"
  shows "\<exists>err i2 e3. powerLoad I i0 e2 = ((False, Some err), i2, e3)"
proof (rule frequency_does_not_load)
  have f0: "flagged I UNIV i e" using assms(2) by (simp only: power_stored_flagged)
  have f1: "flagged I UNIV i1 e1" by (rule powerEnumerate_flagged [OF assms(1) f0 assms(5)])
  have "away I i e (Returns r, i1, e1)" by (rule powerEnumerate_away [OF assms(1,3) flaggedD(1) [OF f0] assms(5)])
  then have p1: "ps_section i1 = ps_section i" and kept: "agree I (m_config (mainsFrequencyMonitor i)) e e1"
    by (simp_all add: away_def same_power_def)
  have "boolKey I (ps_section i1) MainsFrequencyPresentKey e1"
    using flaggedD(3) [OF f1 presence_members(3)] assms(6) by simp
  then show "boolKey I (ps_section i0) MainsFrequencyPresentKey e2" using p1 assms(7,8) by (simp add: boolKey_def)
  show "retrieve I (decEndpoint I) (m_config (mainsFrequencyMonitor i0)) RemoteEndpointKey e2 = None"
    using assms(4,7,9) kept by (simp add: retrieve_def agree_def)
qed

text \<open>A network that answers one attribute.\<close>

definition answering :: "AttributeID \<Rightarrow> 64 word \<Rightarrow> (memory, unit) zdaInterface" where
  "answering a v = exampleInterface\<lparr>ReadOnce := (\<lambda>q x.
     (Inr (if a \<in> set (readAttributes q) then
             [\<lparr>Identifier = a, RecordStatus = 0, DataTypeValue = Some \<lparr>DataType = 0x20, Value = ZUint64 v\<rparr>\<rparr>]
           else []), x))\<rparr>"

lemma answering_fields [simp]:
  "sections (answering a v) = memory_store" "zcl (answering a v) = zclStandard" "section_store memory_store"
  using host_okD(1) [OF memoryHost_ok] by (simp_all add: answering_def exampleInterface_def memoryHost_def)

lemma answering_reads:
  "readPower (answering a v) ieee lep ack seq c as i e =
     (Inr (if a \<in> set as then [\<lparr>Identifier = a, RecordStatus = 0, DataTypeValue = Some \<lparr>DataType = 0x20, Value = ZUint64 v\<rparr>\<rparr>]
           else []), e)"
  by (simp add: readPower_def answering_def onWorld_def)

lemma answering_mains:
  "readMains (answering 1 v) ieee lep ack seq i e =
     ((True, None), i\<lparr>mainsPresent := True, mainsFrequencyPresent := True\<rparr>, e)"
  by (simp add: readMains_def answering_reads applyMains_def zclStandard_def)

lemma answering_battery:
  assumes "n < 3"
  shows "readBattery (answering 1 v) ieee lep ack n (r, i, e) = (r, i, snd (transmissionLookup (Some (ps_device i)) e))"
proof -
  have n: "n = 0 \<or> n = 1 \<or> n = 2" using assms by linarith
  have "AttrBatteryVoltage zclStandard ! n \<noteq> 1" "AttrBatteryPercentage zclStandard ! n \<noteq> 1"
    using n by (elim disjE; simp add: zclStandard_def)+
  then show ?thesis by (simp add: readBattery_def answering_reads split: prod.split)
qed

text \<open>A power supply that has just been initialised has nothing stored.\<close>

definition newPower :: powerSupply where
  "newPower = fst (powerInit exampleInterface (addressOf 7 0) [] NewPowerSupply exampleEnv)"

lemma newPower_shape:
  "power_shape newPower" "ps_section newPower = []" "m_config (mainsFrequencyMonitor newPower) = monitorPath [] MainsFrequencyKey"
  "(k, f) \<in> set presence \<Longrightarrow> \<not> f newPower" "apart newPower"
  by (rule powerInit_shape [of exampleInterface "addressOf 7 0" "[]" exampleEnv newPower
        "snd (powerInit exampleInterface (addressOf 7 0) [] NewPowerSupply exampleEnv)"]; simp add: newPower_def)+

lemma nothing_stored: "p_get memory_store p k (store exampleEnv) = None"
  by (simp add: memory_store_def exampleEnv_def memory_new_def)

lemma newPower_stored: "power_stored (answering a v) newPower exampleEnv"
  using newPower_shape by (auto simp: power_stored_def list_all_iff boolKey_def sectionBool_def nothing_stored)

text \<open>With no value monitored, nothing can fail.\<close>

lemma powerLoad_quiet:
  assumes "\<not> boolKey I (ps_section i) MainsVoltagePresentKey e" "\<not> boolKey I (ps_section i) MainsFrequencyPresentKey e"
    and "\<And>n. n < 3 \<Longrightarrow> \<not> boolKey I (ps_section i) (BatteryPercentagePresentKey n) e"
    and "\<And>n. n < 3 \<Longrightarrow> \<not> boolKey I (ps_section i) (BatteryVoltagePresentKey n) e"
    and "length (batteryPercentagePresent i) = 3" "length (batteryVoltagePresent i) = 3"
  shows "fst (powerLoad I i e) = (True, None)"
proof -
  let ?p = "ps_section i"
  have step: "\<exists>j. loadBattery I n (None, i', e) = (None, j, e) \<and> ps_section j = ?p \<and>
      length (batteryPercentagePresent j) = 3 \<and> length (batteryVoltagePresent j) = 3"
    if "n < 3" "ps_section i' = ?p" "length (batteryPercentagePresent i') = 3" "length (batteryVoltagePresent i') = 3" for n i'
    using that assms(3,4) by (simp add: loadBattery_def loadMonitor_def Let_def)
  let ?i = "i\<lparr>mainsPresent := boolKey I ?p MainsPresentKey e, mainsVoltagePresent := False, mainsFrequencyPresent := False\<rparr>"
  obtain i1 where 1: "loadBattery I 0 (None, ?i, e) = (None, i1, e)" "ps_section i1 = ?p"
    "length (batteryPercentagePresent i1) = 3" "length (batteryVoltagePresent i1) = 3"
    using step [of 0 ?i] assms(5,6) by auto
  obtain i2 where 2: "loadBattery I 1 (None, i1, e) = (None, i2, e)" "ps_section i2 = ?p"
    "length (batteryPercentagePresent i2) = 3" "length (batteryVoltagePresent i2) = 3"
    using step [of 1 i1] 1 by auto
  obtain i3 where 3: "loadBattery I 2 (None, i2, e) = (None, i3, e)" using step [of 2 i2] 2 by auto
  have "powerLoad I i e = ((True, None), i3, e)"
    using 1(1) 2(1) 3 by (simp add: powerLoad_def Let_def loadMonitor_def assms(1,2))
  then show ?thesis by simp
qed

text \<open>A lamp on the mains with a battery as backup.\<close>

theorem power_restart_witness:
  "\<exists>i1 e1 i2 e3. powerEnumerate (answering 7 0x81) [(''ZigbeeBasicClusterPresent'', AnyBool True)] newPower exampleEnv =
      (Returns (True, None), i1, e1) \<and> mainsPresent i1 \<and> batteryPresent i1 ! 0 \<and>
    powerLoad (answering 7 0x81) newPower e1 = ((True, None), i2, e3) \<and> mainsPresent i2 \<and> batteryPresent i2 ! 0 \<and>
    powerStatus (answering 7 0x81) i2 e3 = powerStatus (answering 7 0x81) i1 e1"
proof -
  let ?I = "answering 7 0x81" and ?m = "[(''ZigbeeBasicClusterPresent'', AnyBool True)] :: Settings"
  let ?i = "newPower\<lparr>ps_remote := 1\<rparr>"
  let ?i1 = "?i\<lparr>mainsPresent := True, batteryPresent := (batteryPresent newPower)[0 := True]\<rparr>"
  have S: "section_store (sections ?I)" by simp
  have none: "\<not> batteryPresent newPower ! 0" using newPower_shape(4) [OF presence_members(4) [of 0]] by simp
  have up: "applyPowerSource 0x81 ?i = ?i1" by (simp add: applyPowerSource_def none)
  have reads: "readPower ?I ieee lep ack seq 0 [7] i e =
      (Inr [\<lparr>Identifier = 7, RecordStatus = 0, DataTypeValue = Some \<lparr>DataType = 0x20, Value = ZUint64 0x81\<rparr>\<rparr>], e)"
    for ieee lep ack seq i e by (simp add: answering_reads)
  let ?e = "putKey ?I (ps_section newPower) RemoteEndpointKey (PInt 1) exampleEnv"
  obtain ieee lep ack seq e where t: "transmissionLookup (Some (ps_device newPower)) ?e = ((ieee, lep, ack, seq), e)"
    by (metis prod.exhaust)
  define e1 where "e1 = storeBasic ?I ?i1 e"
  have "enumerateBasicCluster ?I ?i ?e = (Returns (True, None), ?i1, e1)"
    by (simp add: enumerateBasicCluster_def t reads zclStandard_def Let_def up [simplified] e1_def)
  then have en: "powerEnumerate ?I ?m newPower exampleEnv = (Returns (True, None), ?i1, e1)"
    by (simp add: powerEnumerate_def Let_def Get_def mergeCluster_def)
  have f1: "flagged ?I UNIV ?i1 e1"
    using powerEnumerate_flagged [OF S _ en] newPower_stored by (simp only: power_stored_flagged)
  obtain ok failed i2 e3 where lo: "powerLoad ?I newPower e1 = ((ok, failed), i2, e3)" by (metis prod.exhaust)
  note no = newPower_shape(4)
  have "fst (powerLoad ?I newPower e1) = (True, None)"
  proof (rule powerLoad_quiet)
    show "\<not> boolKey ?I (ps_section newPower) MainsVoltagePresentKey e1"
      using flaggedD(2) [OF f1 presence_members(2)] no [OF presence_members(2)] by auto
    show "\<not> boolKey ?I (ps_section newPower) MainsFrequencyPresentKey e1"
      using flaggedD(2) [OF f1 presence_members(3)] no [OF presence_members(3)] by auto
    show "\<not> boolKey ?I (ps_section newPower) (BatteryPercentagePresentKey n) e1" if "n < 3" for n
      using flaggedD(2) [OF f1 presence_members(5) [OF that]] no [OF presence_members(5) [OF that]] by auto
    show "\<not> boolKey ?I (ps_section newPower) (BatteryVoltagePresentKey n) e1" if "n < 3" for n
      using flaggedD(2) [OF f1 presence_members(6) [OF that]] no [OF presence_members(6) [OF that]] by auto
  qed (use newPower_shape(1) in \<open>simp_all add: power_shape_def\<close>)
  then have ok: "powerLoad ?I newPower e1 = ((True, None), i2, e3)" by (simp add: lo)
  from power_restart [OF S newPower_stored en refl newPower_shape(1) refl ok]
  have same: "\<forall>(k, f) \<in> set presence. f i2 = f ?i1" and st: "powerStatus ?I i2 e3 = powerStatus ?I ?i1 e1"
    unfolding list_all_iff by blast+
  have "mainsPresent i2" using same presence_members(1) by fastforce
  moreover have "batteryPresent ?i1 ! 0" using newPower_shape(1) by (simp add: power_shape_def)
  moreover have "batteryPresent i2 ! 0" using same presence_members(4) [of 0] calculation(2) by fastforce
  ultimately show ?thesis using en ok st by fastforce
qed

lemma answering_attaches:
  assumes "\<not> boolKey (answering b v) (m_config m) PollingConfiguredKey e"
    and "reportMode rc = AttemptConfigureReporting" "pollMode pc = PollIfReportingFailed"
  shows "fst (monitorAttach (answering b v) ep c a dt rc pc m e) = Returns None"
proof -
  have S: "section_store memory_store" by simp
  obtain ieee lep ack sq e1 where t: "transmissionLookup (Some (m_device m)) e = ((ieee, lep, ack, sq), e1)"
    by (metis prod.exhaust)
  have w: "onWorld f e = (fst (f (world e)), e\<lparr>world := snd (f (world e))\<rparr>)" for f :: "('r, unit) call" and e :: "(memory, unit) env"
    by (simp add: onWorld_def split: prod.split)
  have "boolKey (answering b v) (m_config m) PollingConfiguredKey e1 = boolKey (answering b v) (m_config m) PollingConfiguredKey e"
    using transmissionLookup_store [OF t] by (simp add: boolKey_def)
  moreover have "BindNodeToController (answering b v) = (\<lambda>_ _ _ _ x. (Inr (), x))" "ConfigureReporting (answering b v) = (\<lambda>_ x. (Inr (), x))"
    by (simp_all add: answering_def exampleInterface_def)
  ultimately show ?thesis
    using assms
    by (simp add: monitorAttach_def t Let_def configureReporting_def storeConfig_def w reattach_def registerMatch_def
        boolKey_def sectionBool_def putKey_def section_store.get_set [OF S] monitor_keys)
qed

lemma attachBattery_absent:
  "\<not> batteryPercentagePresent i ! n \<Longrightarrow> \<not> batteryVoltagePresent i ! n \<Longrightarrow>
     attachBattery I n (Returns r, i, e) = (Returns r, i, putKey I (ps_section i) (BatteryPresentKey n) (PBool (batteryPresent i ! n)) e)"
  by (simp add: attachBattery_def attachMonitor_def onPowerEnv_def Let_def split: prod.split)

text \<open>A supply on the mains that tells its frequency when it is enumerated.\<close>

theorem mains_frequency_not_loaded_witness:
  "\<exists>i1 e1. powerEnumerate (answering 1 50) [(''ZigbeePowerConfigurationClusterPresent'', AnyBool True)] newPower exampleEnv =
      (Returns (True, None), i1, e1) \<and> mainsFrequencyPresent i1 \<and>
    (\<exists>err i2 e2. powerLoad (answering 1 50) newPower e1 = ((False, Some err), i2, e2))"
proof -
  let ?I = "answering 1 50" and ?m = "[(''ZigbeePowerConfigurationClusterPresent'', AnyBool True)] :: Settings"
  let ?i = "newPower\<lparr>ps_remote := 1\<rparr>"
  let ?i1 = "?i\<lparr>mainsPresent := True, mainsFrequencyPresent := True\<rparr>"
  have S: "section_store (sections ?I)" by simp
  let ?e = "putKey ?I (ps_section newPower) RemoteEndpointKey (PInt 1) exampleEnv"
  obtain ieee lep ack seq e1 where t: "transmissionLookup (Some (ps_device newPower)) ?e = ((ieee, lep, ack, seq), e1)"
    by (metis prod.exhaust)
  obtain e2 where reads: "fold (readBattery ?I ieee lep ack) [0, 1, 2] ((True, None), ?i1, e1) = ((True, None), ?i1, e2)"
    by (simp add: answering_battery)
  have stored: "store e2 = store ?e" using readBatteries_raises [OF reads] transmissionLookup_store [OF t] by simp
  have quiet: "\<not> batteryPercentagePresent newPower ! n" "\<not> batteryVoltagePresent newPower ! n" if "n < 3" for n
    using newPower_shape(4) [OF presence_members(5) [OF that]] newPower_shape(4) [OF presence_members(6) [OF that]] by auto
  have voltage: "\<not> mainsVoltagePresent newPower" by (rule newPower_shape(4) [OF presence_members(2)])
  let ?rc = "\<lparr>reportMode = AttemptConfigureReporting, MinimumInterval = 1 * minute,
      MaximumInterval = 5 * minute, ReportableChange = 1\<rparr>"
  let ?pc = "\<lparr>pollMode = PollIfReportingFailed, Interval = 5 * minute\<rparr>"
  let ?e3 = "putKey ?I (ps_section ?i1) MainsFrequencyPresentKey (PBool True) (putKey ?I (ps_section ?i1) MainsPresentKey (PBool True) e2)"
  obtain r m e4 where at: "monitorAttach ?I (ps_remote ?i1) (PowerConfigurationId (zcl ?I)) (AttrMainsFrequency (zcl ?I))
      (TypeUnsignedInt8 (zcl ?I)) ?rc ?pc (getMonitor SMainsVoltage ?i1) ?e3 = (r, m, e4)" by (metis prod.exhaust)
  have "PollingConfiguredKey \<noteq> MainsFrequencyPresentKey" "PollingConfiguredKey \<noteq> MainsPresentKey"
    "PollingConfiguredKey \<noteq> RemoteEndpointKey"
    by (simp_all add: monitor_keys power_keys)
  then have "\<not> boolKey ?I (m_config (getMonitor SMainsVoltage ?i1)) PollingConfiguredKey ?e3"
    by (simp add: boolKey_def sectionBool_def section_store.get_set stored nothing_stored)
  from answering_attaches [OF this, of ?rc ?pc] at have "r = Returns None" by (metis fst_conv ReportingConfig.select_convs(1) PollingConfig.select_convs(1))
  then have "attachMains ?I (Returns (True, None), ?i1, putKey ?I (ps_section ?i1) MainsPresentKey (PBool True) e2) =
      (Returns (True, None), setMonitor SMainsVoltage m ?i1, e4)"
    using at [simplified] by (simp add: attachMains_def attachMonitor_def Let_def voltage)
  then obtain e5 where "enumeratePowerConfigurationCluster ?I ?i ?e = (Returns (True, None), setMonitor SMainsVoltage m ?i1, e5)"
    using reads by (simp add: enumeratePowerConfigurationCluster_def t answering_mains onPowerEnv_def attachBattery_absent quiet)
  then have en: "powerEnumerate ?I ?m newPower exampleEnv = (Returns (True, None), setMonitor SMainsVoltage m ?i1, e5)"
    by (simp add: powerEnumerate_def Let_def Get_def mergeCluster_def)
  have "\<exists>err i2 e6. powerLoad ?I newPower e5 = ((False, Some err), i2, e6)"
    by (rule mains_frequency_not_loaded [OF S newPower_stored newPower_shape(5) _ en _ refl refl refl])
       (simp_all add: retrieve_def nothing_stored)
  with en show ?thesis by fastforce
qed

end
