(* ===== verification/Locks.thy ===== *)
theory Locks
  imports Capability_Interface
begin

text \<open>
  Locks and the event channel. For each function of the gateway that takes a lock or sends an
  event, the order in which it does so, in the order of its source; what it computes in between
  is in the other theories. Goroutines run these sequences step by step, interleaved.
\<close>

section \<open>Mutexes and actions\<close>

text \<open>The read-write mutexes: \<open>z.nodeLock\<close>, \<open>n.m\<close>, \<open>d.m\<close>, \<open>d.eda.m\<close>, and those of the
  implementations (\<open>g.m\<close>, \<open>i.m\<close>, \<open>i.timerMutex\<close>).\<close>

datatype mutex = NodeLock | NodeMutex IEEEAddress | DeviceMutex address | ResultsMutex address
  | ImplMutex address Capability

datatype mode = Writer | Reader

text \<open>\<open>Lock\<close> of a \<open>sync.RWMutex\<close> first keeps out other writers and new readers and then
  awaits the readers that are still in. \<open>Send\<close> and \<open>Receive\<close> are those of the event channel.\<close>

datatype action = Announce mutex | Await mutex | Unlock mutex | RLock mutex | RUnlock mutex
  | Send | Receive

text \<open>What runs under a mutex that is unlocked in the end, mostly by a \<open>defer\<close>.\<close>

definition locked :: "mutex \<Rightarrow> action list \<Rightarrow> action list" where
  "locked m p = Announce m # Await m # p @ [Unlock m]"

definition rlocked :: "mutex \<Rightarrow> action list \<Rightarrow> action list" where
  "rlocked m p = RLock m # p @ [RUnlock m]"

section \<open>The table\<close>

definition createNode_locks :: "action list" where
  "createNode_locks = locked NodeLock []"

definition getNode_locks :: "action list" where
  "getNode_locks = rlocked NodeLock []"

definition removeNode_locks :: "action list" where
  "removeNode_locks = locked NodeLock []"

definition getDevice_locks :: "address \<Rightarrow> bool \<Rightarrow> action list" where
  "getDevice_locks d known = getNode_locks @ (if known then rlocked (NodeMutex (IEEEAddress d)) [] else [])"

definition getDevicesOnNode_locks :: "IEEEAddress \<Rightarrow> action list" where
  "getDevicesOnNode_locks a = rlocked (NodeMutex a) []"

text \<open>\<open>getDevices\<close> takes the lock of each node while it holds that of the table.\<close>

definition getDevices_locks :: "IEEEAddress list \<Rightarrow> action list" where
  "getDevices_locks as = locked NodeLock (concat (map getDevicesOnNode_locks as))"

definition createSpecificDevice_locks :: "IEEEAddress \<Rightarrow> action list" where
  "createSpecificDevice_locks a = locked (NodeMutex a) [Send, Send, Send]"

definition createNextDevice_locks :: "IEEEAddress \<Rightarrow> action list" where
  "createNextDevice_locks a = locked (NodeMutex a) [] @ createSpecificDevice_locks a"

definition setDeviceUniqueId_locks :: "address \<Rightarrow> action list" where
  "setDeviceUniqueId_locks d = locked (DeviceMutex d) []"

text \<open>Calls of implementations, and what is attached and detached around them: a call that
  takes the implementation's own mutex (\<open>Some\<close> of its flag), or an event (\<open>None\<close>).\<close>

definition implCalls_locks :: "address \<Rightarrow> Capability option list \<Rightarrow> action list" where
  "implCalls_locks d calls =
     concat (map (\<lambda>call. case call of None \<Rightarrow> [Send] | Some cf \<Rightarrow> locked (ImplMutex d cf) []) calls)"

text \<open>\<open>removeDevice\<close> of a device that is (not) found, on a node that is (not) known.\<close>

definition removeDevice_locks :: "bool \<Rightarrow> bool \<Rightarrow> address \<Rightarrow> Capability option list \<Rightarrow> action list" where
  "removeDevice_locks known found d calls =
     getNode_locks @
     (if known then
        locked (NodeMutex (IEEEAddress d))
          (if found then rlocked (DeviceMutex d) (implCalls_locks d calls) @ [Send, Send, Send] else [])
      else [])"

section \<open>The provider loop\<close>

definition receiveNodeJoinEvent_locks :: "IEEEAddress \<Rightarrow> bool \<Rightarrow> action list" where
  "receiveNodeJoinEvent_locks a created = createNode_locks @ (if created then createNextDevice_locks a else [])"

definition receiveNodeLeaveEvent_locks ::
  "IEEEAddress \<Rightarrow> bool \<Rightarrow> (bool \<times> bool \<times> address \<times> Capability option list) list \<Rightarrow> action list" where
  "receiveNodeLeaveEvent_locks a known devices =
     getNode_locks @
     (if known then
        getDevicesOnNode_locks a @
        concat (map (\<lambda>(known, found, d, calls). removeDevice_locks known found d calls) devices) @ removeNode_locks
      else [])"

text \<open>\<open>providerLoadNode\<close>: each device, whether it has a unique id, and what its capabilities do.\<close>

definition providerLoadNode_locks :: "IEEEAddress \<Rightarrow> (address \<times> bool \<times> Capability option list) list \<Rightarrow> action list" where
  "providerLoadNode_locks a devices =
     createNode_locks @
     concat (map (\<lambda>(d, hasId, calls).
        createSpecificDevice_locks a @ (if hasId then setDeviceUniqueId_locks d else []) @ implCalls_locks d calls) devices)"

section \<open>Enumeration\<close>

definition sendStarts_locks :: "IEEEAddress \<Rightarrow> address list \<Rightarrow> action list" where
  "sendStarts_locks a ds = rlocked (NodeMutex a) (map (\<lambda>_. Send) ds)"

definition enumerationStatus_locks :: "address \<Rightarrow> action list" where
  "enumerationStatus_locks d = rlocked (ResultsMutex d) []"

definition sendStops_locks :: "IEEEAddress \<Rightarrow> address list \<Rightarrow> action list" where
  "sendStops_locks a ds =
     rlocked (NodeMutex a)
       (concat (map (\<lambda>d. rlocked (DeviceMutex d) (enumerationStatus_locks d) @ [Send]) ds))"

text \<open>The loops that look at the devices of a node under its lock.\<close>

definition lookAtDevices_locks :: "IEEEAddress \<Rightarrow> address list \<Rightarrow> action list" where
  "lookAtDevices_locks a ds = rlocked (NodeMutex a) (concat (map (\<lambda>d. rlocked (DeviceMutex d) []) ds))"

text \<open>\<open>updateNodeTable\<close>: the devices looked at for one without id, those looked at for each
  wanted id, the devices given an id (new ones or not), those looked at for superfluous ones,
  and those removed.\<close>

definition updateNodeTable_locks ::
  "IEEEAddress \<Rightarrow> address list \<Rightarrow> address list list \<Rightarrow> (bool \<times> address) list \<Rightarrow> address list
    \<Rightarrow> (bool \<times> bool \<times> address \<times> Capability option list) list \<Rightarrow> action list" where
  "updateNodeTable_locks a ds compared given ds' removed =
     lookAtDevices_locks a ds @
     lookAtDevices_locks a (concat compared) @
     concat (map (\<lambda>(new, d). (if new then createNextDevice_locks a else []) @ setDeviceUniqueId_locks d) given) @
     lookAtDevices_locks a ds' @
     concat (map (\<lambda>(known, found, d, calls). removeDevice_locks known found d calls) removed)"

text \<open>\<open>updateCapabilitiesOnDevice\<close> works on the whole device under its lock. The results are
  stored under theirs.\<close>

definition updateCapabilities_locks :: "address \<times> Capability option list \<Rightarrow> action list" where
  "updateCapabilities_locks = (\<lambda>(d, calls). locked (DeviceMutex d) (implCalls_locks d calls) @ locked (ResultsMutex d) [])"

text \<open>\<open>enumerate\<close> of a node, one whose queries and rules succeed and one that stops before
  (\<open>work = []\<close>).\<close>

definition enumerate_locks :: "IEEEAddress \<Rightarrow> address list \<Rightarrow> action list \<Rightarrow> address list \<Rightarrow> action list" where
  "enumerate_locks a ds work ds' = sendStarts_locks a ds @ work @ sendStops_locks a ds'"

section \<open>Everything else\<close>

text \<open>\<open>device.Capability\<close> and \<open>device.Capabilities\<close>.\<close>

definition deviceCapability_locks :: "address \<Rightarrow> action list" where
  "deviceCapability_locks d = rlocked (DeviceMutex d) []"

text \<open>\<open>periodicSendEvent\<close> of identify. (Sensors, power supplies and discovery only send.)\<close>

definition periodicSendEvent_locks :: "address \<Rightarrow> action list" where
  "periodicSendEvent_locks d = Send # locked (ImplMutex d IdentifyFlag) []"

text \<open>What a goroutine of the program, or one of a caller, can do in a sequence: the provider
  loop, enumerations, timers, pollers and messages, and calls from outside.\<close>

inductive goroutine :: "action list \<Rightarrow> bool" where
  idle: "goroutine []"
| sequence: "goroutine p \<Longrightarrow> goroutine q \<Longrightarrow> goroutine (p @ q)"
| load: "goroutine (providerLoadNode_locks a devices)"
| join: "goroutine (receiveNodeJoinEvent_locks a created)"
| leave: "goroutine (receiveNodeLeaveEvent_locks a known leaving)"
| enumeration: "goroutine (enumerate_locks a ds
    (updateNodeTable_locks a seen compared given seen' removed @ concat (map updateCapabilities_locks work)) ds')"
| no_enumeration: "goroutine (enumerate_locks a ds [] ds')"
| message: "goroutine (implCalls_locks d calls)"
| timer: "goroutine (periodicSendEvent_locks d)"
| devices: "goroutine (getDevices_locks as)"
| device: "goroutine (getDevice_locks d known)"
| capability: "goroutine (deviceCapability_locks d)"
| status: "goroutine (enumerationStatus_locks d)"
| implementation: "goroutine (rlocked (ImplMutex d cf) [])"
| event: "goroutine [Send]"

section \<open>Running\<close>

record thread =
  held :: "(mutex \<times> mode) list"
  todo :: "action list"

text \<open>The goroutines, and how many events are in the channel.\<close>

type_synonym config = "thread list \<times> nat"

definition holds :: "thread list \<Rightarrow> mutex \<Rightarrow> mode \<Rightarrow> bool" where
  "holds ts m w = list_ex (\<lambda>t. (m, w) \<in> set (held t)) ts"

text \<open>An action, unless it has to wait: the mutexes held after it and the events in the
  channel. The channel has room for one.\<close>

fun act :: "action \<Rightarrow> thread list \<Rightarrow> (mutex \<times> mode) list \<Rightarrow> nat \<Rightarrow> ((mutex \<times> mode) list \<times> nat) option" where
  "act (Announce m) ts hs n = (if holds ts m Writer then None else Some ((m, Writer) # hs, n))"
| "act (Await m) ts hs n = (if holds ts m Reader then None else Some (hs, n))"
| "act (Unlock m) ts hs n = Some (remove1 (m, Writer) hs, n)"
| "act (RLock m) ts hs n = (if holds ts m Writer then None else Some ((m, Reader) # hs, n))"
| "act (RUnlock m) ts hs n = Some (remove1 (m, Reader) hs, n)"
| "act Send ts hs n = (if n = 0 then Some (hs, 1) else None)"
| "act Receive ts hs n = (case n of 0 \<Rightarrow> None | Suc k \<Rightarrow> Some (hs, k))"

definition runThread :: "nat \<Rightarrow> config \<Rightarrow> config option" where
  "runThread i c =
     (case c of (ts, n) \<Rightarrow>
        if i < length ts then
          (case todo (ts ! i) of
             [] \<Rightarrow> None
           | a # p \<Rightarrow>
               (case act a ts (held (ts ! i)) n of
                  None \<Rightarrow> None
                | Some (hs, k) \<Rightarrow> Some (ts[i := \<lparr>held = hs, todo = p\<rparr>], k)))
        else None)"

text \<open>A step of any goroutine, or, when there is a consumer that does nothing but call
  \<open>ReadEvent\<close>, a read of it.\<close>

inductive lockStep :: "bool \<Rightarrow> config \<Rightarrow> config \<Rightarrow> bool" for reader where
  thread: "runThread i c = Some c' \<Longrightarrow> lockStep reader c c'"
| read: "reader \<Longrightarrow> lockStep reader (ts, Suc n) (ts, n)"

inductive_cases lockStepE: "lockStep reader c c'"

end
