(* ===== verification/Lock_Properties.thy ===== *)
theory Lock_Properties
  imports Locks
begin

text \<open>
  What the locks of the gateway give: mutual exclusion, no deadlock as long as somebody reads
  the events, and a deadlock when the reader of the events calls the gateway in between.
\<close>

section \<open>The order of the locks\<close>

text \<open>Every sequence takes its mutexes in ascending rank and gives them back in reverse.\<close>

fun rank :: "mutex \<Rightarrow> nat" where
  "rank NodeLock = 0"
| "rank (NodeMutex _) = 1"
| "rank (DeviceMutex _) = 2"
| "rank (ResultsMutex _) = 3"
| "rank (ImplMutex _ _) = 3"

definition lower :: "(mutex \<times> mode) list \<Rightarrow> mutex \<Rightarrow> bool" where
  "lower hs m \<longleftrightarrow> (\<forall>h \<in> set hs. rank (fst h) < rank m)"

fun disciplined :: "(mutex \<times> mode) list \<Rightarrow> action list \<Rightarrow> bool" where
  "disciplined hs [] \<longleftrightarrow> hs = []"
| "disciplined hs (Announce m # p) \<longleftrightarrow> lower hs m \<and> (\<exists>q. p = Await m # q) \<and> disciplined ((m, Writer) # hs) p"
| "disciplined hs (Await m # p) \<longleftrightarrow> hs \<noteq> [] \<and> hd hs = (m, Writer) \<and> disciplined hs p"
| "disciplined hs (Unlock m # p) \<longleftrightarrow> (\<exists>hs'. hs = (m, Writer) # hs' \<and> disciplined hs' p)"
| "disciplined hs (RLock m # p) \<longleftrightarrow> lower hs m \<and> disciplined ((m, Reader) # hs) p"
| "disciplined hs (RUnlock m # p) \<longleftrightarrow> (\<exists>hs'. hs = (m, Reader) # hs' \<and> disciplined hs' p)"
| "disciplined hs (Send # p) \<longleftrightarrow> disciplined hs p"
| "disciplined hs (Receive # p) \<longleftrightarrow> False"

text \<open>A sequence that can be put in front of others without changing their discipline.\<close>

definition nested :: "(mutex \<times> mode) list \<Rightarrow> action list \<Rightarrow> bool" where
  "nested hs p \<longleftrightarrow> (\<forall>q. disciplined hs q \<longrightarrow> disciplined hs (p @ q))"

named_theorems nesting

lemma nested_Nil [nesting]: "nested hs []"
  by (simp add: nested_def)

lemma nested_append [nesting]: "nested hs p \<Longrightarrow> nested hs q \<Longrightarrow> nested hs (p @ q)"
  by (simp add: nested_def)

lemma nested_Send [nesting]: "nested hs p \<Longrightarrow> nested hs (Send # p)"
  by (simp add: nested_def)

lemma nested_concat [nesting]: "(\<And>x. x \<in> set xs \<Longrightarrow> nested hs (f x)) \<Longrightarrow> nested hs (concat (map f xs))"
  by (induction xs) (auto intro: nesting)

lemma nested_sends [nesting]: "nested hs (map (\<lambda>_. Send) xs)"
  by (induction xs) (auto intro: nesting)

lemma nested_locked [nesting]:
  assumes "lower hs m" "nested ((m, Writer) # hs) p"
  shows "nested hs (locked m p)"
  unfolding nested_def
proof (intro allI impI)
  fix q
  assume "disciplined hs q"
  then have "disciplined ((m, Writer) # hs) (p @ Unlock m # q)"
    using assms(2) [unfolded nested_def, rule_format, of "Unlock m # q"] by simp
  then show "disciplined hs (locked m p @ q)" using assms(1) by (simp add: locked_def)
qed

lemma nested_rlocked [nesting]:
  assumes "lower hs m" "nested ((m, Reader) # hs) p"
  shows "nested hs (rlocked m p)"
  unfolding nested_def
proof (intro allI impI)
  fix q
  assume "disciplined hs q"
  then have "disciplined ((m, Reader) # hs) (p @ RUnlock m # q)"
    using assms(2) [unfolded nested_def, rule_format, of "RUnlock m # q"] by simp
  then show "disciplined hs (rlocked m p @ q)" using assms(1) by (simp add: rlocked_def)
qed

lemma lower_simps [simp, nesting]: "lower [] m" "lower (h # hs) m \<longleftrightarrow> rank (fst h) < rank m \<and> lower hs m"
  by (auto simp: lower_def)

section \<open>The program keeps to it\<close>

lemma implCalls_nested [nesting]: "list_all (\<lambda>h. rank (fst h) < 3) hs \<Longrightarrow> nested hs (implCalls_locks d calls)"
  unfolding implCalls_locks_def
  by (intro nested_concat) (auto simp: list_all_iff lower_def intro!: nesting split: option.split)

lemma table_nested [nesting]:
  "nested [] createNode_locks" "nested [] getNode_locks" "nested [] removeNode_locks" "nested [] (getDevice_locks d known)"
  "nested [] (getDevicesOnNode_locks a)" "nested [] (getDevices_locks as)" "nested [] (createSpecificDevice_locks a)"
  "nested [] (createNextDevice_locks a)" "nested [] (setDeviceUniqueId_locks d)" "nested [] (removeDevice_locks known found d calls)"
  by (auto simp: createNode_locks_def getNode_locks_def removeNode_locks_def getDevice_locks_def getDevicesOnNode_locks_def
      getDevices_locks_def createSpecificDevice_locks_def createNextDevice_locks_def setDeviceUniqueId_locks_def
      removeDevice_locks_def intro!: nesting)

lemma enumeration_nested [nesting]:
  "nested [] (sendStarts_locks a ds)" "nested [] (enumerationStatus_locks d)" "nested [] (sendStops_locks a ds)"
  "nested [] (lookAtDevices_locks a ds)" "nested [] (updateNodeTable_locks a ds compared given ds' removed)"
  "nested [] (updateCapabilities_locks work)" "nested [] (deviceCapability_locks d)" "nested [] (periodicSendEvent_locks d)"
  by (auto simp: sendStarts_locks_def enumerationStatus_locks_def sendStops_locks_def lookAtDevices_locks_def
      updateNodeTable_locks_def updateCapabilities_locks_def deviceCapability_locks_def periodicSendEvent_locks_def
      intro!: nesting split: prod.split)

lemma goroutine_nested: "goroutine p \<Longrightarrow> nested [] p"
  by (induction rule: goroutine.induct)
     (auto simp: receiveNodeJoinEvent_locks_def receiveNodeLeaveEvent_locks_def providerLoadNode_locks_def
       enumerate_locks_def intro!: nesting)

lemma goroutine_disciplined: "goroutine p \<Longrightarrow> disciplined [] p"
  using goroutine_nested [of p] unfolding nested_def by (metis append_Nil2 disciplined.simps(1))

section \<open>Mutual exclusion\<close>

text \<open>What always holds of a run: the discipline of each goroutine, its mutexes in descending
  order, and that one that writes, once it has waited for the readers, is alone.\<close>

definition ordered :: "(mutex \<times> mode) list \<Rightarrow> bool" where
  "ordered hs \<longleftrightarrow> sorted_wrt (\<lambda>h h'. rank (fst h') < rank (fst h)) hs"

definition behaved :: "thread \<Rightarrow> bool" where
  "behaved t \<longleftrightarrow> disciplined (held t) (todo t) \<and> ordered (held t)"

definition awaits :: "thread \<Rightarrow> mutex \<Rightarrow> bool" where
  "awaits t m \<longleftrightarrow> (\<exists>p. todo t = Await m # p)"

definition exclusive :: "thread list \<Rightarrow> bool" where
  "exclusive ts \<longleftrightarrow>
     (\<forall>i < length ts. \<forall>j < length ts. \<forall>m. i \<noteq> j \<and> (m, Writer) \<in> set (held (ts ! i)) \<longrightarrow>
        (m, Writer) \<notin> set (held (ts ! j)) \<and> (\<not> awaits (ts ! i) m \<longrightarrow> (m, Reader) \<notin> set (held (ts ! j))))"

definition runs_ok :: "config \<Rightarrow> bool" where
  "runs_ok c \<longleftrightarrow> list_all behaved (fst c) \<and> snd c \<le> 1 \<and> exclusive (fst c)"

lemma holds_iff: "holds ts m w \<longleftrightarrow> (\<exists>j < length ts. (m, w) \<in> set (held (ts ! j)))"
proof
  assume "holds ts m w"
  then obtain t where "t \<in> set ts" "(m, w) \<in> set (held t)" by (auto simp: holds_def list_ex_iff)
  then show "\<exists>j < length ts. (m, w) \<in> set (held (ts ! j))" by (metis in_set_conv_nth)
qed (auto simp: holds_def list_ex_iff)

lemma exclusiveD:
  assumes "exclusive ts" "i < length ts" "j < length ts" "i \<noteq> j" "(m, Writer) \<in> set (held (ts ! i))"
  shows "(m, Writer) \<notin> set (held (ts ! j))" "\<not> awaits (ts ! i) m \<Longrightarrow> (m, Reader) \<notin> set (held (ts ! j))"
  using assms unfolding exclusive_def by blast+

lemma runThread_cases:
  assumes "runThread i (ts, n) = Some c'"
  obtains a p hs k where "i < length ts" "todo (ts ! i) = a # p" "act a ts (held (ts ! i)) n = Some (hs, k)"
    "c' = (ts[i := \<lparr>held = hs, todo = p\<rparr>], k)"
  using assms by (auto simp: runThread_def split: if_splits list.splits option.splits)

text \<open>One action of a goroutine that is behaved.\<close>

lemma act_behaved:
  assumes "behaved t" "todo t = a # p" "act a ts (held t) n = Some (hs, k)" "n \<le> 1"
  shows "behaved \<lparr>held = hs, todo = p\<rparr>" "k \<le> 1"
  using assms by (cases a; auto simp: behaved_def ordered_def lower_def split: if_splits)+

lemma exclusive_update:
  assumes ex: "exclusive ts" and i: "i < length ts"
    and new: "\<And>j m. j < length ts \<Longrightarrow> j \<noteq> i \<Longrightarrow> (m, Writer) \<in> set (held t) \<Longrightarrow>
        (m, Writer) \<notin> set (held (ts ! j)) \<and> (\<not> awaits t m \<longrightarrow> (m, Reader) \<notin> set (held (ts ! j)))"
    and old: "\<And>j m. j < length ts \<Longrightarrow> j \<noteq> i \<Longrightarrow> (m, Writer) \<in> set (held (ts ! j)) \<Longrightarrow>
        (m, Writer) \<notin> set (held t) \<and> (\<not> awaits (ts ! j) m \<longrightarrow> (m, Reader) \<notin> set (held t))"
  shows "exclusive (ts[i := t])"
  unfolding exclusive_def
proof (intro allI impI)
  fix k j m
  assume k: "k < length (ts[i := t])" and j: "j < length (ts[i := t])" and kj: "k \<noteq> j \<and> (m, Writer) \<in> set (held (ts[i := t] ! k))"
  consider "k = i" | "j = i" "k \<noteq> i" | "k \<noteq> i" "j \<noteq> i" by blast
  then show "(m, Writer) \<notin> set (held (ts[i := t] ! j)) \<and>
      (\<not> awaits (ts[i := t] ! k) m \<longrightarrow> (m, Reader) \<notin> set (held (ts[i := t] ! j)))"
  proof cases
    case 1
    with new [of j m] j kj i show ?thesis by simp
  next
    case 2
    with old [of k m] k kj i show ?thesis by simp
  next
    case 3
    with exclusiveD [OF ex, of k j m] k j kj show ?thesis by simp
  qed
qed

lemma act_exclusive:
  assumes ex: "exclusive ts" and i: "i < length ts" and b: "behaved (ts ! i)"
    and "todo (ts ! i) = a # p" and "act a ts (held (ts ! i)) n = Some (hs, k)"
  shows "exclusive (ts[i := \<lparr>held = hs, todo = p\<rparr>])"
proof (rule exclusive_update [OF ex i])
  fix j m
  assume j: "j < length ts" "j \<noteq> i"
  from ex i j have here: "(m, Writer) \<in> set (held (ts ! i)) \<Longrightarrow>
      (m, Writer) \<notin> set (held (ts ! j)) \<and> (\<not> awaits (ts ! i) m \<longrightarrow> (m, Reader) \<notin> set (held (ts ! j)))"
    and there: "(m, Writer) \<in> set (held (ts ! j)) \<Longrightarrow>
      (m, Writer) \<notin> set (held (ts ! i)) \<and> (\<not> awaits (ts ! j) m \<longrightarrow> (m, Reader) \<notin> set (held (ts ! i)))"
    using exclusiveD [OF ex i j(1) j(2) [symmetric]] exclusiveD [OF ex j(1) i j(2)] by blast+
  show "(m, Writer) \<in> set (held \<lparr>held = hs, todo = p\<rparr>) \<Longrightarrow>
      (m, Writer) \<notin> set (held (ts ! j)) \<and>
      (\<not> awaits \<lparr>held = hs, todo = p\<rparr> m \<longrightarrow> (m, Reader) \<notin> set (held (ts ! j)))"
    using assms(4,5) b here j
    by (cases a; auto simp: behaved_def awaits_def holds_iff split: if_splits dest: notin_set_remove1)
  show "(m, Writer) \<in> set (held (ts ! j)) \<Longrightarrow>
      (m, Writer) \<notin> set (held \<lparr>held = hs, todo = p\<rparr>) \<and>
      (\<not> awaits (ts ! j) m \<longrightarrow> (m, Reader) \<notin> set (held \<lparr>held = hs, todo = p\<rparr>))"
    using assms(4,5) b there j
    by (cases a; auto simp: behaved_def awaits_def holds_iff split: if_splits dest: notin_set_remove1)
qed

text \<open>A fresh start: nothing held, an empty channel, and sequences of the program to go through.\<close>

definition fresh :: "thread list \<Rightarrow> bool" where
  "fresh ts \<longleftrightarrow> (\<forall>t \<in> set ts. held t = [] \<and> goroutine (todo t))"

lemma fresh_ok: "fresh ts \<Longrightarrow> runs_ok (ts, 0)"
proof -
  assume f: "fresh ts"
  then have none: "held t = []" if "t \<in> set ts" for t using that by (simp add: fresh_def)
  have "list_all behaved ts"
    using f by (simp add: fresh_def list_all_iff behaved_def ordered_def goroutine_disciplined)
  moreover have "exclusive ts" by (simp add: exclusive_def none)
  ultimately show ?thesis by (simp add: runs_ok_def)
qed

lemma runs_ok_step:
  assumes "lockStep reader c c'" "runs_ok c"
  shows "runs_ok c'"
  using assms(1)
proof (cases rule: lockStep.cases)
  case (thread i)
  obtain ts n where c: "c = (ts, n)" by (cases c)
  from thread [unfolded c] show ?thesis
  proof (rule runThread_cases)
    fix a p hs k
    assume i: "i < length ts" and a: "todo (ts ! i) = a # p" "act a ts (held (ts ! i)) n = Some (hs, k)"
      and c': "c' = (ts[i := \<lparr>held = hs, todo = p\<rparr>], k)"
    have ok: "list_all behaved ts" "n \<le> 1" "exclusive ts" using assms(2) by (simp_all add: runs_ok_def c)
    then have b: "behaved (ts ! i)" using i by (simp add: list_all_length)
    note one = act_behaved [OF b a ok(2)]
    have "list_all behaved (ts[i := \<lparr>held = hs, todo = p\<rparr>])"
      using ok(1) one(1) by (auto simp: list_all_iff dest!: set_update_subset_insert [THEN subsetD])
    with one(2) act_exclusive [OF ok(3) i b a] show ?thesis by (simp add: runs_ok_def c')
  qed
next
  case (read ts n)
  with assms(2) show ?thesis by (simp add: runs_ok_def)
qed

section \<open>Progress\<close>

text \<open>What a goroutine waits for: the mutex by its rank, a writer that awaits readers after one
  that has not got so far. Whoever holds it waits for something higher, or does not wait.\<close>

definition waitsFor :: "thread \<Rightarrow> nat" where
  "waitsFor t =
     (case todo t of
        Announce m # _ \<Rightarrow> 2 * rank m | RLock m # _ \<Rightarrow> 2 * rank m | Await m # _ \<Rightarrow> 2 * rank m + 1 | _ \<Rightarrow> 0)"

definition waiting :: "thread list \<Rightarrow> thread \<Rightarrow> bool" where
  "waiting ts t \<longleftrightarrow> (\<exists>a p. todo t = a # p \<and> act a ts (held t) 0 = None)"

lemma holder_waits:
  assumes "behaved t" "waiting ts t" "(m, w) \<in> set (held t)"
  shows "2 * rank m + (if w = Writer then 1 else 2) \<le> waitsFor t"
proof -
  from assms(2) obtain a p where a: "todo t = a # p" "act a ts (held t) 0 = None" by (auto simp: waiting_def)
  have d: "disciplined (held t) (a # p)" and o: "ordered (held t)" using assms(1) a by (simp_all add: behaved_def)
  have low: "rank m < rank m'" if "lower (held t) m'" for m' using that assms(3) by (auto simp: lower_def)
  show ?thesis
  proof (cases a)
    case (Announce m')
    with d low show ?thesis by (simp add: waitsFor_def a) fastforce
  next
    case (RLock m')
    with d low show ?thesis by (simp add: waitsFor_def a) fastforce
  next
    case (Await m')
    then obtain hs' where hs': "held t = (m', Writer) # hs'" using d by (cases "held t") auto
    have "(m, w) = (m', Writer) \<or> rank m < rank m'" using o assms(3) by (auto simp: hs' ordered_def)
    then show ?thesis using Await by (auto simp: waitsFor_def a)
  qed (use a d in simp_all)
qed

lemma waiting_blocked:
  assumes "behaved t" "waiting ts t"
  shows "\<exists>t' \<in> set ts. \<exists>m w. (m, w) \<in> set (held t') \<and> waitsFor t < 2 * rank m + (if w = Writer then 1 else 2)"
proof -
  from assms(2) obtain a p where a: "todo t = a # p" "act a ts (held t) 0 = None" by (auto simp: waiting_def)
  have d: "disciplined (held t) (a # p)" using assms(1) a by (simp add: behaved_def)
  have blocked: "\<exists>t' \<in> set ts. (m, w) \<in> set (held t')" if "holds ts m w" for m w
    using that by (auto simp: holds_def list_ex_iff)
  show ?thesis
  proof (cases a)
    case (Announce m)
    with a(2) have "holds ts m Writer" by (simp split: if_splits)
    from blocked [OF this] show ?thesis using Announce by (auto simp: waitsFor_def a(1) intro!: bexI exI [of _ m] exI [of _ Writer])
  next
    case (RLock m)
    with a(2) have "holds ts m Writer" by (simp split: if_splits)
    from blocked [OF this] show ?thesis using RLock by (auto simp: waitsFor_def a(1) intro!: bexI exI [of _ m] exI [of _ Writer])
  next
    case (Await m)
    with a(2) have "holds ts m Reader" by (simp split: if_splits)
    from blocked [OF this] show ?thesis using Await by (auto simp: waitsFor_def a(1) intro!: bexI exI [of _ m] exI [of _ Reader])
  qed (use a d in simp_all)
qed

lemma somebody_runs:
  assumes "list_all behaved ts" "t \<in> set ts" "todo t \<noteq> []"
  shows "\<exists>t \<in> set ts. todo t \<noteq> [] \<and> \<not> waiting ts t"
proof (rule ccontr)
  assume none: "\<not> ?thesis"
  let ?W = "{t \<in> set ts. todo t \<noteq> []}"
  have "finite ?W" "?W \<noteq> {}" using assms(2,3) by auto
  then have "Max (waitsFor ` ?W) \<in> waitsFor ` ?W" by (intro Max_in) simp_all
  then obtain t0 where t0: "t0 \<in> ?W" "waitsFor t0 = Max (waitsFor ` ?W)" by force
  have most: "waitsFor t \<le> waitsFor t0" if "t \<in> ?W" for t
    unfolding t0(2) by (rule Max_ge) (use \<open>finite ?W\<close> that in simp_all)
  have b: "behaved t" if "t \<in> set ts" for t using that assms(1) by (simp add: list_all_iff)
  from t0(1) none have "waiting ts t0" by blast
  with b t0(1) waiting_blocked obtain t' m w where t': "t' \<in> set ts" "(m, w) \<in> set (held t')"
    "waitsFor t0 < 2 * rank m + (if w = Writer then 1 else 2)" by blast
  have "todo t' \<noteq> []" using b [OF t'(1)] t'(2) by (auto simp: behaved_def)
  with none t'(1) have "waiting ts t'" by blast
  from holder_waits [OF b [OF t'(1)] this t'(2)] t'(3) most [of t'] t'(1) \<open>todo t' \<noteq> []\<close> show False by simp
qed

definition finished :: "config \<Rightarrow> bool" where
  "finished c \<longleftrightarrow> list_all (\<lambda>t. todo t = [] \<and> held t = []) (fst c) \<and> snd c = 0"

lemma progress:
  assumes "runs_ok c" "\<And>c'. \<not> lockStep True c c'"
  shows "finished c"
proof -
  obtain ts n where c: "c = (ts, n)" by (cases c)
  have ok: "list_all behaved ts" using assms(1) by (simp add: runs_ok_def c)
  have n: "n = 0" using assms(2) lockStep.read [of True ts] by (cases n) (auto simp: c)
  have "todo t = []" if t: "t \<in> set ts" for t
  proof (rule ccontr)
    assume "todo t \<noteq> []"
    from somebody_runs [OF ok t this] obtain t' where t': "t' \<in> set ts" "todo t' \<noteq> []" "\<not> waiting ts t'" by blast
    then obtain i where i: "i < length ts" "t' = ts ! i" by (metis in_set_conv_nth)
    from t'(2,3) obtain a p hs k where "todo t' = a # p" "act a ts (held t') 0 = Some (hs, k)"
      by (cases "todo t'") (auto simp: waiting_def)
    with i have "runThread i c = Some (ts[i := \<lparr>held = hs, todo = p\<rparr>], k)" by (simp add: runThread_def c n)
    with assms(2) lockStep.thread show False by blast
  qed
  moreover have "held t = []" if "t \<in> set ts" "todo t = []" for t
    using that ok by (auto simp: list_all_iff behaved_def)
  ultimately show ?thesis by (simp add: finished_def list_all_iff c n)
qed

text \<open>Every step is one of finitely many: an action is done, or an event that was sent is read.\<close>

definition work :: "config \<Rightarrow> nat" where
  "work c = 2 * sum_list (map (\<lambda>t. length (todo t)) (fst c)) + snd c"

lemma step_decreases:
  assumes "lockStep reader c c'"
  shows "work c' < work c"
  using assms
proof (cases rule: lockStep.cases)
  case (thread i)
  obtain ts n where c: "c = (ts, n)" by (cases c)
  from thread [unfolded c] show ?thesis
  proof (rule runThread_cases)
    fix a p hs k
    assume i: "i < length ts" and a: "todo (ts ! i) = a # p" "act a ts (held (ts ! i)) n = Some (hs, k)"
      and c': "c' = (ts[i := \<lparr>held = hs, todo = p\<rparr>], k)"
    let ?len = "\<lambda>t. length (todo t)"
    have "k \<le> Suc n" using a(2) by (cases a) (auto split: if_splits nat.splits)
    moreover have "?len (ts ! i) \<le> sum_list (map ?len ts)" using i by (intro elem_le_sum_list [of i "map ?len ts", simplified])
    moreover have "sum_list (map ?len (ts[i := \<lparr>held = hs, todo = p\<rparr>])) = sum_list (map ?len ts) + length p - ?len (ts ! i)"
      using i by (simp add: map_update sum_list_update)
    ultimately show ?thesis using a(1) by (simp add: work_def c c')
  qed
next
  case (read ts n)
  then show ?thesis by (simp add: work_def)
qed

section \<open>The properties\<close>

text \<open>C19: whatever the goroutines of the gateway and its callers do, in whatever interleaving, as
  long as a consumer keeps reading events: no two are in the critical sections of a mutex at
  once unless both only read, they never deadlock, and they all come to an end, with every
  event read. The number of steps is bounded by the work there is.\<close>

theorem gateway_never_deadlocks:
  assumes "fresh ts" "(lockStep True ^^ k) (ts, 0) c"
  shows "exclusive (fst c) \<and> ((\<forall>c'. \<not> lockStep True c c') \<longrightarrow> finished c) \<and> k \<le> work (ts, 0)"
proof -
  have "runs_ok c \<and> work c + k \<le> work (ts, 0)"
    using assms(2)
  proof (induction k arbitrary: c)
    case 0
    with fresh_ok [OF assms(1)] show ?case by simp
  next
    case (Suc k)
    then obtain b where b: "(lockStep True ^^ k) (ts, 0) b" "lockStep True b c" by auto
    with Suc.IH [OF b(1)] runs_ok_step [OF b(2)] step_decreases [OF b(2)] show ?case by simp
  qed
  then show ?thesis using progress [of c] by (auto simp: runs_ok_def)
qed

text \<open>A schedule: which goroutine runs next.\<close>

fun runSchedule :: "nat list \<Rightarrow> config \<Rightarrow> config option" where
  "runSchedule [] c = Some c"
| "runSchedule (i # is) c = Option.bind (runThread i c) (runSchedule is)"

lemma runSchedule_steps: "runSchedule is c = Some c' \<Longrightarrow> (lockStep reader ^^ length is) c c'"
proof (induction "is" arbitrary: c)
  case (Cons i "is")
  then obtain b where "runThread i c = Some b" "runSchedule is b = Some c'" by (auto simp: bind_eq_Some_conv)
  with Cons.IH lockStep.thread show ?case by (metis length_Cons relpowp_Suc_I2)
qed simp

text \<open>C20: a consumer that on the first event asks the gateway for its devices blocks it for good:
  the join that sends the events still holds the lock of its node, waiting for the channel,
  and the consumer waits for that lock, with the lock of the table held.\<close>

theorem consumer_must_not_call_back:
  "\<exists>c. (lockStep False)\<^sup>*\<^sup>* ([\<lparr>held = [], todo = receiveNodeJoinEvent_locks a True\<rparr>,
          \<lparr>held = [], todo = Receive # getDevices_locks (a # as)\<rparr>], 0) c \<and>
     (\<forall>c'. \<not> lockStep False c c') \<and> list_all (\<lambda>t. todo t \<noteq> []) (fst c) \<and>
     holds (fst c) NodeLock Writer \<and> holds (fst c) (NodeMutex a) Writer"
proof -
  let ?start = "([\<lparr>held = [], todo = receiveNodeJoinEvent_locks a True\<rparr>,
      \<lparr>held = [], todo = Receive # getDevices_locks (a # as)\<rparr>], 0) :: config"
  let ?join = "\<lparr>held = [(NodeMutex a, Writer)], todo = [Send, Unlock (NodeMutex a)]\<rparr>"
  let ?consumer = "\<lparr>held = [(NodeLock, Writer)], todo = RLock (NodeMutex a) # RUnlock (NodeMutex a) #
      concat (map getDevicesOnNode_locks as) @ [Unlock NodeLock]\<rparr>"
  let ?c = "([?join, ?consumer], 1) :: config"
  have "runSchedule [0, 0, 0, 0, 0, 0, 0, 0, 0, 1, 0, 1, 1] ?start = Some ?c"
    by (simp add: runThread_def receiveNodeJoinEvent_locks_def createNode_locks_def createNextDevice_locks_def
        createSpecificDevice_locks_def getDevices_locks_def getDevicesOnNode_locks_def locked_def rlocked_def holds_def)
  then have "(lockStep False)\<^sup>*\<^sup>* ?start ?c" by (rule runSchedule_steps [THEN relpowp_imp_rtranclp])
  moreover have "runThread i ?c = None" for i
  proof -
    consider "i = 0" | "i = 1" | "2 \<le> i" by linarith
    then show ?thesis by cases (simp_all add: runThread_def holds_def)
  qed
  then have "\<not> lockStep False ?c c'" for c' by (auto elim: lockStepE)
  ultimately show ?thesis by (intro exI [of _ ?c] conjI) (simp_all add: holds_def)
qed

text \<open>Two joins and a caller that lists the devices.\<close>

theorem gateway_never_deadlocks_witness:
  "\<exists>c. (lockStep True ^^ 3)
       ([\<lparr>held = [], todo = receiveNodeJoinEvent_locks 1 True\<rparr>, \<lparr>held = [], todo = receiveNodeJoinEvent_locks 2 True\<rparr>,
         \<lparr>held = [], todo = getDevices_locks [1]\<rparr>], 0) c \<and> exclusive (fst c)"
proof -
  let ?ts = "[\<lparr>held = [], todo = receiveNodeJoinEvent_locks 1 True\<rparr>, \<lparr>held = [], todo = receiveNodeJoinEvent_locks 2 True\<rparr>,
      \<lparr>held = [], todo = getDevices_locks [1]\<rparr>]"
  have "fresh ?ts" by (simp add: fresh_def goroutine.join goroutine.devices)
  moreover obtain c where c: "runSchedule [0, 0, 0] (?ts, 0) = Some c"
    by (simp add: runThread_def receiveNodeJoinEvent_locks_def createNode_locks_def locked_def holds_def)
  have "(lockStep True ^^ length [0 :: nat, 0, 0]) (?ts, 0) c" by (rule runSchedule_steps [OF c])
  then have "(lockStep True ^^ 3) (?ts, 0) c" by (simp only: list.size add_0 add_Suc One_nat_def numeral_3_eq_3)
  ultimately show ?thesis using gateway_never_deadlocks [of ?ts 3 c] by blast
qed

end
