(* ===== verification/Default_Rules.thy ===== *)
theory Default_Rules
  imports Rules_Order Rules_Execute
begin

text \<open>
  The rules that are compiled into the program: \<open>rules/generic.json\<close> and \<open>rules/zcl.json\<close>,
  embedded by \<open>rules/default.go\<close>. Their expressions are texts of the expression library; the
  part of its language they use is a datatype here, with the text of each expression and its
  documented meaning. What the library is relied on for is \<open>expression_language\<close>: it compiles
  these texts to programs that evaluate to these meanings.
\<close>

section \<open>Expressions\<close>

datatype ProductField = NameField | ManufacturerField | VersionField | SerialField

text \<open>Conditions: \<open>true\<close>, \<open>0x.. in Endpoint[Self].InClusters\<close>, parentheses, \<open>||\<close>, \<open>&&\<close>, the
  comparison of the product name, and \<open>any\<close> over all products. Values: a condition,
  \<open>Fn.Endpoint(Self)\<close>, and a field of the first product in which it is not \<open>nil\<close>, the
  endpoint's own product coming first.\<close>

datatype Condition =
    TrueLiteral
  | InCluster nat
  | Parens Condition
  | OrElse Condition Condition
  | AndAlso Condition Condition
  | SelfNamed string
  | AnyProductWith ProductField

datatype Expr =
    Condition Condition
  | EndpointOfSelf
  | FirstProductWith ProductField

fun fieldName :: "ProductField \<Rightarrow> string" where
  "fieldName NameField = ''Name''"
| "fieldName ManufacturerField = ''Manufacturer''"
| "fieldName VersionField = ''Version''"
| "fieldName SerialField = ''Serial''"

definition hexDigit :: "nat \<Rightarrow> char" where
  "hexDigit n = ''0123456789abcdef'' ! (n mod 16)"

definition hex4 :: "nat \<Rightarrow> string" where
  "hex4 n = ''0x'' @ [hexDigit (n div 4096), hexDigit (n div 256), hexDigit (n div 16), hexDigit n]"

fun conditionText :: "Condition \<Rightarrow> string" where
  "conditionText TrueLiteral = ''true''"
| "conditionText (InCluster c) = hex4 c @ '' in Endpoint[Self].InClusters''"
| "conditionText (Parens x) = ''('' @ conditionText x @ '')''"
| "conditionText (OrElse x y) = conditionText x @ '' || '' @ conditionText y"
| "conditionText (AndAlso x y) = conditionText x @ '' && '' @ conditionText y"
| "conditionText (SelfNamed s) = ''Product[Self].Name == '' @ [CHR 0x27] @ s @ [CHR 0x27]"
| "conditionText (AnyProductWith f) = ''any(values(Product), {.'' @ fieldName f @ '' != nil })''"

fun exprText :: "Expr \<Rightarrow> string" where
  "exprText (Condition x) = conditionText x"
| "exprText EndpointOfSelf = ''Fn.Endpoint(Self)''"
| "exprText (FirstProductWith f) =
     ''find(concat([Product[Self]],values(Product)), {.'' @ fieldName f @ '' != nil }).'' @ fieldName f"

text \<open>The meanings. A field of a product is a Go string, whatever it holds, and only \<open>nil\<close> is
  equal to \<open>nil\<close>.\<close>

fun productField :: "ProductField \<Rightarrow> InputProductData \<Rightarrow> any" where
  "productField NameField p = AnyString (ProductName p)"
| "productField ManufacturerField p = AnyString (Manufacturer p)"
| "productField VersionField p = AnyString (Version p)"
| "productField SerialField p = AnyString (Serial p)"

fun notNil :: "any \<Rightarrow> bool" where
  "notNil AnyNil = False"
| "notNil _ = True"

definition knows_self :: "Input \<Rightarrow> bool" where
  "knows_self i \<longleftrightarrow> Self i \<in> keys (Product i) \<and> Self i \<in> keys (Endpoint i)"

definition selfProduct :: "Input \<Rightarrow> InputProductData" where
  "selfProduct i = the (map_of (Product i) (Self i))"

definition selfClusters :: "Input \<Rightarrow> int list" where
  "selfClusters i = InClusters (the (map_of (Endpoint i) (Self i)))"

fun holds :: "Condition \<Rightarrow> Input \<Rightarrow> bool" where
  "holds TrueLiteral i = True"
| "holds (InCluster c) i = (int c \<in> set (selfClusters i))"
| "holds (Parens x) i = holds x i"
| "holds (OrElse x y) i = (holds x i \<or> holds y i)"
| "holds (AndAlso x y) i = (holds x i \<and> holds y i)"
| "holds (SelfNamed s) i = (ProductName (selfProduct i) = s)"
| "holds (AnyProductWith f) i = list_ex (\<lambda>p. notNil (productField f p)) (map snd (Product i))"

fun meaning :: "Expr \<Rightarrow> Input \<Rightarrow> any" where
  "meaning (Condition x) i = AnyBool (holds x i)"
| "meaning EndpointOfSelf i = AnyEndpoint (Fn_Endpoint (Self i))"
| "meaning (FirstProductWith f) i =
     (case find (\<lambda>p. notNil (productField f p)) (selfProduct i # map snd (Product i)) of
        None \<Rightarrow> AnyNil
      | Some p \<Rightarrow> productField f p)"

section \<open>The two files\<close>

abbreviation adds :: "string \<Rightarrow> (string \<times> Expr) list \<Rightarrow> Expr Actions" where
  "adds k vs \<equiv> Actions (Capabilities [(k, vs)] [])"

abbreviation selfEndpoint :: "string \<times> Expr" where
  "selfEndpoint \<equiv> (''ZigbeeEndpoint'', EndpointOfSelf)"

definition genericRules :: "Expr Rule list" where
  "genericRules =
     [Rule [] (Condition (AnyProductWith NameField))
        (adds ''GenericProductInformation''
           [(''Name'', FirstProductWith NameField),
            (''Manufacturer'', FirstProductWith ManufacturerField),
            (''Version'', FirstProductWith VersionField),
            (''Serial'', FirstProductWith SerialField)]) [],
      Rule ''TI Routers'' (Condition (SelfNamed ''ti.router''))
        (adds ''GenericDeviceWorkarounds''
           [selfEndpoint, (''EnableZCLReportingKeepAlive'', Condition TrueLiteral)]) []]"

definition zclRules :: "Expr Rule list" where
  "zclRules =
     [Rule [] (Condition (Parens (OrElse (InCluster 0x0000) (InCluster 0x0001))))
        (adds ''ZCLPowerSupply''
           [(''ZigbeeBasicClusterPresent'', Condition (Parens (InCluster 0x0000))),
            (''ZigbeePowerConfigurationClusterPresent'', Condition (Parens (InCluster 0x0001))),
            selfEndpoint]) [],
      Rule [] (Condition (Parens (InCluster 0x0003))) (adds ''ZCLIdentify'' [selfEndpoint]) [],
      Rule [] (Condition (Parens (InCluster 0x0006))) (adds ''ZCLOnOff'' [selfEndpoint]) [],
      Rule [] (Condition (AndAlso (Parens (InCluster 0x0006))
                 (Parens (OrElse (Parens (InCluster 0x0300)) (Parens (InCluster 0x0008))))))
        (Actions (Capabilities
           [(''ZCLLight'',
             [(''ZigbeeOnOffClusterPresent'', Condition (Parens (InCluster 0x0006))),
              (''ZigbeeColorClusterPresent'', Condition (Parens (InCluster 0x0300))),
              (''ZigbeeLevelClusterPresent'', Condition (Parens (InCluster 0x0008))),
              selfEndpoint])]
           [(''ZCLOnOff'', [])])) [],
      Rule [] (Condition (Parens (InCluster 0x0402))) (adds ''ZCLTemperatureSensor'' [selfEndpoint]) [],
      Rule [] (Condition (Parens (InCluster 0x0404))) (adds ''ZCLPressureSensor'' [selfEndpoint]) [],
      Rule [] (Condition (Parens (InCluster 0x0405))) (adds ''ZCLHumiditySensor'' [selfEndpoint]) [],
      Rule [] (Condition (Parens (InCluster 0x0500))) (adds ''ZCLAlarmSensor'' [selfEndpoint]) [],
      Rule [] (Condition (Parens (InCluster 0x0502))) (adds ''ZCLAlarmWarningDevice'' [selfEndpoint]) []]"

text \<open>What the JSON decoder makes of the files: the same rules with the texts of the
  expressions.\<close>

definition genericRuleSet :: RuleSet where
  "genericRuleSet = \<lparr>Name = ''generic'', DependsOn = [], RuleSetRules = map (map_Rule exprText) genericRules\<rparr>"

definition zclRuleSet :: RuleSet where
  "zclRuleSet = \<lparr>Name = ''zcl'', DependsOn = [''generic''], RuleSetRules = map (map_Rule exprText) zclRules\<rparr>"

text \<open>\<open>Embedded\<close>, in the order \<open>fs.WalkDir\<close> visits it: the root and the two files.\<close>

definition Embedded :: "dir_entry list" where
  "Embedded =
     [\<lparr>entry_path = ''.'', entry_name = ''.'', entry_isdir = True\<rparr>,
      \<lparr>entry_path = ''generic.json'', entry_name = ''generic.json'', entry_isdir = False\<rparr>,
      \<lparr>entry_path = ''zcl.json'', entry_name = ''zcl.json'', entry_isdir = False\<rparr>]"

definition embedded_files :: "(string \<Rightarrow> 'e + 'r) \<Rightarrow> ('r \<Rightarrow> 'e + RuleSet) \<Rightarrow> bool" where
  "embedded_files openf decode \<longleftrightarrow>
     (\<exists>f g. openf ''generic.json'' = Inr f \<and> decode f = Inr genericRuleSet \<and>
            openf ''zcl.json'' = Inr g \<and> decode g = Inr zclRuleSet)"

abbreviation defaultRules :: "Expr Rule list" where
  "defaultRules \<equiv> genericRules @ zclRules"

definition expression_language ::
  "(string \<Rightarrow> 'e + 'p) \<Rightarrow> ('p \<Rightarrow> Input \<Rightarrow> 'x + any) \<Rightarrow> bool" where
  "expression_language compile run \<longleftrightarrow>
     (\<forall>r \<in> set defaultRules. \<forall>x \<in> set_Rule r.
        \<exists>p. compile (exprText x) = Inr p \<and> (\<forall>i. knows_self i \<longrightarrow> run p i = Inr (meaning x i)))"

section \<open>Loading and compiling them\<close>

text \<open>A compiled rule with the programs of the expressions of a default rule.\<close>

abbreviation program_of :: "(string \<Rightarrow> 'e + 'p) \<Rightarrow> Expr \<Rightarrow> 'p \<Rightarrow> bool" where
  "program_of compile x p \<equiv> compile (exprText x) = Inr p"

lemma compileRules_text_iff:
  "compileRules compile (map (map_Rule exprText) rs) = Inr crs \<longleftrightarrow>
     list_all2 (rel_Rule (program_of compile)) rs crs"
proof -
  have "(\<lambda>r. rel_Rule (compiles_to compile) (map_Rule exprText r)) = rel_Rule (program_of compile)"
    by (intro ext) (simp add: Rule.rel_map)
  then show ?thesis by (simp add: compileRules_iff list.rel_map)
qed

lemma compiles_rules:
  assumes "\<forall>r \<in> set rs. \<forall>x \<in> set_Rule r. \<exists>p. compile (exprText x) = Inr p"
  shows "\<exists>crs. compileRules compile (map (map_Rule exprText) rs) = Inr crs"
proof -
  define g where "g x = projr (compile (exprText x))" for x
  have "program_of compile x (g x)" if "r \<in> set rs" "x \<in> set_Rule r" for r x
    using assms that unfolding g_def by (metis sum.sel(2))
  then have "rel_Rule (program_of compile) r (map_Rule g r)" if "r \<in> set rs" for r
    using that unfolding Rule.rel_map by (intro Rule.rel_refl_strong)
  then have "list_all2 (rel_Rule (program_of compile)) rs (map (map_Rule g) rs)"
    by (simp add: list.rel_map list.rel_refl_strong)
  then show ?thesis unfolding compileRules_text_iff by blast
qed

definition embeddedSets :: "(string, RuleSet) gomap" where
  "embeddedSets = [(''generic'', genericRuleSet), (''zcl'', zclRuleSet)]"

lemma LoadFS_Embedded:
  assumes "embedded_files openf decode"
  shows "LoadFS openf decode Embedded New = (None, \<lparr>RuleSets = embeddedSets, Rules = []\<rparr>)"
  using assms
  by (auto simp: embedded_files_def Embedded_def hasSuffix_def LoadReader_def New_def embeddedSets_def
      genericRuleSet_def zclRuleSet_def)

lemma CompileRules_embedded:
  assumes "compileRules compile (RuleSetRules genericRuleSet) = Inr g"
    "compileRules compile (RuleSetRules zclRuleSet) = Inr z"
  shows "CompileRules (Suc (Suc (Suc n))) compile \<lparr>RuleSets = embeddedSets, Rules = []\<rparr> =
    Some (None, \<lparr>RuleSets = embeddedSets, Rules = g @ z\<rparr>)"
proof -
  have "sort (map fst embeddedSets) = [''generic'', ''zcl'']" by (simp add: embeddedSets_def)
  then show ?thesis using assms
    by (simp add: CompileRules_def embeddedSets_def genericRuleSet_def zclRuleSet_def)
qed

section \<open>Executing them\<close>

text \<open>Execution depends on the programs only through what they evaluate to.\<close>

abbreviation same_value ::
  "('q \<Rightarrow> Input \<Rightarrow> 'x + any) \<Rightarrow> ('p \<Rightarrow> Input \<Rightarrow> 'x + any) \<Rightarrow> Input \<Rightarrow> 'q \<Rightarrow> 'p \<Rightarrow> bool" where
  "same_value run run' i x p \<equiv> run x i = run' p i"

lemma evaluateValues_same:
  "list_all2 (rel_prod (=) (same_value run run' i)) v v' \<Longrightarrow>
     evaluateValues run i d v = evaluateValues run' i d v'"
  unfolding evaluateValues_def by (induction v v' rule: list_all2_induct) (auto split: sum.split)

lemma addCapabilities_same:
  "list_all2 (rel_prod (=) (list_all2 (rel_prod (=) (same_value run run' i)))) m m' \<Longrightarrow>
     addCapabilities run i d m out = addCapabilities run' i d m' out"
proof (induction m m' arbitrary: out rule: list_all2_induct)
  case (Cons x xs y ys)
  then show ?case
    by (cases x; cases y) (auto simp: evaluateValues_same [where run = run and run' = run'] split: sum.split)
qed simp

lemma execute_same:
  "rel_Rule (same_value run run' i) r r' \<Longrightarrow> executeRule run i r out = executeRule run' i r' out"
  "list_all2 (rel_Rule (same_value run run' i)) rs rs' \<Longrightarrow>
     executeRules run i rs out = executeRules run' i rs' out"
proof (induction run i r out and run i rs out arbitrary: r' and rs' rule: execute_induct)
  case (1 run i d f a ch out)
  obtain f' a' ch' where r': "r' = Rule d f' a' ch'" and f: "run f i = run' f' i"
    and a: "rel_Actions (same_value run run' i) a a'" and ch: "list_all2 (rel_Rule (same_value run run' i)) ch ch'"
    using "1.prems" by (cases r') auto
  have keys_eq: "map fst (Remove (ActionCapabilities a')) = map fst (Remove (ActionCapabilities a))"
    and add: "addCapabilities run' i d (Add (ActionCapabilities a')) out =
      addCapabilities run i d (Add (ActionCapabilities a)) out" for out
    using a addCapabilities_same [where run = run and run' = run' and m = "Add (ActionCapabilities a)" and
      m' = "Add (ActionCapabilities a')" and d = d and out = out]
    by (cases a; cases a'; cases "ActionCapabilities a"; cases "ActionCapabilities a'";
        auto simp: list_all2_conv_all_nth rel_prod_sel intro!: nth_equalityI)+
  show ?case
  proof (cases "run f i = Inr (AnyBool True) \<and> fst (addCapabilities run i d (Add (ActionCapabilities a)) out) = None")
    case True
    then obtain out1 where out1: "addCapabilities run i d (Add (ActionCapabilities a)) out = (None, out1)"
      by (cases "addCapabilities run i d (Add (ActionCapabilities a)) out") auto
    have "\<not> \<not> True" by simp
    from "1.IH" [OF True [THEN conjunct1] refl this out1 [symmetric] refl ch] True f out1 show ?thesis
      by (simp add: r' add keys_eq)
  next
    case False
    with f show ?thesis
      by (cases "addCapabilities run i d (Add (ActionCapabilities a)) out")
        (auto simp: r' add split: sum.split any.split option.split)
  qed
next
  case (2 run i out)
  then show ?case by simp
next
  case (3 run i r rs out)
  then obtain r' rs'' where "rs' = r' # rs''" "rel_Rule (same_value run run' i) r r'"
    "list_all2 (rel_Rule (same_value run run' i)) rs rs''" by (auto simp: list_all2_Cons1)
  with 3 show ?case by (auto split: prod.split option.split)
qed

section \<open>What they put out\<close>

text \<open>The capabilities an endpoint is offered, as a table over its clusters and product.\<close>

definition offeredIf :: "bool \<Rightarrow> string \<Rightarrow> Settings \<Rightarrow> (string, Settings) gomap" where
  "offeredIf b k s = (if b then [(k, s)] else [])"

definition productSettings :: "InputProductData \<Rightarrow> Settings" where
  "productSettings p =
     [(''Name'', AnyString (ProductName p)), (''Manufacturer'', AnyString (Manufacturer p)),
      (''Version'', AnyString (Version p)), (''Serial'', AnyString (Serial p))]"

definition defaultCapabilities :: "InputProductData \<Rightarrow> int set \<Rightarrow> int \<Rightarrow> (string, Settings) gomap" where
  "defaultCapabilities p cs self =
     (let ep = (''ZigbeeEndpoint'', AnyEndpoint (Fn_Endpoint self));
          light = (0x0006 \<in> cs \<and> (0x0300 \<in> cs \<or> 0x0008 \<in> cs))
      in [(''GenericProductInformation'', productSettings p)] @
         offeredIf (ProductName p = ''ti.router'') ''GenericDeviceWorkarounds''
           [ep, (''EnableZCLReportingKeepAlive'', AnyBool True)] @
         offeredIf (0x0000 \<in> cs \<or> 0x0001 \<in> cs) ''ZCLPowerSupply''
           [(''ZigbeeBasicClusterPresent'', AnyBool (0x0000 \<in> cs)),
            (''ZigbeePowerConfigurationClusterPresent'', AnyBool (0x0001 \<in> cs)), ep] @
         offeredIf (0x0003 \<in> cs) ''ZCLIdentify'' [ep] @
         offeredIf (0x0006 \<in> cs \<and> \<not> light) ''ZCLOnOff'' [ep] @
         offeredIf light ''ZCLLight''
           [(''ZigbeeOnOffClusterPresent'', AnyBool True),
            (''ZigbeeColorClusterPresent'', AnyBool (0x0300 \<in> cs)),
            (''ZigbeeLevelClusterPresent'', AnyBool (0x0008 \<in> cs)), ep] @
         offeredIf (0x0402 \<in> cs) ''ZCLTemperatureSensor'' [ep] @
         offeredIf (0x0404 \<in> cs) ''ZCLPressureSensor'' [ep] @
         offeredIf (0x0405 \<in> cs) ''ZCLHumiditySensor'' [ep] @
         offeredIf (0x0500 \<in> cs) ''ZCLAlarmSensor'' [ep] @
         offeredIf (0x0502 \<in> cs) ''ZCLAlarmWarningDevice'' [ep])"

lemma keys_offeredIf [simp]: "keys (offeredIf b k s) = (if b then {k} else {})"
  by (simp add: offeredIf_def)

lemma offeredIf_cong:
  "b = b' \<Longrightarrow> (b' \<Longrightarrow> s = s') \<Longrightarrow> offeredIf b k s = offeredIf b' k s'"
  by (simp add: offeredIf_def)

lemma update_new: "k \<notin> keys m \<Longrightarrow> AList.update k v m = m @ [(k, v)]"
  by (induction m) auto

lemma delete_absent: "k \<notin> keys m \<Longrightarrow> AList.delete k m = m"
  by (induction m) auto

lemma delete_append: "AList.delete k (m @ m') = AList.delete k m @ AList.delete k m'"
  by (simp add: AList.delete_eq)

abbreviation meaningRun :: "Expr \<Rightarrow> Input \<Rightarrow> 'x + any" where
  "meaningRun x i \<equiv> Inr (meaning x i)"

lemma evaluateValues_meaning:
  "evaluateValues meaningRun i d vs = Inr (map (\<lambda>(n, x). (n, meaning x i)) vs)"
  unfolding evaluateValues_def by (induction vs) auto

lemma executeRules_adds:
  assumes "k \<notin> keys caps"
  shows "executeRules meaningRun i (Rule d (Condition c) (adds k vs) [] # rs) \<lparr>OutputCapabilities = caps\<rparr> =
    executeRules meaningRun i rs
      \<lparr>OutputCapabilities = caps @ offeredIf (holds c i) k (map (\<lambda>(n, x). (n, meaning x i)) vs)\<rparr>"
  using assms by (simp add: evaluateValues_meaning update_new removeCapabilities_def offeredIf_def)

text \<open>A list of rules that each add one capability of their own.\<close>

abbreviation addRule :: "Condition \<times> string \<times> (string \<times> Expr) list \<Rightarrow> Expr Rule" where
  "addRule t \<equiv> Rule [] (Condition (fst t)) (adds (fst (snd t)) (snd (snd t))) []"

definition offersOf :: "Input \<Rightarrow> Condition \<times> string \<times> (string \<times> Expr) list \<Rightarrow> (string, Settings) gomap" where
  "offersOf i = (\<lambda>(c, k, vs). offeredIf (holds c i) k (map (\<lambda>(n, x). (n, meaning x i)) vs))"

lemma executeRules_table:
  assumes "distinct (map (fst \<circ> snd) ts)" "set (map (fst \<circ> snd) ts) \<inter> keys caps = {}"
  shows "executeRules meaningRun i (map addRule ts @ rs) \<lparr>OutputCapabilities = caps\<rparr> =
    executeRules meaningRun i rs \<lparr>OutputCapabilities = caps @ concat (map (offersOf i) ts)\<rparr>"
  using assms
proof (induction ts arbitrary: caps)
  case (Cons t ts)
  obtain c k vs where t: "t = (c, k, vs)" by (cases t)
  have "k \<notin> keys caps" using Cons.prems(2) t by auto
  moreover have "keys (caps @ offersOf i t) \<subseteq> insert k (keys caps)" by (auto simp add: offersOf_def t image_Un)
  moreover have "set (map (fst \<circ> snd) ts) \<inter> insert k (keys caps) = {}"
    using Cons.prems t by auto
  ultimately have "k \<notin> keys caps" "set (map (fst \<circ> snd) ts) \<inter> keys (caps @ offersOf i t) = {}"
    by blast+
  then show ?case
    using Cons.IH [of "caps @ offersOf i t"] Cons.prems(1)
    by (simp add: t executeRules_adds offersOf_def del: executeRules.simps)
qed simp

text \<open>The rule for lights takes back what the rule for switches has just put out.\<close>

lemma executeRules_replaces:
  assumes "k \<notin> keys caps" "k' \<notin> keys caps" "k \<noteq> k'" "holds c i \<Longrightarrow> b"
  shows "executeRules meaningRun i (Rule d (Condition c) (Actions (Capabilities [(k, vs)] [(k', us)])) [] # rs)
      \<lparr>OutputCapabilities = caps @ offeredIf b k' s\<rparr> =
    executeRules meaningRun i rs
      \<lparr>OutputCapabilities = caps @ offeredIf (b \<and> \<not> holds c i) k' s @
         offeredIf (holds c i) k (map (\<lambda>(n, x). (n, meaning x i)) vs)\<rparr>"
  using assms
  by (auto simp: evaluateValues_meaning update_new removeCapabilities_def offeredIf_def delete_append delete_absent)

lemma notNil_productField [simp]: "notNil (productField f p)"
  by (cases f) simp_all

lemma holds_AnyProductWith: "knows_self i \<Longrightarrow> holds (AnyProductWith f) i"
  by (auto simp: knows_self_def list_ex_iff)

lemma genericRules_output:
  assumes "knows_self i"
  shows "executeRules meaningRun i (genericRules @ rs) \<lparr>OutputCapabilities = []\<rparr> =
    executeRules meaningRun i rs
      \<lparr>OutputCapabilities = (''GenericProductInformation'', productSettings (selfProduct i)) #
         offeredIf (ProductName (selfProduct i) = ''ti.router'') ''GenericDeviceWorkarounds''
           [(''ZigbeeEndpoint'', AnyEndpoint (Fn_Endpoint (Self i))),
            (''EnableZCLReportingKeepAlive'', AnyBool True)]\<rparr>"
proof -
  have "offeredIf (holds (AnyProductWith f) i) k s = [(k, s)]" for f k s
    using holds_AnyProductWith [OF assms] by (simp add: offeredIf_def)
  then show ?thesis
    by (simp add: genericRules_def executeRules_adds productSettings_def del: executeRule.simps executeRules.simps
        holds.simps(7))
qed

abbreviation firstTable :: "(Condition \<times> string \<times> (string \<times> Expr) list) list" where
  "firstTable \<equiv>
     [(Parens (OrElse (InCluster 0x0000) (InCluster 0x0001)), ''ZCLPowerSupply'',
       [(''ZigbeeBasicClusterPresent'', Condition (Parens (InCluster 0x0000))),
        (''ZigbeePowerConfigurationClusterPresent'', Condition (Parens (InCluster 0x0001))), selfEndpoint]),
      (Parens (InCluster 0x0003), ''ZCLIdentify'', [selfEndpoint])]"

abbreviation lastTable :: "(Condition \<times> string \<times> (string \<times> Expr) list) list" where
  "lastTable \<equiv>
     [(Parens (InCluster 0x0402), ''ZCLTemperatureSensor'', [selfEndpoint]),
      (Parens (InCluster 0x0404), ''ZCLPressureSensor'', [selfEndpoint]),
      (Parens (InCluster 0x0405), ''ZCLHumiditySensor'', [selfEndpoint]),
      (Parens (InCluster 0x0500), ''ZCLAlarmSensor'', [selfEndpoint]),
      (Parens (InCluster 0x0502), ''ZCLAlarmWarningDevice'', [selfEndpoint])]"

abbreviation lightCondition :: Condition where
  "lightCondition \<equiv> AndAlso (Parens (InCluster 0x0006))
     (Parens (OrElse (Parens (InCluster 0x0300)) (Parens (InCluster 0x0008))))"

abbreviation lightValues :: "(string \<times> Expr) list" where
  "lightValues \<equiv>
     [(''ZigbeeOnOffClusterPresent'', Condition (Parens (InCluster 0x0006))),
      (''ZigbeeColorClusterPresent'', Condition (Parens (InCluster 0x0300))),
      (''ZigbeeLevelClusterPresent'', Condition (Parens (InCluster 0x0008))), selfEndpoint]"

lemma zclRules_table:
  "zclRules =
     map addRule firstTable @
     Rule [] (Condition (Parens (InCluster 0x0006))) (adds ''ZCLOnOff'' [selfEndpoint]) [] #
     Rule [] (Condition lightCondition) (Actions (Capabilities [(''ZCLLight'', lightValues)] [(''ZCLOnOff'', [])])) [] #
     map addRule lastTable @ []"
  by (simp add: zclRules_def)

lemma executeRules_switch_light:
  assumes "''ZCLOnOff'' \<notin> keys caps" "''ZCLLight'' \<notin> keys caps"
  shows "executeRules meaningRun i
      (Rule [] (Condition (Parens (InCluster 0x0006))) (adds ''ZCLOnOff'' [selfEndpoint]) [] #
       Rule [] (Condition lightCondition)
         (Actions (Capabilities [(''ZCLLight'', lightValues)] [(''ZCLOnOff'', [])])) [] # rs)
      \<lparr>OutputCapabilities = caps\<rparr> =
    executeRules meaningRun i rs
      \<lparr>OutputCapabilities = caps @
         offeredIf (holds (Parens (InCluster 0x0006)) i \<and> \<not> holds lightCondition i) ''ZCLOnOff''
           (map (\<lambda>(n, x). (n, meaning x i)) [selfEndpoint]) @
         offeredIf (holds lightCondition i) ''ZCLLight'' (map (\<lambda>(n, x). (n, meaning x i)) lightValues)\<rparr>"
  unfolding executeRules_adds [OF assms(1)]
  by (rule executeRules_replaces [OF assms(2,1)]) simp_all

lemma execute_default:
  assumes "knows_self i"
  shows "executeRules meaningRun i defaultRules \<lparr>OutputCapabilities = []\<rparr> =
    (None, \<lparr>OutputCapabilities =
       defaultCapabilities (selfProduct i) (set (selfClusters i)) (Self i)\<rparr>)"
proof -
  let ?pre = "(''GenericProductInformation'', productSettings (selfProduct i)) #
      offeredIf (ProductName (selfProduct i) = ''ti.router'') ''GenericDeviceWorkarounds''
        [(''ZigbeeEndpoint'', AnyEndpoint (Fn_Endpoint (Self i))),
         (''EnableZCLReportingKeepAlive'', AnyBool True)]"
  let ?one = "?pre @ concat (map (offersOf i) firstTable)"
  let ?onoff = "Parens (InCluster 0x0006)"
  let ?light = "holds lightCondition i"
  let ?self = "map (\<lambda>(n, x). (n, meaning x i)) [selfEndpoint]"
  let ?two = "?one @ offeredIf (holds ?onoff i \<and> \<not> ?light) ''ZCLOnOff'' ?self @
      offeredIf ?light ''ZCLLight'' (map (\<lambda>(n, x). (n, meaning x i)) lightValues)"
  have pre: "keys ?pre \<subseteq> {''GenericProductInformation'', ''GenericDeviceWorkarounds''}" by simp
  have one: "keys ?one \<subseteq> {''GenericProductInformation'', ''GenericDeviceWorkarounds'', ''ZCLPowerSupply'', ''ZCLIdentify''}"
    using pre by (simp add: offersOf_def image_Un)
  have two: "keys ?two \<subseteq> {''GenericProductInformation'', ''GenericDeviceWorkarounds'', ''ZCLPowerSupply'',
      ''ZCLIdentify'', ''ZCLOnOff'', ''ZCLLight''}"
    using one by (simp add: offersOf_def image_Un)
  have "executeRules meaningRun i zclRules \<lparr>OutputCapabilities = ?pre\<rparr> =
      executeRules meaningRun i (map addRule lastTable @ []) \<lparr>OutputCapabilities = ?two\<rparr>"
    unfolding zclRules_table
  proof (subst executeRules_table)
    show "distinct (map (fst \<circ> snd) firstTable)" "set (map (fst \<circ> snd) firstTable) \<inter> keys ?pre = {}"
      using pre by auto
    show "executeRules meaningRun i
        (Rule [] (Condition ?onoff) (adds ''ZCLOnOff'' [selfEndpoint]) [] #
         Rule [] (Condition lightCondition)
           (Actions (Capabilities [(''ZCLLight'', lightValues)] [(''ZCLOnOff'', [])])) [] #
         map addRule lastTable @ []) \<lparr>OutputCapabilities = ?one\<rparr> =
      executeRules meaningRun i (map addRule lastTable @ []) \<lparr>OutputCapabilities = ?two\<rparr>"
      by (rule executeRules_switch_light; use one in auto)
  qed
  also have "\<dots> = (None, \<lparr>OutputCapabilities = ?two @ concat (map (offersOf i) lastTable)\<rparr>)"
  proof (subst executeRules_table)
    show "distinct (map (fst \<circ> snd) lastTable)" "set (map (fst \<circ> snd) lastTable) \<inter> keys ?two = {}"
      using two by auto
  qed (simp only: executeRules.simps)
  also have "?two @ concat (map (offersOf i) lastTable) =
      defaultCapabilities (selfProduct i) (set (selfClusters i)) (Self i)"
    by (simp add: defaultCapabilities_def Let_def offersOf_def conj_assoc cong: offeredIf_cong)
  finally show ?thesis by (simp only: genericRules_output [OF assms])
qed

lemma execute_loaded:
  assumes "expression_language compile run" "list_all2 (rel_Rule (program_of compile)) defaultRules (Rules e)"
    and "knows_self i"
  shows "Execute run e i =
    (None, \<lparr>OutputCapabilities = defaultCapabilities (selfProduct i) (set (selfClusters i)) (Self i)\<rparr>)"
proof -
  have "rel_Rule (same_value meaningRun run i) r p"
    if "r \<in> set defaultRules" "rel_Rule (program_of compile) r p" for r p
    by (rule Rule.rel_mono_strong [OF that(2)])
      (use assms(1,3) that(1) in \<open>fastforce simp: expression_language_def\<close>)
  then have "list_all2 (rel_Rule (same_value meaningRun run i)) defaultRules (Rules e)"
    by (intro list.rel_mono_strong [OF assms(2)])
  then have "executeRules meaningRun i defaultRules \<lparr>OutputCapabilities = []\<rparr> = Execute run e i"
    unfolding Execute_def by (rule execute_same(2))
  then show ?thesis by (simp only: execute_default [OF assms(3)])
qed

section \<open>The properties\<close>


text \<open>C11: an engine with the compiled default rules offers an endpoint, without an error, exactly
  the capabilities of the table \<open>defaultCapabilities\<close>: its product information always, a
  workaround for one product, and for each cluster the capability of that cluster, a light in
  place of a switch if the endpoint also has a colour or a level cluster.\<close>

theorem default_rules_execute:
  assumes "expression_language compile run" "list_all2 (rel_Rule (program_of compile)) defaultRules (Rules e)"
    and "knows_self i"
  shows "Execute run e i =
    (None, \<lparr>OutputCapabilities = defaultCapabilities (selfProduct i) (set (selfClusters i)) (Self i)\<rparr>)"
  by (rule execute_loaded [OF assms])

section \<open>Witnesses\<close>

text \<open>A library that knows the texts of the default rules and no others, and a file system of the
  two files.\<close>

definition knownExpressions :: "Expr list" where
  "knownExpressions =
     [Condition (AnyProductWith NameField), FirstProductWith NameField, FirstProductWith ManufacturerField,
      FirstProductWith VersionField, FirstProductWith SerialField, Condition (SelfNamed ''ti.router''),
      EndpointOfSelf, Condition TrueLiteral, Condition (Parens (OrElse (InCluster 0x0000) (InCluster 0x0001))),
      Condition lightCondition] @
     map (\<lambda>c. Condition (Parens (InCluster c)))
       [0x0000, 0x0001, 0x0003, 0x0006, 0x0008, 0x0300, 0x0402, 0x0404, 0x0405, 0x0500, 0x0502]"

definition tableCompile :: "string \<Rightarrow> unit + Expr" where
  "tableCompile s =
     (case map_of (map (\<lambda>x. (exprText x, x)) knownExpressions) s of None \<Rightarrow> Inl () | Some x \<Rightarrow> Inr x)"

definition tableRun :: "Expr \<Rightarrow> Input \<Rightarrow> unit + any" where
  "tableRun x i = Inr (meaning x i)"

definition exampleDecode :: "string \<Rightarrow> unit + RuleSet" where
  "exampleDecode s =
     (if s = ''generic.json'' then Inr genericRuleSet
      else if s = ''zcl.json'' then Inr zclRuleSet else Inl ())"

lemma exampleDecode_files: "embedded_files Inr exampleDecode"
  by (simp add: embedded_files_def exampleDecode_def)

lemma knownExpressions_distinct: "distinct (map exprText knownExpressions)"
  by (simp add: knownExpressions_def hex4_def hexDigit_def)

lemma knownExpressions_all: "\<forall>r \<in> set defaultRules. set_Rule r \<subseteq> set knownExpressions"
  by (simp add: genericRules_def zclRules_def knownExpressions_def)

lemma tableCompile_known:
  assumes "x \<in> set knownExpressions"
  shows "tableCompile (exprText x) = Inr x"
proof -
  have "map_of (map (\<lambda>x. (exprText x, x)) knownExpressions) (exprText x) = Some x"
    using knownExpressions_distinct assms by (intro map_of_is_SomeI) (simp_all add: comp_def)
  then show ?thesis by (simp add: tableCompile_def)
qed

lemma tableCompile_language: "expression_language tableCompile tableRun"
proof -
  have "\<exists>p. tableCompile (exprText x) = Inr p \<and> (\<forall>i. knows_self i \<longrightarrow> tableRun p i = Inr (meaning x i))"
    if "r \<in> set defaultRules" "x \<in> set_Rule r" for r x
    using tableCompile_known [of x] knownExpressions_all that by (auto simp: tableRun_def)
  then show ?thesis unfolding expression_language_def by blast
qed

lemma defaultRules_compiled:
  "list_all2 (rel_Rule (program_of tableCompile)) defaultRules (Rules \<lparr>RuleSets = [], Rules = defaultRules\<rparr>)"
proof -
  have "rel_Rule (program_of tableCompile) r r" if "r \<in> set defaultRules" for r
    by (rule Rule.rel_refl_strong) (use knownExpressions_all that tableCompile_known in blast)
  then show ?thesis by (simp only: Engine.simps list.rel_refl_strong)
qed


text \<open>An endpoint with switch and level clusters: a light, and no switch.\<close>

definition lightInput :: Input where
  "lightInput = \<lparr>Node = \<lparr>InputManufacturerCode = 0, NodeType = ''router''\<rparr>, Self = 20,
     Product = [(20, \<lparr>ProductName = [], Manufacturer = [], Version = [], Serial = []\<rparr>)],
     Endpoint = [(20, \<lparr>EndpointID = 20, InputProfileID = 260, InputDeviceID = 257,
       InClusters = [6, 8], OutClusters = []\<rparr>)]\<rparr>"

theorem default_rules_execute_witness:
  "outputNames (snd (Execute tableRun \<lparr>RuleSets = [], Rules = defaultRules\<rparr> lightInput)) =
     {''GenericProductInformation'', ''ZCLLight''}"
proof -
  have "knows_self lightInput" by (simp add: knows_self_def lightInput_def)
  from default_rules_execute [OF tableCompile_language defaultRules_compiled this]
  have "Execute tableRun \<lparr>RuleSets = [], Rules = defaultRules\<rparr> lightInput = (None, \<lparr>OutputCapabilities =
      defaultCapabilities (selfProduct lightInput) (set (selfClusters lightInput)) (Self lightInput)\<rparr>)" .
  then show ?thesis
    by (simp add: defaultCapabilities_def offeredIf_def selfProduct_def selfClusters_def lightInput_def)
qed

end
