(* ===== verification/Default_Rules_Properties.thy ===== *)
theory Default_Rules_Properties
  imports Default_Rules System_Properties
begin

text \<open>
  The default rules in the gateway: what the devices of a node get when it is enumerated with
  \<open>runRulesFn\<close> set to the \<open>Execute\<close> of an engine that has compiled them.
\<close>

section \<open>Enumerating with the default rules\<close>

text \<open>\<open>Execute\<close> as \<open>runRules\<close> calls it: the output only counts if there is no error.\<close>

definition executeFn :: "('p \<Rightarrow> Input \<Rightarrow> 'x + any) \<Rightarrow> 'p Engine \<Rightarrow> Input \<Rightarrow> 'x ExecError + Output" where
  "executeFn run e i = (case Execute run e i of (Some err, _) \<Rightarrow> Inl err | (None, out) \<Rightarrow> Inr out)"

text \<open>An engine that holds the compiled default rules, and a library that runs them.\<close>

definition runs_default_rules ::
  "(string \<Rightarrow> 'e + 'p) \<Rightarrow> ('p \<Rightarrow> Input \<Rightarrow> 'x + any) \<Rightarrow> 'p Engine \<Rightarrow> bool" where
  "runs_default_rules compile run e \<longleftrightarrow>
     expression_language compile run \<and> list_all2 (rel_Rule (program_of compile)) defaultRules (Rules e)"

definition defaultOffers :: "Endpoint \<Rightarrow> endpointDetails \<Rightarrow> (string, Settings) gomap" where
  "defaultOffers ep d =
     defaultCapabilities (toInputProductData (productInformation d))
       (uint ` set (InClusterList (description d))) (uint ep)"

definition withDefaults :: "Endpoint \<Rightarrow> endpointDetails \<Rightarrow> endpointDetails" where
  "withDefaults ep d = d\<lparr>rulesOutput := \<lparr>OutputCapabilities = defaultOffers ep d\<rparr>\<rparr>"

lemma toRulesInput_self:
  fixes T :: "LogicalType \<Rightarrow> string"
  assumes "wf_map (endpoints inven)" "(ep, d) \<in> set (endpoints inven)"
  defines "i \<equiv> (toRulesInput T inven)\<lparr>Self := uint ep\<rparr>"
  shows "knows_self i" "selfProduct i = toInputProductData (productInformation d)"
    "set (selfClusters i) = uint ` set (InClusterList (description d))" "Self i = uint ep"
proof -
  have d: "map_of (endpoints inven) ep = Some d" by (rule wf_map_map_of [OF assms(1,2)])
  note f = toRulesInput_faithful [OF assms(1), where str = T and i = ep, unfolded d]
  show "selfProduct i = toInputProductData (productInformation d)"
    "set (selfClusters i) = uint ` set (InClusterList (description d))"
    using f by (simp_all add: i_def selfProduct_def selfClusters_def toInputEndpoint_def)
  have "uint ep \<in> uint ` keys (endpoints inven)" using assms(2) by (intro imageI image_eqI) auto
  then show "knows_self i" using f by (simp add: i_def knows_self_def)
qed (simp add: i_def)

lemma mapM_kv_total:
  "(\<And>k v. (k, v) \<in> set m \<Longrightarrow> f k v = Inr (g k v)) \<Longrightarrow> mapM_kv f m = Inr (map (\<lambda>(k, v). (k, g k v)) m)"
  by (induction f m rule: mapM_kv.induct) auto

lemma runRules_default:
  assumes "runs_default_rules compile run e" "wf_map (endpoints inven)"
  shows "runRules T (executeFn run e) inven =
    Inr (inven\<lparr>endpoints := map (\<lambda>(ep, d). (ep, withDefaults ep d)) (endpoints inven)\<rparr>)"
proof -
  have "(case executeFn run e ((toRulesInput T inven)\<lparr>Self := uint ep\<rparr>) of
      Inl err \<Rightarrow> Inl err | Inr out \<Rightarrow> Inr (d\<lparr>rulesOutput := out\<rparr>)) = Inr (withDefaults ep d)"
    if "(ep, d) \<in> set (endpoints inven)" for ep d
  proof -
    note i = toRulesInput_self [OF assms(2) that, of T]
    from assms(1) have "expression_language compile run"
      "list_all2 (rel_Rule (program_of compile)) defaultRules (Rules e)"
      by (simp_all only: runs_default_rules_def)
    from execute_loaded [OF this i(1)] show ?thesis
      by (simp only: executeFn_def i withDefaults_def defaultOffers_def prod.case option.case sum.case)
  qed
  then have "mapM_kv (\<lambda>i ep. case executeFn run e ((toRulesInput T inven)\<lparr>Self := uint i\<rparr>) of
      Inl err \<Rightarrow> Inl err | Inr out \<Rightarrow> Inr (ep\<lparr>rulesOutput := out\<rparr>)) (endpoints inven) =
    Inr (map (\<lambda>(ep, d). (ep, withDefaults ep d)) (endpoints inven))"
    by (rule mapM_kv_total)
  then show ?thesis by (simp only: runRules_def Let_def sum.case)
qed

section \<open>The table in terms of clusters\<close>

lemma uint_in_clusters:
  "0 \<le> c \<Longrightarrow> c < 65536 \<Longrightarrow> (c \<in> uint ` S) = ((word_of_int c :: ClusterID) \<in> S)"
  by (auto simp: image_iff uint_word_of_int intro!: bexI [of _ "word_of_int c"])

lemma clusters_simps:
  "(0 \<in> uint ` S) = ((0 :: ClusterID) \<in> S)" "(1 \<in> uint ` S) = ((1 :: ClusterID) \<in> S)"
  "(3 \<in> uint ` S) = ((3 :: ClusterID) \<in> S)" "(6 \<in> uint ` S) = ((6 :: ClusterID) \<in> S)"
  "(8 \<in> uint ` S) = ((8 :: ClusterID) \<in> S)" "(0x300 \<in> uint ` S) = ((0x300 :: ClusterID) \<in> S)"
  "(0x402 \<in> uint ` S) = ((0x402 :: ClusterID) \<in> S)" "(0x404 \<in> uint ` S) = ((0x404 :: ClusterID) \<in> S)"
  "(0x405 \<in> uint ` S) = ((0x405 :: ClusterID) \<in> S)" "(0x500 \<in> uint ` S) = ((0x500 :: ClusterID) \<in> S)"
  "(0x502 \<in> uint ` S) = ((0x502 :: ClusterID) \<in> S)"
  by (simp_all add: uint_in_clusters)

text \<open>The flags an endpoint's clusters and product stand for.\<close>

fun warranted :: "endpointDetails \<Rightarrow> Capability \<Rightarrow> bool" where
  "warranted d ProductInformationFlag = True"
| "warranted d DeviceWorkaroundsFlag = (product (productInformation d) = ''ti.router'')"
| "warranted d PowerSupplyFlag =
     (0x0000 \<in> set (InClusterList (description d)) \<or> 0x0001 \<in> set (InClusterList (description d)))"
| "warranted d IdentifyFlag = (0x0003 \<in> set (InClusterList (description d)))"
| "warranted d TemperatureSensorFlag = (0x0402 \<in> set (InClusterList (description d)))"
| "warranted d PressureSensorFlag = (0x0404 \<in> set (InClusterList (description d)))"
| "warranted d RelativeHumiditySensorFlag = (0x0405 \<in> set (InClusterList (description d)))"
| "warranted d _ = False"

lemma key_offered: "(n \<in> keys (offeredIf b k s)) = (b \<and> n = k)"
  by (cases b) (simp_all add: offeredIf_def)

lemma offered_names:
  fixes d
  defines "cs \<equiv> set (InClusterList (description d))"
  shows "''GenericDeviceWorkarounds'' \<in> keys (defaultOffers ep d) \<longleftrightarrow>
      product (productInformation d) = ''ti.router''"
    "''ZCLPowerSupply'' \<in> keys (defaultOffers ep d) \<longleftrightarrow> 0x0000 \<in> cs \<or> 0x0001 \<in> cs"
    "''ZCLIdentify'' \<in> keys (defaultOffers ep d) \<longleftrightarrow> 0x0003 \<in> cs"
    "''ZCLTemperatureSensor'' \<in> keys (defaultOffers ep d) \<longleftrightarrow> 0x0402 \<in> cs"
    "''ZCLPressureSensor'' \<in> keys (defaultOffers ep d) \<longleftrightarrow> 0x0404 \<in> cs"
    "''ZCLHumiditySensor'' \<in> keys (defaultOffers ep d) \<longleftrightarrow> 0x0405 \<in> cs"
  unfolding cs_def defaultOffers_def defaultCapabilities_def Let_def set_append image_Un Un_iff key_offered
  by (simp_all add: clusters_simps toInputProductData_def)

lemma offered_warranted:
  assumes "n \<in> keys (defaultOffers ep d)" "map_of Mapping n = Some cf"
  shows "warranted d cf"
proof -
  have "(n, cf) \<in> set Mapping" by (rule map_of_SomeD [OF assms(2)])
  then show ?thesis
    using assms(1) unfolding Mapping_def implementation_names list.set insert_iff empty_iff prod.inject
    by (elim disjE conjE FalseE) (simp_all only: offered_names warranted.simps)
qed

section \<open>What the devices get\<close>

lemma default_devices:
  assumes "wf_map (endpoints inven)"
    and "i \<in> set (groupInventoryDevices (inven\<lparr>endpoints := map (\<lambda>(ep, d). (ep, withDefaults ep d)) (endpoints inven)\<rparr>))"
  obtains ep d where "map_of (endpoints inven) ep = Some d" "uniqueId i = uint ep" "offers i = defaultOffers ep d"
proof -
  let ?inven = "inven\<lparr>endpoints := map (\<lambda>(ep, d). (ep, withDefaults ep d)) (endpoints inven)\<rparr>"
  have "map fst (endpoints ?inven) = map fst (endpoints inven)" by (simp add: case_prod_beta comp_def)
  then have "wf_map (endpoints ?inven)" using assms(1) unfolding wf_map_def by (simp only:)
  from assms(2) [unfolded set_groupInventoryDevices [OF this]] obtain k where
    "(k, i) \<in> set (inventoryMap ?inven)" by auto
  then obtain ep d where "i = \<lparr>uniqueId = uint ep, invEndpoints = [withDefaults ep d]\<rparr>"
    "(ep, d) \<in> set (endpoints inven)" by (auto simp: inventoryMap_entry)
  then show thesis
    using wf_map_map_of [OF assms(1)] by (intro that [of ep d]) (simp_all add: offers_def withDefaults_def)
qed

lemma asked_warranted:
  assumes "gateway_ok h C z" "asked_for C d i z" "offers i = defaultOffers ep details"
    and "map_of (deviceCaps d z) cf = Some c"
  shows "warranted details cf"
proof (rule offered_warranted)
  show "c_ImplName C c \<in> keys (defaultOffers ep details)"
    using assms(2-4) by (simp add: asked_for_def)
  show "map_of Mapping (c_ImplName C c) = Some cf"
    using assms(4) mirrorsD(6) [OF gateway_okD(1) [OF assms(1)], of d]
    by (auto simp: deviceCaps_def device_ok_def capability_ok_def split: option.splits)
qed


section \<open>Capabilities nobody implements\<close>

text \<open>The names among the offers that the factory does not know, and what is reported of them.\<close>

definition unknownNames :: "(string \<times> Settings) list \<Rightarrow> string list" where
  "unknownNames xs = filter (\<lambda>n. map_of Mapping n = None) (map fst xs)"

definition unknownError :: "string \<Rightarrow> goerr" where
  "unknownError n = Err (''could not find capability in rule output: '' @ n)"

lemma Mapping_not_enumerate: "map_of Mapping n \<noteq> Some EnumerateDeviceFlag"
proof
  assume "map_of Mapping n = Some EnumerateDeviceFlag"
  from map_of_SomeD [OF this] show False
    unfolding Mapping_def list.set insert_iff empty_iff prod.inject by (elim disjE conjE) simp_all
qed

lemma offers_unknown:
  assumes "fold (offerCapability h C d) xs (errs, active, z) = (errs', active', z')"
    and "map_of errs EnumerateDeviceFlag = Some r"
  shows "map_of errs' EnumerateDeviceFlag = Some (r\<lparr>Errors := Errors r @ map unknownError (unknownNames xs)\<rparr>)"
  using assms
proof (induction xs arbitrary: errs active z r)
  case Nil
  then show ?case by (simp add: unknownNames_def)
next
  case (Cons x xs)
  obtain name settings where x: "x = (name, settings)" by (cases x)
  obtain errs1 active1 z1 where
    one: "offerCapability h C d (name, settings) (errs, active, z) = (errs1, active1, z1)"
    by (metis prod_cases3)
  have rest: "fold (offerCapability h C d) xs (errs1, active1, z1) = (errs', active', z')"
    using Cons.prems(1) one x by simp
  show ?case
  proof (cases "map_of Mapping name")
    case None
    with one Cons.prems(2) have "map_of errs1 EnumerateDeviceFlag = Some (r\<lparr>Errors := Errors r @ [unknownError name]\<rparr>)"
      by (auto simp: unknownError_def)
    from Cons.IH [OF rest this] None show ?thesis by (simp add: x unknownNames_def)
  next
    case (Some cF)
    then have "cF \<noteq> EnumerateDeviceFlag" using Mapping_not_enumerate by metis
    then have "map_of errs1 EnumerateDeviceFlag = Some r"
      using one Cons.prems(2) Some by (auto simp: Let_def split: prod.splits if_splits)
    from Cons.IH [OF rest this] Some show ?thesis by (simp add: x unknownNames_def)
  qed
qed

lemma detachRedundant_other:
  "detachRedundant h C d active cfs (errs, z) = (errs', z') \<Longrightarrow> cf \<notin> set cfs \<Longrightarrow> map_of errs' cf = map_of errs cf"
  by (induction cfs arbitrary: errs z) (auto split: option.splits if_splits prod.splits)

context gateway begin

lemma updateCapabilitiesOnDevice_unknown:
  assumes "gateway_ok h C z" "getDevice d z \<noteq> None" "updateCapabilitiesOnDevice h C d i z = (errs, z')"
  shows "map_of errs EnumerateDeviceFlag =
    Some \<lparr>Attached = True, Errors = map unknownError (unknownNames (offers i))\<rparr>"
proof -
  let ?start = "[(EnumerateDeviceFlag, \<lparr>Attached = True, Errors = []\<rparr>)]"
  obtain errs1 active z1 where
    loop: "fold (offerCapability h C d) (offers i) (?start, [], z) = (errs1, active, z1)"
    by (metis prod_cases3)
  have det: "detachRedundant h C d active (map fst (deviceCaps d z1)) (errs1, z1) = (errs, z')"
    using assms(3) loop by (simp add: updateCapabilitiesOnDevice_def enumerateCapabilities_fold flip: offers_def)
  have "gateway_ok h C z1" using offers_ok [OF loop assms(1,2) order_refl] by simp
  have "EnumerateDeviceFlag \<notin> keys (deviceCaps d z1)"
  proof
    assume "EnumerateDeviceFlag \<in> keys (deviceCaps d z1)"
    then obtain c where "map_of (deviceCaps d z1) EnumerateDeviceFlag = Some c" by (rule keys_obtain)
    with mirrorsD(6) [OF gateway_okD(1) [OF \<open>gateway_ok h C z1\<close>], of d] have
      "map_of Mapping (c_ImplName C c) = Some EnumerateDeviceFlag"
      by (auto simp: deviceCaps_def device_ok_def capability_ok_def split: option.splits)
    then show False using Mapping_not_enumerate by blast
  qed
  then have "map_of errs EnumerateDeviceFlag = map_of errs1 EnumerateDeviceFlag"
    by (intro detachRedundant_other [OF det]) simp
  also have "\<dots> = Some \<lparr>Attached = True, Errors = map unknownError (unknownNames (offers i))\<rparr>"
    using offers_unknown [OF loop] by simp
  finally show ?thesis .
qed

end

lemma unknownNames_append: "unknownNames (xs @ ys) = unknownNames xs @ unknownNames ys"
  by (simp add: unknownNames_def)

lemma unknownNames_offeredIf:
  "unknownNames (offeredIf b k s) = (if b \<and> map_of Mapping k = None then [k] else [])"
  by (simp add: unknownNames_def offeredIf_def)

text \<open>What the default rules put out for these clusters has no implementation.\<close>

definition unimplemented :: "ClusterID set \<Rightarrow> string list" where
  "unimplemented cs =
     (if 0x0006 \<notin> cs then [] else if 0x0300 \<in> cs \<or> 0x0008 \<in> cs then [''ZCLLight''] else [''ZCLOnOff'']) @
     (if 0x0500 \<in> cs then [''ZCLAlarmSensor''] else []) @
     (if 0x0502 \<in> cs then [''ZCLAlarmWarningDevice''] else [])"

lemma unknownNames_default:
  "unknownNames (defaultOffers ep d) = unimplemented (set (InClusterList (description d)))"
proof -
  have M: "map_of Mapping ''GenericProductInformation'' \<noteq> None" "map_of Mapping ''GenericDeviceWorkarounds'' \<noteq> None"
    "map_of Mapping ''ZCLPowerSupply'' \<noteq> None" "map_of Mapping ''ZCLIdentify'' \<noteq> None"
    "map_of Mapping ''ZCLTemperatureSensor'' \<noteq> None" "map_of Mapping ''ZCLPressureSensor'' \<noteq> None"
    "map_of Mapping ''ZCLHumiditySensor'' \<noteq> None" "map_of Mapping ''ZCLOnOff'' = None"
    "map_of Mapping ''ZCLLight'' = None" "map_of Mapping ''ZCLAlarmSensor'' = None"
    "map_of Mapping ''ZCLAlarmWarningDevice'' = None"
    by (simp_all add: Mapping_def implementation_names)
  have one: "unknownNames [(k, s)] = (if map_of Mapping k = None then [k] else [])" for k s
    by (simp add: unknownNames_def)
  show ?thesis
    unfolding defaultOffers_def defaultCapabilities_def Let_def unknownNames_append unknownNames_offeredIf one
    by (simp add: M clusters_simps unimplemented_def)
qed

lemma default_inventory:
  assumes "runs_default_rules compile run e" "interrogated N Z a inven"
    "runRules T (executeFn run e) inven = Inr inven'"
  shows "wf_map (endpoints inven)"
    "inven' = inven\<lparr>endpoints := map (\<lambda>(ep, d). (ep, withDefaults ep d)) (endpoints inven)\<rparr>"
proof -
  show wf: "wf_map (endpoints inven)" using assms(2) by (simp add: interrogated_def)
  show "inven' = inven\<lparr>endpoints := map (\<lambda>(ep, d). (ep, withDefaults ep d)) (endpoints inven)\<rparr>"
    using assms(3) unfolding runRules_default [OF assms(1) wf] by simp
qed

lemma default_endpoint:
  assumes "runs_default_rules compile run e" "interrogated N Z a inven"
    "runRules T (executeFn run e) inven = Inr inven'" "map_of (endpoints inven') ep = Some d'"
  obtains d where "map_of (endpoints inven) ep = Some d" "d' = withDefaults ep d"
proof -
  note inv = default_inventory [OF assms(1-3)]
  from map_of_SomeD [OF assms(4)] obtain d where "(ep, d) \<in> set (endpoints inven)" "d' = withDefaults ep d"
    unfolding inv(2) by auto
  then show thesis using wf_map_map_of [OF inv(1)] by (intro that) simp_all
qed

lemma offeredFlags_append: "offeredFlags (xs @ ys) = offeredFlags xs @ offeredFlags ys"
  by (simp add: offeredFlags_def List.map_filter_def)

lemma offeredFlags_offeredIf:
  "offeredFlags (offeredIf b k s) = (if b then (case map_of Mapping k of None \<Rightarrow> [] | Some cF \<Rightarrow> [cF]) else [])"
  by (simp add: offeredIf_def split: option.split)

lemma default_flags_distinct: "distinct (offeredFlags (defaultOffers ep d))"
proof -
  have M: "map_of Mapping ''GenericProductInformation'' = Some ProductInformationFlag"
    "map_of Mapping ''GenericDeviceWorkarounds'' = Some DeviceWorkaroundsFlag"
    "map_of Mapping ''ZCLPowerSupply'' = Some PowerSupplyFlag" "map_of Mapping ''ZCLIdentify'' = Some IdentifyFlag"
    "map_of Mapping ''ZCLTemperatureSensor'' = Some TemperatureSensorFlag"
    "map_of Mapping ''ZCLPressureSensor'' = Some PressureSensorFlag"
    "map_of Mapping ''ZCLHumiditySensor'' = Some RelativeHumiditySensorFlag" "map_of Mapping ''ZCLOnOff'' = None"
    "map_of Mapping ''ZCLLight'' = None" "map_of Mapping ''ZCLAlarmSensor'' = None"
    "map_of Mapping ''ZCLAlarmWarningDevice'' = None"
    by (simp_all add: Mapping_def implementation_names)
  have one: "offeredFlags [(k, s)] = (case map_of Mapping k of None \<Rightarrow> [] | Some cF \<Rightarrow> [cF])" for k s
    by (simp split: option.split)
  show ?thesis
    unfolding defaultOffers_def defaultCapabilities_def Let_def offeredFlags_append offeredFlags_offeredIf one M option.case
    by simp
qed

text \<open>C13: the results of a device under the default rules. A capability is said to be attached
  exactly if the device then has it. The rules ask for capabilities the program does not have: an
  endpoint with an on/off cluster always reports that \<open>ZCLLight\<close> (with a colour or level cluster)
  or \<open>ZCLOnOff\<close> could not be found, one with an IAS zone or warning cluster that \<open>ZCLAlarmSensor\<close>
  or \<open>ZCLAlarmWarningDevice\<close> could not; no other name is ever reported.\<close>

theorem default_rules_results:
  assumes "host_ok h" "sections I = persist h" "network_ok N" "network_endpoints N" "reachable h I N f parse R z"
    and "runs_default_rules compile run e" "interrogated N (zcl I) a inven"
      "runRules T (executeFn run e) inven = Inr inven'" "i \<in> set (groupInventoryDevices inven')"
    and "getDevice d z \<noteq> None" "updateCapabilitiesOnDevice h (Implementations I) d i z = (errs, z')"
  shows "\<exists>ep details. map_of (endpoints inven) ep = Some details \<and> uniqueId i = uint ep \<and>
    map_of errs EnumerateDeviceFlag = Some \<lparr>Attached = True,
      Errors = map unknownError (unimplemented (set (InClusterList (description details))))\<rparr> \<and>
    (\<forall>cf. cf \<noteq> EnumerateDeviceFlag \<longrightarrow> reported errs cf = (map_of (deviceCaps d z') cf \<noteq> None))"
proof -
  note zda = zda.intro [OF assms(1,2)]
  note inv = default_inventory [OF assms(6-8)]
  obtain ep details where i: "map_of (endpoints inven) ep = Some details" "uniqueId i = uint ep"
    "offers i = defaultOffers ep details"
    by (rule default_devices [OF inv(1) assms(9) [unfolded inv(2)]])
  have ok: "gateway_ok h (Implementations I) z" by (rule sys_okD(1) [OF zda.reachable_ok [OF zda assms(5,3,4)]])
  note up = gateway.updateCapabilitiesOnDevice_ok(4,5) [OF zda_gateway [OF zda] ok assms(10,11)]
  have "distinct (offeredFlags (offers i))" unfolding i(3) by (rule default_flags_distinct)
  with up have "\<forall>cf. cf \<noteq> EnumerateDeviceFlag \<longrightarrow> reported errs cf = (map_of (deviceCaps d z') cf \<noteq> None)"
    by blast
  with gateway.updateCapabilitiesOnDevice_unknown [OF zda_gateway [OF zda] ok assms(10,11)] i show ?thesis
    by (auto simp: unknownNames_default)
qed

section \<open>Product information\<close>

lemma product_offered:
  "map_of (defaultOffers ep d) ''GenericProductInformation'' =
     Some (productSettings (toInputProductData (productInformation d)))"
  by (simp add: defaultOffers_def defaultCapabilities_def Let_def)

definition ownInfo :: "productData \<Rightarrow> ProductInfo" where
  "ownInfo p = \<lparr>Name = product p, InfoManufacturer = manufacturer p, InfoVersion = version p, InfoSerial = serial p\<rparr>"

lemma productEnumerate_settings:
  "\<exists>e'. productEnumerate I (productSettings (toInputProductData p)) g e =
     (Returns (p \<noteq> noProductData, None),
      if p \<noteq> noProductData then g\<lparr>pi_info := Some (ownInfo p)\<rparr> else g, e')"
  by (cases p; cases "manufacturer p = []"; cases "product p = []"; cases "version p = []"; cases "serial p = []";
      simp add: productEnumerate_def productSettings_def toInputProductData_def setProductInfo_def
        noProductData_def emptyProductInfo_def ownInfo_def)

text \<open>C14: the default rules read each field of the product from the first product in which it is not
  \<open>nil\<close>, so that a device could take it from another endpoint of its node. But a field that was
  never read is an empty text, not \<open>nil\<close>: what is attached is always the endpoint's own data, and
  the product information of an endpoint without a Basic cluster is never attached.\<close>

theorem product_information_not_shared:
  assumes "runs_default_rules compile run e" "interrogated N Z a inven"
    "runRules T (executeFn run e) inven = Inr inven'" "map_of (endpoints inven') ep = Some d"
  shows "\<exists>s e'. map_of (OutputCapabilities (rulesOutput d)) GenericProductInformation = Some s \<and>
    productEnumerate I s g w =
      (Returns (productInformation d \<noteq> noProductData, None),
       if productInformation d \<noteq> noProductData then g\<lparr>pi_info := Some (ownInfo (productInformation d))\<rparr> else g, e') \<and>
    (BasicId Z \<notin> set (InClusterList (description d)) \<longrightarrow> productInformation d = noProductData)"
proof -
  obtain d0 where d0: "map_of (endpoints inven) ep = Some d0" "d = withDefaults ep d0"
    by (rule default_endpoint [OF assms])
  have "BasicId Z \<notin> set (InClusterList (description d)) \<longrightarrow> productInformation d = noProductData"
    using assms(2) d0 by (simp add: interrogated_def withDefaults_def)
  moreover have "map_of (OutputCapabilities (rulesOutput d)) GenericProductInformation =
      Some (productSettings (toInputProductData (productInformation d)))"
    by (simp add: d0(2) withDefaults_def GenericProductInformation_def product_offered)
  ultimately show ?thesis using productEnumerate_settings [of I "productInformation d" g w] by blast
qed

section \<open>The sensors\<close>

text \<open>C30: the rules for temperature and humidity ask for the cluster the sensor then follows. The
  rule for pressure does not: it asks for \<open>0x0404\<close>, flow measurement, and the sensor it attaches
  follows \<open>0x0403\<close>; an endpoint that measures pressure is offered no sensor.\<close>

theorem default_sensor_clusters:
  assumes "runs_default_rules compile run e" "interrogated N Z a inven" "zcl I = zclStandard"
    "runRules T (executeFn run e) inven = Inr inven'" "map_of (endpoints inven') ep = Some d"
  shows "(map_of (OutputCapabilities (rulesOutput d)) (k_implName (temperatureSensor I)) \<noteq> None \<longleftrightarrow>
      k_cluster (temperatureSensor I) \<in> set (InClusterList (description d))) \<and>
    (map_of (OutputCapabilities (rulesOutput d)) (k_implName (humiditySensor I)) \<noteq> None \<longleftrightarrow>
      k_cluster (humiditySensor I) \<in> set (InClusterList (description d))) \<and>
    (map_of (OutputCapabilities (rulesOutput d)) (k_implName (pressureSensor I)) \<noteq> None \<longleftrightarrow>
      0x0404 \<in> set (InClusterList (description d))) \<and> k_cluster (pressureSensor I) = 0x0403"
proof -
  obtain d0 where d0: "d = withDefaults ep d0"
    using default_endpoint [OF assms(1,2,4,5)] by metis
  have offered: "(map_of (OutputCapabilities (rulesOutput d)) n \<noteq> None) = (n \<in> keys (defaultOffers ep d0))" for n
    by (simp add: d0 withDefaults_def map_of_eq_None_keys)
  show ?thesis
    unfolding offered sensor_kinds sensorKind.simps assms(3) zclStandard_def zclConstants.simps offered_names
    by (simp add: d0 withDefaults_def)
qed

section \<open>Witnesses\<close>

definition exampleDefaults :: "Input \<Rightarrow> unit ExecError + Output" where
  "exampleDefaults = executeFn tableRun \<lparr>RuleSets = [], Rules = defaultRules\<rparr>"

lemma exampleDefaults_run: "runs_default_rules tableCompile tableRun \<lparr>RuleSets = [], Rules = defaultRules\<rparr>"
  unfolding runs_default_rules_def using tableCompile_language defaultRules_compiled by blast

lemma exampleJoined_any:
  "reachable memoryHost exampleInterface N f exampleParse [0xABCD \<mapsto> EnumStart] exampleJoined"
proof -
  have start: "reachable memoryHost exampleInterface N f exampleParse (\<lambda>_. None) exampleStart"
    by (rule reachable.first)
       (simp_all add: newProcess_def emptyStore_def exampleEnv_def memoryHost_def memory_store_def memory_keys_def
         memory_new_def)
  have "getNode 0xABCD exampleStart = None" by (simp add: getNode_def)
  then have R: "goroutinesAfter (NodeJoinEvent 0xABCD :: unit providerEvent) exampleStart (\<lambda>_. None) = [0xABCD \<mapsto> EnumStart]"
    by (simp only: goroutinesAfter_def providerEvent.case simp_thms if_True)
  show ?thesis
    unfolding R [symmetric]
    by (rule reachable.provider [OF start]) (simp_all add: handleEvent_def exampleJoined_def)
qed

lemma exampleJoined_enumerates_any:
  "\<exists>z'. enumerate memoryHost (Implementations exampleInterface) exampleNetwork (zcl exampleInterface) f
      0xABCD exampleJoined = Returns z'"
proof -
  have "enumerate memoryHost (Implementations exampleInterface) exampleNetwork (zcl exampleInterface) f
      0xABCD exampleJoined \<noteq> Panics"
    using exampleNetwork_answers
    by (auto simp: enumerate_def enumerateBody_def exampleInterface_def Let_def
        split: outcome.splits prod.splits sum.splits) (metis fst_conv)
  then show ?thesis
    by (cases "enumerate memoryHost (Implementations exampleInterface) exampleNetwork (zcl exampleInterface) f
      0xABCD exampleJoined") auto
qed


text \<open>A node with one endpoint for a dimmable light, and its inventory.\<close>

definition lightDetails :: endpointDetails where
  "lightDetails = exampleDetails\<lparr>description := (description exampleDetails)\<lparr>InClusterList := [3, 6, 8]\<rparr>\<rparr>"

definition lightNetwork :: "(memory, unit) network" where
  "lightNetwork = exampleNetwork\<lparr>QueryNodeEndpointDescription := (\<lambda>a ep x. (Inr (description lightDetails), x))\<rparr>"

definition lightInventory :: inventory where
  "lightInventory =
     \<lparr>nodeDescription = \<lparr>LogicalType = Router, ManufacturerCode = 0\<rparr>, endpoints = [(1, lightDetails)]\<rparr>"

definition lightOffered :: inventory where
  "lightOffered = lightInventory\<lparr>endpoints := [(1, withDefaults 1 lightDetails)]\<rparr>"

lemma lightInventory_interrogated: "interrogated lightNetwork Z a lightInventory"
  by (simp add: interrogated_def lightNetwork_def lightInventory_def exampleNetwork_def described_def
      lightDetails_def exampleDetails_def)

lemma lightNetwork_ok: "network_ok lightNetwork" "network_endpoints lightNetwork"
  using exampleNetwork_ok exampleNetwork_endpoints
  by (simp_all add: network_ok_def network_endpoints_def lightNetwork_def)

lemma lightInventory_run:
  "runRules T (executeFn tableRun \<lparr>RuleSets = [], Rules = defaultRules\<rparr>) lightInventory = Inr lightOffered"
proof -
  have "wf_map (endpoints lightInventory)" by (simp add: lightInventory_def)
  from runRules_default [OF exampleDefaults_run this] show ?thesis
    by (simp add: lightInventory_def lightOffered_def)
qed

lemma lightOffered_device:
  "groupInventoryDevices lightOffered = [\<lparr>uniqueId = 1, invEndpoints = [withDefaults 1 lightDetails]\<rparr>]"
  by (simp add: groupInventoryDevices_def inventoryMap_def lightOffered_def)

theorem default_rules_results_witness:
  "map_of (fst (updateCapabilitiesOnDevice memoryHost (Implementations exampleInterface) (addressOf 0xABCD 0)
       \<lparr>uniqueId = 1, invEndpoints = [withDefaults 1 lightDetails]\<rparr> exampleJoined)) EnumerateDeviceFlag =
     Some \<lparr>Attached = True, Errors = [Err ''could not find capability in rule output: ZCLLight'']\<rparr>"
proof -
  obtain errs z' where u: "updateCapabilitiesOnDevice memoryHost (Implementations exampleInterface) (addressOf 0xABCD 0)
       \<lparr>uniqueId = 1, invEndpoints = [withDefaults 1 lightDetails]\<rparr> exampleJoined = (errs, z')"
    by (metis prod.exhaust)
  have "getDevice (addressOf 0xABCD 0) exampleJoined \<noteq> None" by (simp add: exampleJoined_table(1))
  from default_rules_results [OF memoryHost_ok exampleInterface_ok(2) lightNetwork_ok
      exampleJoined_any exampleDefaults_run lightInventory_interrogated lightInventory_run _ this u]
  obtain ep details where "map_of (endpoints lightInventory) ep = Some details"
    "map_of errs EnumerateDeviceFlag = Some \<lparr>Attached = True,
      Errors = map unknownError (unimplemented (set (InClusterList (description details))))\<rparr>"
    by (auto simp: lightOffered_device)
  then show ?thesis unfolding u fst_conv
    by (auto simp: lightInventory_def lightDetails_def exampleDetails_def unimplemented_def unknownError_def
        split: if_splits)
qed

theorem product_information_not_shared_witness:
  "\<exists>s e'. map_of (defaultOffers 1 lightDetails) GenericProductInformation = Some s \<and>
     productEnumerate exampleInterface s NewProductInformation exampleEnv =
       (Returns (False, None), NewProductInformation, e')"
proof -
  have "map_of (endpoints lightOffered) 1 = Some (withDefaults 1 lightDetails)" by (simp add: lightOffered_def)
  from product_information_not_shared [OF exampleDefaults_run lightInventory_interrogated lightInventory_run this,
      of exampleInterface NewProductInformation exampleEnv]
  show ?thesis by (simp add: withDefaults_def lightDetails_def exampleDetails_def)
qed

theorem default_sensor_clusters_witness:
  "map_of (defaultOffers 1 lightDetails) ''ZCLPressureSensor'' = None"
proof -
  have z: "zcl exampleInterface = zclStandard" by (simp add: exampleInterface_def)
  have "map_of (endpoints lightOffered) 1 = Some (withDefaults 1 lightDetails)" by (simp add: lightOffered_def)
  from default_sensor_clusters [OF exampleDefaults_run lightInventory_interrogated z lightInventory_run this]
  show ?thesis
    by (simp add: withDefaults_def lightDetails_def exampleDetails_def pressureSensor_def)
qed

end
